(* ===== verification/Prelude.thy ===== *)
theory Prelude
  imports Main "HOL-Library.Sublist"
begin

text \<open>
  The shared base of the development.
  \<^item> Exceptions: the classes the sources raise and catch, with Python's subclass relation
    (\<open>errors.py\<close> and the classes of the standard library and of the client libraries that
    an \<^verbatim>\<open>except\<close> clause names).
  \<^item> Programs: an exception-and-state computation (\<open>prog\<close>), with the combinators that
    mirror \<^verbatim>\<open>await\<close>/sequencing, \<^verbatim>\<open>raise\<close>, \<^verbatim>\<open>try/except\<close>, \<^verbatim>\<open>try/finally\<close> and
    \<^verbatim>\<open>for\<close>. A third outcome \<open>Hang\<close> stands for a loop that has not ended within the fuel
    it was given: nothing that follows it in the program has run.
  \<^item> A weakest-precondition calculus \<open>wp\<close> for these programs; its rules are collected in
    \<open>wp_rules\<close> and the facts about event lists in \<open>trace_simps\<close>.
\<close>

named_theorems wp_rules "weakest preconditions of the program combinators"
named_theorems returns_intros "programs that end, whatever they are composed of"
named_theorems emits_intros "programs whose calls all satisfy a predicate"
named_theorems trace_simps "how an event changes what is read off a trace"


section \<open>Exceptions\<close>

text \<open>
  The classes of \<open>errors.py\<close> come first, then the standard library's, then those of the
  client libraries. \<open>CancelledError\<close> is what \<^verbatim>\<open>Task.cancel()\<close> raises at an
  \<^verbatim>\<open>await\<close>: it derives from \<open>BaseException\<close>, so \<^verbatim>\<open>except Exception\<close> lets it pass.
\<close>

datatype exn_class =
    BaseException | PyException
  | CodaError | ConfigError | AuthError | VPNError | NodeError
  | HeartbeatRejectedError | ExecutorError | WebhookError
  | CancelledError
  | OSError | ConnectionError | TimeoutError | FileNotFoundError | PermissionError
  | ProcessLookupError | IsADirectoryError
  | ValueError | UnicodeDecodeError | JSONDecodeError | ValidationError
  | LookupError | KeyError | IndexError | TypeError | AttributeError | RuntimeError
  | ImportError | ModuleNotFoundError | ArithmeticError | OverflowError
  | SubprocessError | TimeoutExpired
  | RedisError | RedisConnectionError | RedisTimeoutError | RedisResponseError
  | HTTPError | HTTPStatusError | TransportError
  | PyJWTError | InvalidTokenError | DecodeError
  | QASMConversionError | JobCancelledWhileExecuting | OtherException

fun superclass :: "exn_class \<Rightarrow> exn_class option" where
  "superclass BaseException = None"
| "superclass PyException = Some BaseException"
| "superclass CancelledError = Some BaseException"
| "superclass ConfigError = Some CodaError"
| "superclass AuthError = Some CodaError"
| "superclass VPNError = Some CodaError"
| "superclass NodeError = Some CodaError"
| "superclass HeartbeatRejectedError = Some CodaError"
| "superclass ExecutorError = Some CodaError"
| "superclass WebhookError = Some CodaError"
| "superclass ConnectionError = Some OSError"
| "superclass TimeoutError = Some OSError"
| "superclass FileNotFoundError = Some OSError"
| "superclass PermissionError = Some OSError"
| "superclass ProcessLookupError = Some OSError"
| "superclass IsADirectoryError = Some OSError"
| "superclass UnicodeDecodeError = Some ValueError"
| "superclass JSONDecodeError = Some ValueError"
| "superclass ValidationError = Some ValueError"
| "superclass KeyError = Some LookupError"
| "superclass IndexError = Some LookupError"
| "superclass ModuleNotFoundError = Some ImportError"
| "superclass OverflowError = Some ArithmeticError"
| "superclass TimeoutExpired = Some SubprocessError"
| "superclass RedisConnectionError = Some RedisError"
| "superclass RedisTimeoutError = Some RedisError"
| "superclass RedisResponseError = Some RedisError"
| "superclass HTTPStatusError = Some HTTPError"
| "superclass TransportError = Some HTTPError"
| "superclass InvalidTokenError = Some PyJWTError"
| "superclass DecodeError = Some InvalidTokenError"
| "superclass _ = Some PyException"

definition class_rank :: "exn_class \<Rightarrow> nat" where
  "class_rank c =
     (if c = BaseException then 0
      else if c \<in> {PyException, CancelledError} then 1
      else if c \<in> {CodaError, OSError, ValueError, LookupError, ImportError, SubprocessError,
                    RedisError, HTTPError, PyJWTError, ArithmeticError} then 2
      else if c = DecodeError then 4 else 3)"

lemma superclass_rank: "superclass c = Some p \<Longrightarrow> class_rank p < class_rank c"
  by (cases c) (auto simp: class_rank_def)

text \<open>The method resolution order: a class and its ancestors, nearest first.\<close>

function mro :: "exn_class \<Rightarrow> exn_class list" where
  "mro c = c # (case superclass c of None \<Rightarrow> [] | Some p \<Rightarrow> mro p)"
  by pat_completeness auto
termination
  by (relation "measure class_rank") (auto simp: superclass_rank)

declare mro.simps [simp del]

text \<open>
  An exception value carries its class, the text \<^verbatim>\<open>str(exc)\<close> and, for an HTTP status
  error, the status code of its response.
\<close>

datatype exn = Exn (exn_cls: exn_class) (exn_str: string) | HttpStatus (http_code: nat) string

fun exn_class_of :: "exn \<Rightarrow> exn_class" where
  "exn_class_of (Exn c _) = c"
| "exn_class_of (HttpStatus _ _) = HTTPStatusError"

fun exn_text :: "exn \<Rightarrow> string" where
  "exn_text (Exn _ t) = t"
| "exn_text (HttpStatus _ t) = t"

text \<open>\<open>catches cs e\<close>: an \<^verbatim>\<open>except (cs)\<close> clause matches \<open>e\<close>.\<close>

definition catches :: "exn_class list \<Rightarrow> exn \<Rightarrow> bool" where
  "catches cs e = (\<exists>c \<in> set (mro (exn_class_of e)). c \<in> set cs)"

definition is_exception :: "exn \<Rightarrow> bool" where
  "is_exception e = catches [PyException] e"

lemma mro_unfold:
  "mro c = c # (case superclass c of None \<Rightarrow> [] | Some p \<Rightarrow> mro p)"
  by (rule mro.simps)

lemma mro_eqs [simp]:
  "mro BaseException = [BaseException]"
  "mro PyException = [PyException, BaseException]"
  "mro CancelledError = [CancelledError, BaseException]"
  "mro CodaError = [CodaError, PyException, BaseException]"
  "mro OSError = [OSError, PyException, BaseException]"
  "mro ValueError = [ValueError, PyException, BaseException]"
  "mro LookupError = [LookupError, PyException, BaseException]"
  "mro RedisError = [RedisError, PyException, BaseException]"
  "mro HTTPError = [HTTPError, PyException, BaseException]"
  "mro SubprocessError = [SubprocessError, PyException, BaseException]"
  "mro ImportError = [ImportError, PyException, BaseException]"
  by (simp_all add: mro_unfold)

lemma is_exception_iff: "is_exception e \<longleftrightarrow> exn_class_of e \<notin> {BaseException, CancelledError}"
  by (cases "exn_class_of e") (simp_all add: is_exception_def catches_def mro.simps)

lemma catches_Exn_self [simp]: "c \<in> set cs \<Longrightarrow> catches cs (Exn c t)"
  by (auto simp: catches_def mro_unfold [of c])


section \<open>Programs\<close>

datatype 'a outcome = Ret 'a | Raise exn | Hang

type_synonym ('s, 'a) prog = "'s \<Rightarrow> 'a outcome \<times> 's"

definition ret :: "'a \<Rightarrow> ('s, 'a) prog" where
  "ret x = (\<lambda>s. (Ret x, s))"

definition raise :: "exn \<Rightarrow> ('s, 'a) prog" where
  "raise e = (\<lambda>s. (Raise e, s))"

definition hang :: "('s, 'a) prog" where
  "hang = (\<lambda>s. (Hang, s))"

definition bind_p :: "('s, 'a) prog \<Rightarrow> ('a \<Rightarrow> ('s, 'b) prog) \<Rightarrow> ('s, 'b) prog" where
  "bind_p m f = (\<lambda>s. case m s of
      (Ret x, s') \<Rightarrow> f x s' | (Raise e, s') \<Rightarrow> (Raise e, s') | (Hang, s') \<Rightarrow> (Hang, s'))"

definition then_p :: "('s, 'a) prog \<Rightarrow> ('s, 'b) prog \<Rightarrow> ('s, 'b) prog" where
  "then_p m k = bind_p m (\<lambda>_. k)"

text \<open>\<open>from_sum r\<close>: a reply that is either an exception to raise or a value.\<close>

definition from_sum :: "exn + 'a \<Rightarrow> ('s, 'a) prog" where
  "from_sum r = (case r of Inl e \<Rightarrow> raise e | Inr x \<Rightarrow> ret x)"

text \<open>
  \<open>try_except m h\<close>: \<open>h e\<close> is \<open>None\<close> when no \<^verbatim>\<open>except\<close> clause matches \<open>e\<close>, and the
  body of the first clause that does otherwise.
\<close>

definition try_except ::
    "('s, 'a) prog \<Rightarrow> (exn \<Rightarrow> ('s, 'a) prog option) \<Rightarrow> ('s, 'a) prog" where
  "try_except m h = (\<lambda>s. case m s of
      (Raise e, s') \<Rightarrow> (case h e of None \<Rightarrow> (Raise e, s') | Some k \<Rightarrow> k s')
    | (Ret x, s') \<Rightarrow> (Ret x, s') | (Hang, s') \<Rightarrow> (Hang, s'))"

text \<open>
  \<open>try_finally m k\<close>: \<open>k\<close> runs whether \<open>m\<close> returned or raised; an exception of \<open>k\<close>
  replaces the outcome of \<open>m\<close>.
\<close>

definition try_finally :: "('s, 'a) prog \<Rightarrow> ('s, unit) prog \<Rightarrow> ('s, 'a) prog" where
  "try_finally m k = (\<lambda>s. case m s of
      (Hang, s') \<Rightarrow> (Hang, s')
    | (r, s') \<Rightarrow> (case k s' of
          (Ret _, s'') \<Rightarrow> (r, s'') | (Raise e, s'') \<Rightarrow> (Raise e, s'') | (Hang, s'') \<Rightarrow> (Hang, s'')))"

fun for_p :: "'a list \<Rightarrow> ('a \<Rightarrow> ('s, unit) prog) \<Rightarrow> ('s, unit) prog" where
  "for_p [] f = ret ()"
| "for_p (x # xs) f = then_p (f x) (for_p xs f)"

definition get_p :: "('s \<Rightarrow> 'a) \<Rightarrow> ('s, 'a) prog" where
  "get_p g = (\<lambda>s. (Ret (g s), s))"

definition modify_p :: "('s \<Rightarrow> 's) \<Rightarrow> ('s, unit) prog" where
  "modify_p g = (\<lambda>s. (Ret (), g s))"


subsection \<open>Laws of sequencing\<close>

lemma bind_p_assoc: "bind_p (bind_p m f) g = bind_p m (\<lambda>x. bind_p (f x) g)"
  by (rule ext) (auto simp: bind_p_def split: outcome.splits prod.splits)

lemma bind_p_ret: "bind_p (ret x) f = f x"
  by (rule ext) (simp add: bind_p_def ret_def)

lemma bind_get_p: "bind_p (get_p g) f = (\<lambda>s. f (g s) s)"
  by (rule ext) (simp add: bind_p_def get_p_def)


subsection \<open>Weakest preconditions\<close>

definition wp :: "('s, 'a) prog \<Rightarrow> ('a outcome \<Rightarrow> 's \<Rightarrow> bool) \<Rightarrow> 's \<Rightarrow> bool" where
  "wp m Q s = (case m s of (r, s') \<Rightarrow> Q r s')"

lemma wp_iff: "wp m Q s \<longleftrightarrow> Q (fst (m s)) (snd (m s))"
  by (simp add: wp_def split: prod.split)

lemma wp_run: "wp m Q s \<Longrightarrow> m s = (r, s') \<Longrightarrow> Q r s'"
  by (simp add: wp_def)

lemma wpI: "(\<And>r s'. m s = (r, s') \<Longrightarrow> Q r s') \<Longrightarrow> wp m Q s"
  by (simp add: wp_def split: prod.split)

lemma wp_mono: "wp m Q s \<Longrightarrow> (\<And>r s'. Q r s' \<Longrightarrow> R r s') \<Longrightarrow> wp m R s"
  by (simp add: wp_def split: prod.splits)

lemma wp_conj: "wp m Q s \<Longrightarrow> wp m R s \<Longrightarrow> wp m (\<lambda>r s'. Q r s' \<and> R r s') s"
  by (simp add: wp_iff)

lemma wp_ret [wp_rules]: "wp (ret x) Q s = Q (Ret x) s"
  by (simp add: wp_def ret_def)

lemma wp_raise [wp_rules]: "wp (raise e) Q s = Q (Raise e) s"
  by (simp add: wp_def raise_def)

lemma wp_hang [wp_rules]: "wp hang Q s = Q Hang s"
  by (simp add: wp_def hang_def)

lemma wp_bind [wp_rules]:
  "wp (bind_p m f) Q s =
     wp m (\<lambda>r s'. case r of Ret x \<Rightarrow> wp (f x) Q s' | Raise e \<Rightarrow> Q (Raise e) s' | Hang \<Rightarrow> Q Hang s') s"
  by (simp add: wp_def bind_p_def split: prod.splits outcome.splits)

lemma wp_then [wp_rules]:
  "wp (then_p m k) Q s =
     wp m (\<lambda>r s'. case r of Ret x \<Rightarrow> wp k Q s' | Raise e \<Rightarrow> Q (Raise e) s' | Hang \<Rightarrow> Q Hang s') s"
  by (simp add: then_p_def wp_bind)

lemma wp_from_sum [wp_rules]:
  "wp (from_sum r) Q s = (case r of Inl e \<Rightarrow> Q (Raise e) s | Inr x \<Rightarrow> Q (Ret x) s)"
  by (simp add: from_sum_def wp_ret wp_raise split: sum.splits)

lemma wp_try_except [wp_rules]:
  "wp (try_except m h) Q s =
     wp m (\<lambda>r s'. case r of Raise e \<Rightarrow> (case h e of None \<Rightarrow> Q (Raise e) s' | Some k \<Rightarrow> wp k Q s')
                  | Ret x \<Rightarrow> Q (Ret x) s' | Hang \<Rightarrow> Q Hang s') s"
  by (simp add: wp_def try_except_def split: prod.splits outcome.splits option.splits)

lemma wp_try_finally [wp_rules]:
  "wp (try_finally m k) Q s =
     wp m (\<lambda>r s'. case r of Hang \<Rightarrow> Q Hang s'
                  | _ \<Rightarrow> wp k (\<lambda>r' s''. case r' of Ret _ \<Rightarrow> Q r s'' | Raise e \<Rightarrow> Q (Raise e) s''
                                                 | Hang \<Rightarrow> Q Hang s'') s') s"
  by (simp add: wp_def try_finally_def split: prod.splits outcome.splits)

lemma wp_get_p [wp_rules]: "wp (get_p g) Q s = Q (Ret (g s)) s"
  by (simp add: wp_def get_p_def)

lemma wp_modify_p [wp_rules]: "wp (modify_p g) Q s = Q (Ret ()) (g s)"
  by (simp add: wp_def modify_p_def)

lemma wp_if [wp_rules]: "wp (if b then m else k) Q s = (if b then wp m Q s else wp k Q s)"
  by simp

text \<open>A loop keeps what its body keeps, and stops where the body raises.\<close>

lemma wp_for_p_invariant:
  assumes step: "\<And>x s. x \<in> set xs \<Longrightarrow> I s \<Longrightarrow>
      wp (f x) (\<lambda>r s'. case r of Ret _ \<Rightarrow> I s' | Raise e \<Rightarrow> E e s' | Hang \<Rightarrow> H s') s"
    and start: "I s"
  shows "wp (for_p xs f) (\<lambda>r s'. case r of Ret _ \<Rightarrow> I s' | Raise e \<Rightarrow> E e s' | Hang \<Rightarrow> H s') s"
  (is "wp _ ?Q s")
  using assms
proof (induction xs arbitrary: s)
  case Nil
  then show ?case by (simp add: wp_ret)
next
  case (Cons x xs)
  have "wp (f x) ?Q s" using Cons.prems by simp
  then show ?case unfolding for_p.simps wp_then
  proof (rule wp_mono)
    fix r s'
    assume q: "?Q r s'"
    show "case r of Ret x \<Rightarrow> wp (for_p xs f) ?Q s' | Raise e \<Rightarrow> ?Q (Raise e) s' | Hang \<Rightarrow> ?Q Hang s'"
    proof (cases r)
      case (Ret u)
      with q have "I s'" by simp
      with Cons.prems have "wp (for_p xs f) ?Q s'" by (intro Cons.IH) auto
      with Ret show ?thesis by simp
    qed (use q in auto)
  qed
qed


subsection \<open>Programs that end\<close>

text \<open>\<open>returns I m\<close>: from a state satisfying \<open>I\<close>, \<open>m\<close> ends (returns or raises), and keeps \<open>I\<close>.\<close>

definition returns :: "('s \<Rightarrow> bool) \<Rightarrow> ('s, 'a) prog \<Rightarrow> bool" where
  "returns I m = (\<forall>s. I s \<longrightarrow> wp m (\<lambda>r s'. r \<noteq> Hang \<and> I s') s)"

lemma returnsD: "returns I m \<Longrightarrow> I s \<Longrightarrow> m s = (r, s') \<Longrightarrow> r \<noteq> Hang \<and> I s'"
  unfolding returns_def using wp_run by fastforce

lemma returns_ret [returns_intros]: "returns I (ret x)"
  by (simp add: returns_def wp_rules)

lemma returns_raise [returns_intros]: "returns I (raise e)"
  by (simp add: returns_def wp_rules)

lemma returns_from_sum [returns_intros]: "returns I (from_sum x)"
  by (simp add: returns_def wp_rules split: sum.splits)

lemma returns_get_p [returns_intros]: "returns I (get_p g)"
  by (simp add: returns_def wp_rules)

lemma returns_modify_p [returns_intros]: "(\<And>s. I s \<Longrightarrow> I (g s)) \<Longrightarrow> returns I (modify_p g)"
  by (simp add: returns_def wp_rules)

lemma returns_bind [returns_intros]:
  assumes "returns I m" "\<And>x. returns I (f x)"
  shows "returns I (bind_p m f)"
  unfolding returns_def wp_bind
proof (intro allI impI)
  fix s
  assume "I s"
  with assms(1) have "wp m (\<lambda>r s'. r \<noteq> Hang \<and> I s') s" by (simp add: returns_def)
  then show "wp m (\<lambda>r s'. case r of Ret x \<Rightarrow> wp (f x) (\<lambda>r s'. r \<noteq> Hang \<and> I s') s'
      | Raise e \<Rightarrow> Raise e \<noteq> Hang \<and> I s' | Hang \<Rightarrow> Hang \<noteq> Hang \<and> I s') s"
    by (rule wp_mono) (use assms(2) in \<open>auto simp: returns_def split: outcome.splits\<close>)
qed

lemma returns_then [returns_intros]: "returns I m \<Longrightarrow> returns I k \<Longrightarrow> returns I (then_p m k)"
  unfolding then_p_def by (rule returns_bind)

lemma returns_try_except [returns_intros]:
  assumes "returns I m" "\<And>e k. h e = Some k \<Longrightarrow> returns I k"
  shows "returns I (try_except m h)"
  unfolding returns_def wp_try_except
proof (intro allI impI)
  fix s
  assume "I s"
  with assms(1) have "wp m (\<lambda>r s'. r \<noteq> Hang \<and> I s') s" by (simp add: returns_def)
  then show "wp m (\<lambda>r s'. case r of
        Raise e \<Rightarrow> (case h e of None \<Rightarrow> Raise e \<noteq> Hang \<and> I s' | Some k \<Rightarrow> wp k (\<lambda>r s'. r \<noteq> Hang \<and> I s') s')
      | Ret x \<Rightarrow> Ret x \<noteq> Hang \<and> I s' | Hang \<Rightarrow> Hang \<noteq> Hang \<and> I s') s"
    by (rule wp_mono) (use assms(2) in \<open>auto simp: returns_def split: outcome.splits option.splits\<close>)
qed

lemma returns_try_finally [returns_intros]:
  assumes "returns I m" "returns I k"
  shows "returns I (try_finally m k)"
  unfolding returns_def
proof (intro allI impI wpI)
  fix s r s'
  assume "I s" and run: "try_finally m k s = (r, s')"
  obtain r1 s1 where m: "m s = (r1, s1)" by force
  obtain r2 s2 where k: "k s1 = (r2, s2)" by force
  have "r1 \<noteq> Hang \<and> I s1" using returnsD [OF assms(1) \<open>I s\<close> m] .
  moreover from this have "r2 \<noteq> Hang \<and> I s2" using returnsD [OF assms(2) _ k] by blast
  ultimately show "r \<noteq> Hang \<and> I s'" using run m k
    by (auto simp: try_finally_def split: outcome.splits)
qed

lemma returns_if [returns_intros]:
  "(b \<Longrightarrow> returns I m) \<Longrightarrow> (\<not> b \<Longrightarrow> returns I k) \<Longrightarrow> returns I (if b then m else k)"
  by simp

lemma returns_for_p [returns_intros]: "(\<And>x. x \<in> set xs \<Longrightarrow> returns I (f x)) \<Longrightarrow> returns I (for_p xs f)"
  by (induction xs) (auto intro: returns_intros)


section \<open>Traces of events\<close>

text \<open>\<open>occurs_before p q xs\<close>: some element satisfying \<open>p\<close> is followed by one satisfying \<open>q\<close>.\<close>

fun occurs_before :: "('a \<Rightarrow> bool) \<Rightarrow> ('a \<Rightarrow> bool) \<Rightarrow> 'a list \<Rightarrow> bool" where
  "occurs_before p q [] = False"
| "occurs_before p q (x # xs) = ((p x \<and> list_ex q xs) \<or> occurs_before p q xs)"

definition count_ev :: "('a \<Rightarrow> bool) \<Rightarrow> 'a list \<Rightarrow> nat" where
  "count_ev p xs = length (filter p xs)"

lemma occurs_before_append [trace_simps]:
  "occurs_before p q (xs @ ys) =
     (occurs_before p q xs \<or> occurs_before p q ys \<or> (list_ex p xs \<and> list_ex q ys))"
  by (induction xs) auto

lemma count_ev_append [trace_simps]: "count_ev p (xs @ ys) = count_ev p xs + count_ev p ys"
  by (simp add: count_ev_def)

lemma count_ev_Nil [trace_simps]: "count_ev p [] = 0"
  by (simp add: count_ev_def)

lemma count_ev_Cons [trace_simps]: "count_ev p (x # xs) = (if p x then 1 else 0) + count_ev p xs"
  by (simp add: count_ev_def)

lemma count_ev_0_iff: "count_ev p xs = 0 \<longleftrightarrow> \<not> list_ex p xs"
  by (induction xs) (auto simp: trace_simps)

end
