(* ===== verification/PyText.thy ===== *)
theory PyText
  imports Prelude
begin

text \<open>
  Python text as the sources use it. A \<^verbatim>\<open>str\<close> is represented by its UTF-8 encoding (a HOL
  \<open>string\<close>, one \<open>char\<close> per byte), so \<^verbatim>\<open>bytes.decode()\<close> is the identity on valid UTF-8 and
  raises otherwise, and slicing counts code points. White space and letter case are the
  ASCII ones. Then come the string methods the sources call (\<^verbatim>\<open>strip\<close>, \<^verbatim>\<open>splitlines\<close>,
  \<^verbatim>\<open>split\<close>, \<^verbatim>\<open>lower\<close>, \<^verbatim>\<open>startswith\<close>, \<^verbatim>\<open>in\<close>, \<^verbatim>\<open>partition\<close>, \<^verbatim>\<open>join\<close>) and the decimal
  \<^verbatim>\<open>str(int)\<close> and \<^verbatim>\<open>int(str)\<close>, with the round trip between the last two.
\<close>

section \<open>Code points\<close>

definition byte :: "char \<Rightarrow> nat" where
  "byte c = of_char c"

definition in_range :: "nat \<Rightarrow> nat \<Rightarrow> char \<Rightarrow> bool" where
  "in_range lo hi c = (lo \<le> byte c \<and> byte c \<le> hi)"

abbreviation continuation :: "char \<Rightarrow> bool" where
  "continuation \<equiv> in_range 0x80 0xBF"

fun utf8_valid :: "string \<Rightarrow> bool" where
  "utf8_valid [] = True"
| "utf8_valid (a # r) =
     (if byte a < 0x80 then utf8_valid r
      else case r of
        [] \<Rightarrow> False
      | b # r2 \<Rightarrow>
          if in_range 0xC2 0xDF a then continuation b \<and> utf8_valid r2
          else case r2 of
            [] \<Rightarrow> False
          | c # r3 \<Rightarrow>
              if in_range 0xE0 0xEF a
              then (if byte a = 0xE0 then in_range 0xA0 0xBF b
                    else if byte a = 0xED then in_range 0x80 0x9F b else continuation b)
                   \<and> continuation c \<and> utf8_valid r3
              else case r3 of
                [] \<Rightarrow> False
              | d # r4 \<Rightarrow>
                  in_range 0xF0 0xF4 a
                  \<and> (if byte a = 0xF0 then in_range 0x90 0xBF b
                     else if byte a = 0xF4 then in_range 0x80 0x8F b else continuation b)
                  \<and> continuation c \<and> continuation d \<and> utf8_valid r4)"

definition bytes_decode :: "string \<Rightarrow> exn + string" where
  "bytes_decode bs =
     (if utf8_valid bs then Inr bs else Inl (Exn UnicodeDecodeError ''invalid utf-8''))"

text \<open>\<open>code_points s\<close> is \<^verbatim>\<open>len(s)\<close>; \<open>str_take n s\<close> is the slice \<^verbatim>\<open>s[:n]\<close>.\<close>

definition code_points :: "string \<Rightarrow> nat" where
  "code_points s = length (filter (\<lambda>c. \<not> continuation c) s)"

fun str_take :: "nat \<Rightarrow> string \<Rightarrow> string" where
  "str_take n [] = []"
| "str_take n (c # s) =
     (if continuation c then c # str_take n s
      else case n of 0 \<Rightarrow> [] | Suc m \<Rightarrow> c # str_take m s)"

lemma code_points_str_take: "code_points (str_take n s) \<le> n"
  by (induction n s rule: str_take.induct) (auto simp: code_points_def split: nat.splits)

lemma str_take_prefix: "prefix (str_take n s) s"
  by (induction n s rule: str_take.induct) (auto split: nat.splits)

lemma str_take_all: "code_points s \<le> n \<Longrightarrow> str_take n s = s"
  by (induction n s rule: str_take.induct) (auto simp: code_points_def split: nat.splits if_splits)


section \<open>White space, lines and words\<close>

definition is_space :: "char \<Rightarrow> bool" where
  "is_space c = (in_range 9 13 c \<or> in_range 28 32 c)"

definition lstrip :: "string \<Rightarrow> string" where
  "lstrip s = dropWhile is_space s"

definition rstrip :: "string \<Rightarrow> string" where
  "rstrip s = rev (dropWhile is_space (rev s))"

definition strip :: "string \<Rightarrow> string" where
  "strip s = lstrip (rstrip s)"

definition newline :: string where
  "newline = [char_of (10::nat)]"

text \<open>Line boundaries of \<^verbatim>\<open>str.splitlines\<close> in ASCII: LF, VT, FF, CR, CR LF, FS, GS, RS.\<close>

definition is_line_end :: "char \<Rightarrow> bool" where
  "is_line_end c = (in_range 10 13 c \<or> in_range 28 30 c)"

fun splitlines_acc :: "bool \<Rightarrow> string \<Rightarrow> string \<Rightarrow> string list" where
  "splitlines_acc after_cr acc [] = (if acc = [] then [] else [rev acc])"
| "splitlines_acc after_cr acc (c # s) =
     (if after_cr \<and> byte c = 10 then splitlines_acc False acc s
      else if is_line_end c then rev acc # splitlines_acc (byte c = 13) [] s
      else splitlines_acc False (c # acc) s)"

definition splitlines :: "string \<Rightarrow> string list" where
  "splitlines s = splitlines_acc False [] s"

fun words_acc :: "string \<Rightarrow> string \<Rightarrow> string list" where
  "words_acc acc [] = (if acc = [] then [] else [rev acc])"
| "words_acc acc (c # s) =
     (if is_space c then (if acc = [] then words_acc [] s else rev acc # words_acc [] s)
      else words_acc (c # acc) s)"

text \<open>\<open>words s\<close> is \<^verbatim>\<open>s.split()\<close>, \<open>split_on c s\<close> is \<^verbatim>\<open>s.split(c)\<close>.\<close>

definition words :: "string \<Rightarrow> string list" where
  "words s = words_acc [] s"

fun split_on :: "char \<Rightarrow> string \<Rightarrow> string list" where
  "split_on d [] = [[]]"
| "split_on d (c # s) =
     (if c = d then [] # split_on d s
      else case split_on d s of [] \<Rightarrow> [[c]] | w # ws \<Rightarrow> (c # w) # ws)"

definition join :: "string \<Rightarrow> string list \<Rightarrow> string" where
  "join sep ws = (case ws of [] \<Rightarrow> [] | w # ws' \<Rightarrow> w @ concat (map (\<lambda>x. sep @ x) ws'))"

definition to_lower :: "char \<Rightarrow> char" where
  "to_lower c = (if in_range 65 90 c then char_of (byte c + 32) else c)"

definition lower :: "string \<Rightarrow> string" where
  "lower s = map to_lower s"

definition startswith :: "string \<Rightarrow> string \<Rightarrow> bool" where
  "startswith s p = (take (length p) s = p)"

text \<open>\<open>contains s p\<close> is \<^verbatim>\<open>p in s\<close>.\<close>

fun contains :: "string \<Rightarrow> string \<Rightarrow> bool" where
  "contains [] p = (p = [])"
| "contains (c # s) p = (startswith (c # s) p \<or> contains s p)"

lemma startswith_iff: "startswith s p \<longleftrightarrow> prefix p s"
  by (metis append_eq_conv_conj append_take_drop_id prefix_def startswith_def)

lemma contains_iff: "contains s p \<longleftrightarrow> sublist p s"
  by (induction s) (auto simp: startswith_iff sublist_Cons_right)

lemma contains_append: "contains s p \<Longrightarrow> contains (a @ s @ b) p"
  by (simp add: contains_iff sublist_appendI sublist_append)

lemma words_acc_hd:
  "acc \<noteq> [] \<Longrightarrow> list_all (\<lambda>c. \<not> is_space c) acc \<Longrightarrow>
   \<exists>w ws. words_acc acc s = w # ws \<and> prefix (rev acc) w"
proof (induction s arbitrary: acc)
  case (Cons c s)
  show ?case
  proof (cases "is_space c")
    case False
    have "\<exists>w ws. words_acc (c # acc) s = w # ws \<and> prefix (rev (c # acc)) w"
      using Cons.prems False by (intro Cons.IH) auto
    then show ?thesis using False by (auto dest: append_prefixD)
  qed (use Cons.prems in auto)
qed simp

lemma rstrip_Nil_iff: "rstrip s = [] \<longleftrightarrow> list_all is_space s"
  by (simp add: rstrip_def dropWhile_eq_Nil_conv list_all_iff)

lemma rstrip_last: "rstrip s \<noteq> [] \<Longrightarrow> \<not> is_space (last (rstrip s))"
  by (simp add: rstrip_def last_rev hd_dropWhile)

lemma strip_Nil_iff: "strip s = [] \<longleftrightarrow> list_all is_space s"
proof
  assume "strip s = []"
  then have "\<forall>x \<in> set (rstrip s). is_space x"
    by (simp add: strip_def lstrip_def dropWhile_eq_Nil_conv)
  then have "rstrip s = []" using rstrip_last [of s] last_in_set by blast
  then show "list_all is_space s" by (simp add: rstrip_Nil_iff)
next
  assume "list_all is_space s"
  then show "strip s = []" by (simp add: strip_def lstrip_def flip: rstrip_Nil_iff)
qed

text \<open>Text that neither starts nor ends with a blank is kept, and a final line end is removed.\<close>

lemma strip_plain: "l \<noteq> [] \<Longrightarrow> \<not> is_space (hd l) \<Longrightarrow> \<not> is_space (last l) \<Longrightarrow> strip l = l"
proof -
  assume l: "l \<noteq> []" "\<not> is_space (hd l)" "\<not> is_space (last l)"
  have d: "dropWhile is_space k = k" if "k \<noteq> []" "\<not> is_space (hd k)" for k
    using that by (cases k) auto
  show ?thesis using l d [of l] d [of "rev l"] by (simp add: strip_def rstrip_def lstrip_def hd_rev)
qed

lemma strip_newline:
  "l \<noteq> [] \<Longrightarrow> \<not> is_space (hd l) \<Longrightarrow> \<not> is_space (last l) \<Longrightarrow> strip (l @ newline) = l"
proof -
  assume l: "l \<noteq> []" "\<not> is_space (hd l)" "\<not> is_space (last l)"
  have "is_space (char_of (10::nat))" by code_simp
  then have "rstrip (l @ newline) = rstrip l" by (simp add: rstrip_def newline_def)
  then show ?thesis using strip_plain [OF l] by (simp add: strip_def)
qed

text \<open>A line with a non-blank character has a first word.\<close>

lemma words_nonempty: "strip s \<noteq> [] \<Longrightarrow> words s \<noteq> []"
proof (induction s)
  case (Cons c s)
  show ?case
  proof (cases "is_space c")
    case True
    with Cons show ?thesis by (simp add: words_def strip_Nil_iff)
  next
    case False
    then show ?thesis using words_acc_hd [of "[c]" s] by (auto simp: words_def)
  qed
qed (simp add: strip_Nil_iff)


section \<open>Decimal integers\<close>

definition digit_char :: "nat \<Rightarrow> char" where
  "digit_char d = char_of (48 + d)"

definition is_digit :: "char \<Rightarrow> bool" where
  "is_digit c = in_range 48 57 c"

definition digit_val :: "char \<Rightarrow> nat" where
  "digit_val c = byte c - 48"

fun show_nat :: "nat \<Rightarrow> string" where
  "show_nat n = (if n < 10 then [digit_char n] else show_nat (n div 10) @ [digit_char (n mod 10)])"

declare show_nat.simps [simp del]

definition show_int :: "int \<Rightarrow> string" where
  "show_int i = (if i < 0 then CHR ''-'' # show_nat (nat (- i)) else show_nat (nat i))"

fun read_digits :: "nat \<Rightarrow> string \<Rightarrow> nat option" where
  "read_digits n [] = Some n"
| "read_digits n (c # s) =
     (if is_digit c then read_digits (10 * n + digit_val c) s
      else if c = CHR ''_''
        then (case s of d # _ \<Rightarrow> if is_digit d then read_digits n s else None | [] \<Rightarrow> None)
      else None)"

definition read_nat :: "string \<Rightarrow> nat option" where
  "read_nat s = (case s of [] \<Rightarrow> None | c # _ \<Rightarrow> if is_digit c then read_digits 0 s else None)"

text \<open>\<open>read_int s\<close> is \<^verbatim>\<open>int(s)\<close>: surrounding blanks, a sign, digits with single underscores.\<close>

definition read_int :: "string \<Rightarrow> int option" where
  "read_int s =
     (case strip s of
        [] \<Rightarrow> None
      | c # t \<Rightarrow>
          if c = CHR ''-'' then map_option (\<lambda>n. - int n) (read_nat t)
          else if c = CHR ''+'' then map_option int (read_nat t)
          else map_option int (read_nat (c # t)))"

text \<open>
  \<open>py_repr s\<close> is \<^verbatim>\<open>repr(s)\<close>: single quotes unless the text has a single quote and no double
  one; control characters, the backslash and the quote in use are escaped. (Non-ASCII text is
  kept, as Python does for printable characters.)
\<close>

definition hex_char :: "nat \<Rightarrow> char" where
  "hex_char d = (if d < 10 then digit_char d else char_of (87 + d))"

definition repr_char :: "char \<Rightarrow> char \<Rightarrow> string" where
  "repr_char q c =
     (if c = q \<or> c = CHR 0x5C then [CHR 0x5C, c]
      else if byte c = 10 then [CHR 0x5C, CHR ''n'']
      else if byte c = 13 then [CHR 0x5C, CHR ''r'']
      else if byte c = 9 then [CHR 0x5C, CHR ''t'']
      else if byte c < 32 \<or> byte c = 127
        then [CHR 0x5C, CHR ''x'', hex_char (byte c div 16), hex_char (byte c mod 16)]
      else [c])"

definition py_repr :: "string \<Rightarrow> string" where
  "py_repr s =
     (let q = (if CHR 0x27 \<in> set s \<and> CHR 0x22 \<notin> set s then CHR 0x22 else CHR 0x27)
      in [q] @ concat (map (repr_char q) s) @ [q])"

lemma byte_digit_char: "d < 10 \<Longrightarrow> byte (digit_char d) = 48 + d"
  by (simp add: byte_def digit_char_def)

lemma is_digit_digit_char [simp]: "d < 10 \<Longrightarrow> is_digit (digit_char d)"
  by (simp add: is_digit_def in_range_def byte_digit_char)

lemma digit_val_digit_char [simp]: "d < 10 \<Longrightarrow> digit_val (digit_char d) = d"
  by (simp add: digit_val_def byte_digit_char)

lemma show_nat_digits: "list_all is_digit (show_nat n)"
proof (induction n rule: show_nat.induct)
  case (1 n)
  then show ?case by (cases "n < 10") (simp_all add: show_nat.simps [of n])
qed

lemma show_nat_nonempty [simp]: "show_nat n \<noteq> []"
  by (simp add: show_nat.simps [of n])

lemma read_digits_append:
  "list_all is_digit xs \<Longrightarrow> read_digits n (xs @ ys) =
     (case read_digits n xs of None \<Rightarrow> None | Some m \<Rightarrow> read_digits m ys)"
  by (induction xs arbitrary: n) auto

lemma read_digits_show_nat: "read_digits 0 (show_nat n) = Some n"
proof (induction n rule: show_nat.induct)
  case (1 n)
  show ?case
  proof (cases "n < 10")
    case False
    with 1 have "read_digits 0 (show_nat (n div 10)) = Some (n div 10)" by simp
    with False show ?thesis
      by (simp add: show_nat.simps [of n] read_digits_append show_nat_digits)
  qed (simp add: show_nat.simps [of n])
qed

lemma read_nat_show_nat [simp]: "read_nat (show_nat n) = Some n"
proof -
  obtain c t where s: "show_nat n = c # t" by (cases "show_nat n") auto
  with show_nat_digits [of n] have "is_digit c" by simp
  with s read_digits_show_nat [of n] show ?thesis by (simp add: read_nat_def)
qed

lemma is_digit_not_space: "is_digit c \<Longrightarrow> \<not> is_space c"
  by (simp add: is_digit_def is_space_def in_range_def)

lemma dropWhile_space_id: "list_all (\<lambda>c. \<not> is_space c) s \<Longrightarrow> dropWhile is_space s = s"
  by (cases s) simp_all

lemma strip_no_space: "list_all (\<lambda>c. \<not> is_space c) s \<Longrightarrow> strip s = s"
  by (simp add: strip_def rstrip_def lstrip_def dropWhile_space_id)

lemma show_int_no_space: "list_all (\<lambda>c. \<not> is_space c) (show_int i)"
proof -
  have "list_all (\<lambda>c. \<not> is_space c) (show_nat n)" for n
    using show_nat_digits [of n] by (auto simp: list_all_iff is_digit_not_space)
  then show ?thesis by (simp add: show_int_def is_space_def in_range_def byte_def)
qed

lemma read_int_show_int [simp]: "read_int (show_int i) = Some i"
proof -
  have s: "strip (show_int i) = show_int i"
    by (rule strip_no_space) (rule show_int_no_space)
  show ?thesis
  proof (cases "i < 0")
    case True
    then show ?thesis using s by (simp add: read_int_def show_int_def)
  next
    case False
    obtain c t where sn: "show_nat (nat i) = c # t" by (cases "show_nat (nat i)") auto
    with show_nat_digits [of "nat i"] have "is_digit c" by simp
    then have "c \<noteq> CHR ''-''" "c \<noteq> CHR ''+''"
      by (auto simp: is_digit_def in_range_def byte_def)
    with False sn s read_nat_show_nat [of "nat i"] show ?thesis
      by (simp add: read_int_def show_int_def)
  qed
qed


section \<open>Dictionaries\<close>

text \<open>
  A \<^verbatim>\<open>dict\<close> is an association list with distinct keys in insertion order; assignment to a
  key that is present keeps its place. \<open>map_of\<close> is lookup.
\<close>

fun dict_set :: "('k \<times> 'v) list \<Rightarrow> 'k \<Rightarrow> 'v \<Rightarrow> ('k \<times> 'v) list" where
  "dict_set [] k v = [(k, v)]"
| "dict_set ((k', v') # d) k v = (if k' = k then (k, v) # d else (k', v') # dict_set d k v)"

text \<open>\<open>dict_merge a b\<close> is \<^verbatim>\<open>{**a, **b}\<close>.\<close>

definition dict_merge :: "('k \<times> 'v) list \<Rightarrow> ('k \<times> 'v) list \<Rightarrow> ('k \<times> 'v) list" where
  "dict_merge a b = foldl (\<lambda>d (k, v). dict_set d k v) a b"

lemma map_of_dict_set [simp]: "map_of (dict_set d k v) = (map_of d)(k \<mapsto> v)"
  by (induction d k v rule: dict_set.induct) auto

lemma dict_set_keys: "fst ` set (dict_set d k v) = insert k (fst ` set d)"
  by (induction d k v rule: dict_set.induct) auto

lemma dict_set_distinct: "distinct (map fst d) \<Longrightarrow> distinct (map fst (dict_set d k v))"
  by (induction d k v rule: dict_set.induct) (auto simp: dict_set_keys)

lemma map_of_dict_merge:
  "distinct (map fst b) \<Longrightarrow> map_of (dict_merge a b) = map_of a ++ map_of b"
proof (induction b arbitrary: a)
  case (Cons p b)
  obtain k v where p: "p = (k, v)" by force
  have "map_of (dict_merge a (p # b)) = map_of (dict_merge (dict_set a k v) b)"
    by (simp add: dict_merge_def p)
  also have "\<dots> = (map_of a)(k \<mapsto> v) ++ map_of b"
    using Cons by simp
  also have "\<dots> = map_of a ++ map_of (p # b)"
    using Cons.prems by (simp add: p map_add_upd_left dom_map_of_conv_image_fst)
  finally show ?case .
qed (simp add: dict_merge_def)

end
