(* ===== verification/IR.thy ===== *)
theory IR
  imports PyText Complex_Main
begin

text \<open>
  The native-gate intermediate representation of \<open>server/ir.py\<close>: the gate enumeration, the
  tables \<open>GATE_SPECS\<close> and \<open>LEGAL_GATES\<close>, the models \<open>GateOp\<close>, \<open>IRMetadata\<close> and
  \<open>NativeGateIR\<close>, and their validators. A validator returns \<open>Inl\<close> of the error it raises.
  The declarative predicate \<open>well_formed_ir\<close> says what an accepted circuit is; the
  validators are proved to accept exactly the circuits that satisfy it, and to report the
  first violation. Floats are exact rationals (finite values only).
\<close>

type_synonym pyfloat = rat

section \<open>Gates and their tables\<close>

datatype native_gate =
    RX | RY | RZ | CZ | ISWAP | CP | ID | X90 | Y_MINUS_90 | VIRTUAL_Z | CNOT

fun gate_value :: "native_gate \<Rightarrow> string" where
  "gate_value RX = ''rx''"
| "gate_value RY = ''ry''"
| "gate_value RZ = ''rz''"
| "gate_value CZ = ''cz''"
| "gate_value ISWAP = ''iswap''"
| "gate_value CP = ''cp''"
| "gate_value ID = ''id''"
| "gate_value X90 = ''x90''"
| "gate_value Y_MINUS_90 = ''y_minus_90''"
| "gate_value VIRTUAL_Z = ''virtual_z''"
| "gate_value CNOT = ''cnot''"

definition all_gates :: "native_gate list" where
  "all_gates = [RX, RY, RZ, CZ, ISWAP, CP, ID, X90, Y_MINUS_90, VIRTUAL_Z, CNOT]"

text \<open>\<^verbatim>\<open>NativeGate(value)\<close>: the member with that value.\<close>

definition native_gate_of :: "string \<Rightarrow> native_gate option" where
  "native_gate_of s = find (\<lambda>g. gate_value g = s) all_gates"

record gate_spec =
  spec_qubits :: nat
  spec_params :: nat

definition GATE_SPECS :: "(string \<times> gate_spec) list" where
  "GATE_SPECS =
    [(''rx'', \<lparr>spec_qubits = 1, spec_params = 1\<rparr>),
     (''ry'', \<lparr>spec_qubits = 1, spec_params = 1\<rparr>),
     (''rz'', \<lparr>spec_qubits = 1, spec_params = 1\<rparr>),
     (''cz'', \<lparr>spec_qubits = 2, spec_params = 0\<rparr>),
     (''iswap'', \<lparr>spec_qubits = 2, spec_params = 0\<rparr>),
     (''cp'', \<lparr>spec_qubits = 2, spec_params = 1\<rparr>),
     (''id'', \<lparr>spec_qubits = 1, spec_params = 1\<rparr>),
     (''x90'', \<lparr>spec_qubits = 1, spec_params = 0\<rparr>),
     (''y_minus_90'', \<lparr>spec_qubits = 1, spec_params = 0\<rparr>),
     (''virtual_z'', \<lparr>spec_qubits = 1, spec_params = 1\<rparr>),
     (''cnot'', \<lparr>spec_qubits = 2, spec_params = 0\<rparr>)]"

definition LEGAL_GATES :: "(string \<times> string list) list" where
  "LEGAL_GATES =
    [(''cz'', [''rx'', ''ry'', ''rz'', ''cz'', ''id'']),
     (''iswap'', [''rx'', ''ry'', ''rz'', ''iswap'', ''id'']),
     (''pcz'', [''rx'', ''ry'', ''rz'', ''cp'', ''id'']),
     (''cnot'', [''rx'', ''ry'', ''rz'', ''x90'', ''y_minus_90'', ''virtual_z'', ''cnot'', ''id''])]"

text \<open>A gate's row of \<open>GATE_SPECS\<close>; \<open>spec_of_total\<close> below shows every gate has one.\<close>

definition spec_of :: "native_gate \<Rightarrow> gate_spec option" where
  "spec_of g = map_of GATE_SPECS (gate_value g)"


section \<open>Models and validators\<close>

record gate_op =
  op_gate :: native_gate
  op_qubits :: "int list"
  op_params :: "pyfloat list"

record ir_metadata =
  source_hash :: string
  compiled_at :: string
  compiler_version :: string
  optimization_level :: int

record native_gate_ir =
  ir_version :: string
  ir_target :: string
  ir_num_qubits :: int
  ir_gates :: "gate_op list"
  ir_measurements :: "int list"
  ir_metadata :: ir_metadata

datatype ir_error =
    Bad_Version string
  | Unknown_Target string
  | Num_Qubits_Out_Of_Bounds int
  | Gate_Qubit_Count string nat nat
  | Gate_Param_Count string nat nat
  | Optimization_Level_Out_Of_Bounds int
  | Illegal_Gate string string nat
  | Gate_Qubit_Out_Of_Range int int nat
  | Measurement_Out_Of_Range int int

text \<open>The texts of the \<^verbatim>\<open>ValueError\<close>s that the validators raise.\<close>

fun ir_error_text :: "ir_error \<Rightarrow> string" where
  "ir_error_text (Bad_Version v) = ''Input should be '' @ [CHR 0x27] @ ''1.0'' @ [CHR 0x27]"
| "ir_error_text (Unknown_Target t) =
     ''Unknown target '' @ [CHR 0x27] @ t @ [CHR 0x27] @ ''. Valid: ['' @
     join '', '' (map (\<lambda>p. [CHR 0x27] @ fst p @ [CHR 0x27]) LEGAL_GATES) @ '']''"
| "ir_error_text (Num_Qubits_Out_Of_Bounds n) =
     (if n < 1 then ''Input should be greater than or equal to 1''
      else ''Input should be less than or equal to 50'')"
| "ir_error_text (Gate_Qubit_Count g e k) =
     ''Gate '' @ g @ '' requires '' @ show_nat e @ '' qubit(s), got '' @ show_nat k"
| "ir_error_text (Gate_Param_Count g e k) =
     ''Gate '' @ g @ '' requires '' @ show_nat e @ '' param(s), got '' @ show_nat k"
| "ir_error_text (Optimization_Level_Out_Of_Bounds n) =
     (if n < 0 then ''Input should be greater than or equal to 0''
      else ''Input should be less than or equal to 3'')"
| "ir_error_text (Illegal_Gate g t i) =
     ''Gate '' @ [CHR 0x27] @ g @ [CHR 0x27] @ '' not legal for target '' @ [CHR 0x27] @ t @
     [CHR 0x27] @ '' at index '' @ show_nat i"
| "ir_error_text (Gate_Qubit_Out_Of_Range q n i) =
     ''Qubit '' @ show_int q @ '' out of range [0, '' @ show_int n @ '') at gate index '' @ show_nat i"
| "ir_error_text (Measurement_Out_Of_Range q n) =
     ''Measurement qubit '' @ show_int q @ '' out of range [0, '' @ show_int n @ '')''"

definition validate_gate_shape :: "gate_op \<Rightarrow> ir_error + gate_op" where
  "validate_gate_shape op =
     (let gate = gate_value (op_gate op) in
      case map_of GATE_SPECS gate of
        None \<Rightarrow> Inr op
      | Some spec \<Rightarrow>
          if length (op_qubits op) \<noteq> spec_qubits spec
          then Inl (Gate_Qubit_Count gate (spec_qubits spec) (length (op_qubits op)))
          else if length (op_params op) \<noteq> spec_params spec
          then Inl (Gate_Param_Count gate (spec_params spec) (length (op_params op)))
          else Inr op)"

definition validate_metadata :: "ir_metadata \<Rightarrow> ir_error + ir_metadata" where
  "validate_metadata md =
     (if 0 \<le> optimization_level md \<and> optimization_level md \<le> 3 then Inr md
      else Inl (Optimization_Level_Out_Of_Bounds (optimization_level md)))"

definition validate_target :: "string \<Rightarrow> ir_error + string" where
  "validate_target t = (if map_of LEGAL_GATES t = None then Inl (Unknown_Target t) else Inr t)"

text \<open>The two nested loops and the measurement loop of \<open>validate_consistency\<close>.\<close>

fun check_qubits :: "int \<Rightarrow> nat \<Rightarrow> int list \<Rightarrow> ir_error option" where
  "check_qubits n i [] = None"
| "check_qubits n i (q # qs) =
     (if q < 0 \<or> n \<le> q then Some (Gate_Qubit_Out_Of_Range q n i) else check_qubits n i qs)"

fun check_gates :: "string \<Rightarrow> string list \<Rightarrow> int \<Rightarrow> nat \<Rightarrow> gate_op list \<Rightarrow> ir_error option" where
  "check_gates t legal n i [] = None"
| "check_gates t legal n i (op # ops) =
     (if gate_value (op_gate op) \<notin> set legal
      then Some (Illegal_Gate (gate_value (op_gate op)) t i)
      else case check_qubits n i (op_qubits op) of
          Some e \<Rightarrow> Some e
        | None \<Rightarrow> check_gates t legal n (Suc i) ops)"

fun check_measurements :: "int \<Rightarrow> int list \<Rightarrow> ir_error option" where
  "check_measurements n [] = None"
| "check_measurements n (q # qs) =
     (if q < 0 \<or> n \<le> q then Some (Measurement_Out_Of_Range q n) else check_measurements n qs)"

definition validate_consistency :: "native_gate_ir \<Rightarrow> ir_error + native_gate_ir" where
  "validate_consistency ir =
     (case map_of LEGAL_GATES (ir_target ir) of
        None \<Rightarrow> Inl (Unknown_Target (ir_target ir))
      | Some legal \<Rightarrow>
          (case check_gates (ir_target ir) legal (ir_num_qubits ir) 0 (ir_gates ir) of
             Some e \<Rightarrow> Inl e
           | None \<Rightarrow>
               (case check_measurements (ir_num_qubits ir) (ir_measurements ir) of
                  Some e \<Rightarrow> Inl e
                | None \<Rightarrow> Inr ir)))"

fun validate_ops :: "gate_op list \<Rightarrow> ir_error option" where
  "validate_ops [] = None"
| "validate_ops (op # ops) =
     (case validate_gate_shape op of Inl e \<Rightarrow> Some e | Inr _ \<Rightarrow> validate_ops ops)"

text \<open>
  Constructing a \<open>NativeGateIR\<close>: the fields in declaration order (the literal \<open>version\<close>,
  the target validator, the bounds of \<open>num_qubits\<close>, the shape of every gate, the bounds in
  the metadata), then the model validator, which runs only when every field is valid.
\<close>

definition make_ir :: "native_gate_ir \<Rightarrow> ir_error + native_gate_ir" where
  "make_ir ir =
     (if ir_version ir \<noteq> ''1.0'' then Inl (Bad_Version (ir_version ir))
      else case validate_target (ir_target ir) of
        Inl e \<Rightarrow> Inl e
      | Inr _ \<Rightarrow>
          if ir_num_qubits ir < 1 \<or> 50 < ir_num_qubits ir
          then Inl (Num_Qubits_Out_Of_Bounds (ir_num_qubits ir))
          else case validate_ops (ir_gates ir) of
            Some e \<Rightarrow> Inl e
          | None \<Rightarrow>
              (case validate_metadata (ir_metadata ir) of
                 Inl e \<Rightarrow> Inl e
               | Inr _ \<Rightarrow> validate_consistency ir))"

text \<open>
  \<open>from_json\<close>: JSON decoding and type coercion belong to pydantic, so they are the
  parameter \<open>decode\<close>; the validators of the class run on what it delivers.
\<close>

definition from_json ::
    "(string \<Rightarrow> exn + native_gate_ir) \<Rightarrow> string \<Rightarrow> exn + native_gate_ir" where
  "from_json decode json =
     (case decode json of
        Inl e \<Rightarrow> Inl e
      | Inr cand \<Rightarrow>
          (case make_ir cand of
             Inl e \<Rightarrow> Inl (Exn ValidationError (ir_error_text e))
           | Inr ir \<Rightarrow> Inr ir))"


section \<open>What an accepted circuit is\<close>

definition in_register :: "int \<Rightarrow> int \<Rightarrow> bool" where
  "in_register n q = (0 \<le> q \<and> q < n)"

definition well_shaped :: "gate_op \<Rightarrow> bool" where
  "well_shaped op =
     (\<exists>spec. spec_of (op_gate op) = Some spec \<and>
        length (op_qubits op) = spec_qubits spec \<and> length (op_params op) = spec_params spec)"

definition legal_for :: "string \<Rightarrow> native_gate \<Rightarrow> bool" where
  "legal_for t g = (\<exists>legal. map_of LEGAL_GATES t = Some legal \<and> gate_value g \<in> set legal)"

definition well_formed_ir :: "native_gate_ir \<Rightarrow> bool" where
  "well_formed_ir ir =
     (ir_version ir = ''1.0''
      \<and> ir_target ir \<in> fst ` set LEGAL_GATES
      \<and> 1 \<le> ir_num_qubits ir \<and> ir_num_qubits ir \<le> 50
      \<and> 0 \<le> optimization_level (ir_metadata ir) \<and> optimization_level (ir_metadata ir) \<le> 3
      \<and> (\<forall>op \<in> set (ir_gates ir).
           well_shaped op \<and> legal_for (ir_target ir) (op_gate op)
           \<and> list_all (in_register (ir_num_qubits ir)) (op_qubits op))
      \<and> list_all (in_register (ir_num_qubits ir)) (ir_measurements ir))"


section \<open>Lemmas\<close>

lemma native_gate_of_value [simp]: "native_gate_of (gate_value g) = Some g"
  by (cases g) (simp_all add: native_gate_of_def all_gates_def)

lemma native_gate_of_Some: "native_gate_of s = Some g \<Longrightarrow> gate_value g = s"
  by (auto simp: native_gate_of_def find_Some_iff)

lemma gate_value_inject [simp]: "gate_value g = gate_value h \<longleftrightarrow> g = h"
  by (metis native_gate_of_value option.inject)

lemma spec_of_total: "\<exists>spec. spec_of g = Some spec"
  by (cases g) (simp_all add: spec_of_def GATE_SPECS_def)

lemma validate_gate_shape_iff:
  "validate_gate_shape op = Inr op' \<longleftrightarrow> op' = op \<and> well_shaped op"
proof -
  obtain spec where "spec_of (op_gate op) = Some spec" using spec_of_total by blast
  then show ?thesis by (auto simp: validate_gate_shape_def well_shaped_def spec_of_def Let_def)
qed

lemma validate_ops_None: "validate_ops ops = None \<longleftrightarrow> list_all well_shaped ops"
proof (induction ops)
  case (Cons op ops)
  then show ?case
    using validate_gate_shape_iff [of op]
    by (cases "validate_gate_shape op") auto
qed simp

lemma check_qubits_None: "check_qubits n i qs = None \<longleftrightarrow> list_all (in_register n) qs"
  by (induction qs) (auto simp: in_register_def)

lemma check_measurements_None:
  "check_measurements n qs = None \<longleftrightarrow> list_all (in_register n) qs"
  by (induction qs) (auto simp: in_register_def)

abbreviation gate_ok :: "string list \<Rightarrow> int \<Rightarrow> gate_op \<Rightarrow> bool" where
  "gate_ok legal n op \<equiv>
     gate_value (op_gate op) \<in> set legal \<and> list_all (in_register n) (op_qubits op)"

lemma check_gates_None:
  "check_gates t legal n i ops = None \<longleftrightarrow> list_all (gate_ok legal n) ops"
proof (induction ops arbitrary: i)
  case (Cons op ops)
  then show ?case using check_qubits_None [of n i "op_qubits op"]
    by (auto split: option.splits)
qed simp

lemma target_known_iff: "t \<in> fst ` set LEGAL_GATES \<longleftrightarrow> (\<exists>legal. map_of LEGAL_GATES t = Some legal)"
  by (metis map_of_eq_None_iff not_None_eq)

lemma validate_consistency_iff:
  assumes "map_of LEGAL_GATES (ir_target ir) = Some legal"
  shows "validate_consistency ir = Inr ir' \<longleftrightarrow>
    ir' = ir \<and> list_all (gate_ok legal (ir_num_qubits ir)) (ir_gates ir)
    \<and> list_all (in_register (ir_num_qubits ir)) (ir_measurements ir)"
  using assms check_gates_None [of "ir_target ir" legal "ir_num_qubits ir" 0 "ir_gates ir"]
    check_measurements_None [of "ir_num_qubits ir" "ir_measurements ir"]
  by (auto simp: validate_consistency_def split: option.splits)

lemma make_ir_steps:
  "make_ir ir = Inr ir' \<longleftrightarrow>
     ir_version ir = ''1.0'' \<and> (\<exists>legal. map_of LEGAL_GATES (ir_target ir) = Some legal)
     \<and> 1 \<le> ir_num_qubits ir \<and> ir_num_qubits ir \<le> 50
     \<and> 0 \<le> optimization_level (ir_metadata ir) \<and> optimization_level (ir_metadata ir) \<le> 3
     \<and> list_all well_shaped (ir_gates ir) \<and> validate_consistency ir = Inr ir'"
  using validate_ops_None [of "ir_gates ir"]
  by (auto simp: make_ir_def validate_target_def validate_metadata_def split: option.splits)

lemma make_ir_iff: "make_ir ir = Inr ir' \<longleftrightarrow> ir' = ir \<and> well_formed_ir ir"
proof (cases "map_of LEGAL_GATES (ir_target ir)")
  case None
  then show ?thesis by (auto simp: make_ir_steps well_formed_ir_def target_known_iff)
next
  case (Some legal)
  then show ?thesis
    using validate_consistency_iff [OF Some, of ir']
    by (auto simp: make_ir_steps well_formed_ir_def target_known_iff legal_for_def list_all_iff)
qed

lemma from_json_well_formed: "from_json decode json = Inr ir \<Longrightarrow> well_formed_ir ir"
  by (auto simp: from_json_def make_ir_iff split: sum.splits)

text \<open>The index a gate error names is that of the first offending gate.\<close>

fun error_index :: "ir_error \<Rightarrow> nat option" where
  "error_index (Illegal_Gate _ _ i) = Some i"
| "error_index (Gate_Qubit_Out_Of_Range _ _ i) = Some i"
| "error_index _ = None"

lemma check_qubits_index: "check_qubits n i qs = Some e \<Longrightarrow> error_index e = Some i"
  by (induction qs) (auto split: if_splits)

lemma check_gates_first:
  "check_gates t legal n i ops = Some e \<Longrightarrow>
   \<exists>k < length ops. error_index e = Some (i + k) \<and> \<not> gate_ok legal n (ops ! k)
     \<and> list_all (gate_ok legal n) (take k ops)"
proof (induction ops arbitrary: i)
  case (Cons op ops)
  show ?case
  proof (cases "gate_ok legal n op")
    case True
    then have "check_qubits n i (op_qubits op) = None" by (simp add: check_qubits_None)
    with True Cons.prems have "check_gates t legal n (Suc i) ops = Some e" by simp
    from Cons.IH [OF this] obtain k where
      "k < length ops" "error_index e = Some (Suc i + k)" "\<not> gate_ok legal n (ops ! k)"
      "list_all (gate_ok legal n) (take k ops)" by blast
    with True show ?thesis by (intro exI [of _ "Suc k"]) simp
  next
    case False
    then have "error_index e = Some i"
      using Cons.prems check_qubits_None [of n i "op_qubits op"]
      by (auto split: option.splits if_splits dest: check_qubits_index)
    with False show ?thesis by (intro exI [of _ 0]) simp
  qed
qed simp


section \<open>Properties\<close>

text \<open>
  C33: the validators of \<open>NativeGateIR\<close> accept exactly the well-formed circuits: version
  \<open>1.0\<close>, a known target, between 1 and 50 qubits, every gate legal for the target with the
  operand and parameter counts of \<open>GATE_SPECS\<close>, every gate and measurement qubit inside the
  register, and an optimisation level in 0..3. An accepted circuit is returned unchanged.
\<close>

theorem make_ir_accepts_iff_well_formed:
  "(make_ir ir = Inr ir' \<longleftrightarrow> ir' = ir \<and> well_formed_ir ir)
   \<and> ((\<exists>e. make_ir ir = Inl e) \<longleftrightarrow> \<not> well_formed_ir ir)"
proof -
  have "(\<exists>e. make_ir ir = Inl e) \<longleftrightarrow> \<not> (\<exists>r. make_ir ir = Inr r)"
    by (cases "make_ir ir") auto
  then show ?thesis by (auto simp: make_ir_iff)
qed

text \<open>
  When \<open>validate_consistency\<close> rejects a circuit because of a gate, the index in the
  error is that of the first offending gate: the gate there is illegal for the target or
  uses a qubit outside the register, and all gates before it are fine.
\<close>

theorem validate_consistency_reports_first_bad_gate:
  assumes "map_of LEGAL_GATES (ir_target ir) = Some legal"
    and "validate_consistency ir = Inl e" and "error_index e = Some k"
  shows "k < length (ir_gates ir) \<and> \<not> gate_ok legal (ir_num_qubits ir) (ir_gates ir ! k)
    \<and> list_all (gate_ok legal (ir_num_qubits ir)) (take k (ir_gates ir))"
proof -
  have m: "check_measurements n qs = Some e \<Longrightarrow> error_index e = None" for n qs
    by (induction qs) (auto split: if_splits)
  have "check_gates (ir_target ir) legal (ir_num_qubits ir) 0 (ir_gates ir) = Some e"
    using assms m by (auto simp: validate_consistency_def split: option.splits)
  from check_gates_first [OF this] assms(3) show ?thesis by auto
qed

definition sample_metadata :: ir_metadata where
  "sample_metadata = \<lparr>source_hash = ''abc123'', compiled_at = ''2026-01-01T00:00:00Z'',
     compiler_version = ''0.1.0'', optimization_level = 2\<rparr>"

definition sample_bad_ir :: native_gate_ir where
  "sample_bad_ir = \<lparr>ir_version = ''1.0'', ir_target = ''cz'', ir_num_qubits = 2,
     ir_gates = [\<lparr>op_gate = CZ, op_qubits = [0, 1], op_params = []\<rparr>,
                 \<lparr>op_gate = CNOT, op_qubits = [0, 1], op_params = []\<rparr>],
     ir_measurements = [0], ir_metadata = sample_metadata\<rparr>"

theorem validate_consistency_reports_first_bad_gate_witness:
  "validate_consistency sample_bad_ir = Inl (Illegal_Gate ''cnot'' ''cz'' 1)
   \<and> \<not> gate_ok [''rx'', ''ry'', ''rz'', ''cz'', ''id''] 2 (ir_gates sample_bad_ir ! 1)"
proof -
  have a: "map_of LEGAL_GATES (ir_target sample_bad_ir) = Some [''rx'', ''ry'', ''rz'', ''cz'', ''id'']"
    by (simp add: sample_bad_ir_def LEGAL_GATES_def)
  have b: "validate_consistency sample_bad_ir = Inl (Illegal_Gate ''cnot'' ''cz'' 1)"
    by (simp add: sample_bad_ir_def validate_consistency_def LEGAL_GATES_def)
  show ?thesis
    using validate_consistency_reports_first_bad_gate [OF a b, of 1] b
    by (simp add: sample_bad_ir_def)
qed

text \<open>
  The tables agree: every gate of the enumeration has a specification, every name that
  \<open>LEGAL_GATES\<close> lists is the value of exactly one gate, and any gate legal for some target
  that has the right shape acts on one or two qubits with at most one parameter.
\<close>

theorem gate_tables_consistent:
  "(\<forall>g. \<exists>spec. spec_of g = Some spec)
   \<and> (\<forall>row \<in> set LEGAL_GATES. \<forall>name \<in> set (snd row). \<exists>!g. gate_value g = name)
   \<and> (\<forall>op t. legal_for t (op_gate op) \<and> well_shaped op \<longrightarrow>
        length (op_qubits op) \<in> {1, 2} \<and> length (op_params op) \<le> 1)"
proof (intro conjI)
  show "\<forall>g. \<exists>spec. spec_of g = Some spec" using spec_of_total by blast
  have "native_gate_of name \<noteq> None" if "row \<in> set LEGAL_GATES" "name \<in> set (snd row)" for row name
    using that by (auto simp: LEGAL_GATES_def native_gate_of_def all_gates_def)
  then show "\<forall>row \<in> set LEGAL_GATES. \<forall>name \<in> set (snd row). \<exists>!g. gate_value g = name"
    by (metis gate_value_inject native_gate_of_Some not_None_eq)
  have "length (op_qubits op) \<in> {1, 2} \<and> length (op_params op) \<le> 1"
    if "well_shaped op" for op
    using that by (cases "op_gate op") (auto simp: well_shaped_def spec_of_def GATE_SPECS_def)
  then show "\<forall>op t. legal_for t (op_gate op) \<and> well_shaped op \<longrightarrow>
        length (op_qubits op) \<in> {1, 2} \<and> length (op_params op) \<le> 1" by blast
qed

theorem gate_tables_consistent_witness:
  "legal_for ''cz'' CZ \<and> (\<exists>!g. gate_value g = ''cz'')
   \<and> length (op_qubits \<lparr>op_gate = CZ, op_qubits = [0, 1], op_params = []\<rparr>) \<in> {1, 2}"
proof -
  have l: "legal_for ''cz'' CZ" by (simp add: legal_for_def LEGAL_GATES_def)
  have s: "well_shaped \<lparr>op_gate = CZ, op_qubits = [0, 1], op_params = []\<rparr>"
    by (simp add: well_shaped_def spec_of_def GATE_SPECS_def)
  have r: "(''cz'', [''rx'', ''ry'', ''rz'', ''cz'', ''id'']) \<in> set LEGAL_GATES"
    by (simp add: LEGAL_GATES_def)
  show ?thesis using gate_tables_consistent l s r by fastforce
qed

end
