(* ===== verification/Executor.thy ===== *)
theory Executor
  imports IR
begin

text \<open>
  \<open>server/executor.py\<close>: the result type, the executor contract and the fallback
  \<open>NoopExecutor\<close>. The contract is a locale: whatever runs circuits returns counts over
  bitstrings of the measured width that add up to the shots it reports.
\<close>

record execution_result =
  counts :: "(string \<times> int) list"
  execution_time_ms :: pyfloat
  shots_completed :: int

definition total_counts :: "execution_result \<Rightarrow> int" where
  "total_counts r = sum_list (map snd (counts r))"

locale job_executor =
  fixes run :: "native_gate_ir \<Rightarrow> int \<Rightarrow> execution_result"
  assumes run_width: "(b, k) \<in> set (counts (run ir shots)) \<Longrightarrow> length b = length (ir_measurements ir)"
    and run_total: "total_counts (run ir shots) = shots_completed (run ir shots)"
    and run_distinct: "distinct (map fst (counts (run ir shots)))"
begin

lemma count_le_total:
  assumes "(b, k) \<in> set (counts (run ir shots))" and "\<forall>p \<in> set (counts (run ir shots)). 0 \<le> snd p"
  shows "k \<le> shots_completed (run ir shots)"
proof -
  have "k \<in> set (map snd (counts (run ir shots)))" using assms(1) by force
  then have "k \<le> sum_list (map snd (counts (run ir shots)))"
    using assms(2) by (intro member_le_sum_list) auto
  then show ?thesis using run_total by (simp add: total_counts_def)
qed

end

definition noop_run :: "native_gate_ir \<Rightarrow> int \<Rightarrow> execution_result" where
  "noop_run ir shots =
     (let bitstring = replicate (length (ir_measurements ir)) (CHR ''0'') in
      \<lparr>counts = [(bitstring, shots)], execution_time_ms = 0, shots_completed = shots\<rparr>)"

interpretation noop: job_executor noop_run
  by unfold_locales (auto simp: noop_run_def total_counts_def Let_def)

end
