(* ===== verification/Auth.thy ===== *)
theory Auth
  imports PyText Complex_Main
begin

text \<open>
  \<open>server/auth.py\<close>: key pairs, and the JWTs that authenticate every request to the cloud. Signing and
  decoding themselves are PyJWT's; they are parameters here (\<open>encode\<close>, \<open>unverified_header\<close>,
  \<open>decode\<close>), and the model is what this module does around them: which claims and headers
  it signs, and in which order \<open>verify_token\<close> checks what it is given. Times are seconds.
\<close>

record jwt_claims =
  claim_sub :: string
  claim_iss :: string
  claim_iat :: rat
  claim_exp :: rat

type_synonym jwt_encode = "jwt_claims \<Rightarrow> string \<Rightarrow> string \<Rightarrow> string \<Rightarrow> exn + string"

definition DEFAULT_ISSUER :: string where
  "DEFAULT_ISSUER = ''coda''"

definition DEFAULT_TTL :: rat where
  "DEFAULT_TTL = 3600"

section \<open>Keys\<close>

text \<open>
  The RSA package is the parameter \<open>rsa\<close>: \<open>rsa_generate e bits\<close> makes a private key,
  \<open>rsa_private_pem\<close> and \<open>rsa_public_pem\<close> are its PEM texts (PKCS8 without encryption, and
  SubjectPublicKeyInfo of its public key).
\<close>

record key_pair =
  kp_private_key_pem :: string
  kp_public_key_pem :: string
  kp_key_id :: string

record 'k rsa =
  rsa_generate :: "int \<Rightarrow> int \<Rightarrow> exn + 'k"
  rsa_private_pem :: "'k \<Rightarrow> exn + string"
  rsa_public_pem :: "'k \<Rightarrow> exn + string"

definition KEY_SIZE :: int where
  "KEY_SIZE = 2048"

definition generate_keypair :: "'k rsa \<Rightarrow> string \<Rightarrow> exn + key_pair" where
  "generate_keypair rsa key_id =
     (case rsa_generate rsa 65537 KEY_SIZE of
        Inl e \<Rightarrow> Inl e
      | Inr private_key \<Rightarrow>
          (case rsa_private_pem rsa private_key of
             Inl e \<Rightarrow> Inl e
           | Inr private_pem \<Rightarrow>
               (case rsa_public_pem rsa private_key of
                  Inl e \<Rightarrow> Inl e
                | Inr public_pem \<Rightarrow>
                    Inr \<lparr>kp_private_key_pem = private_pem, kp_public_key_pem = public_pem,
                         kp_key_id = key_id\<rparr>)))"


section \<open>Tokens\<close>

text \<open>
  \<open>encode claims key algorithm kid\<close> is \<^verbatim>\<open>jwt.encode(payload, key, algorithm, headers={"kid": kid})\<close>.
\<close>

definition token_kid :: "string \<Rightarrow> string option \<Rightarrow> string" where
  "token_kid subject key_id =
     (case key_id of Some k \<Rightarrow> if k = [] then subject else k | None \<Rightarrow> subject)"

definition token_claims :: "rat \<Rightarrow> string \<Rightarrow> string \<Rightarrow> rat \<Rightarrow> jwt_claims" where
  "token_claims now subject issuer ttl =
     \<lparr>claim_sub = subject, claim_iss = issuer, claim_iat = now, claim_exp = now + ttl\<rparr>"

definition sign_token ::
    "jwt_encode \<Rightarrow> rat \<Rightarrow> string \<Rightarrow> string \<Rightarrow> string \<Rightarrow> rat \<Rightarrow> string option \<Rightarrow> exn + string" where
  "sign_token encode now subject private_key_pem issuer ttl key_id =
     encode (token_claims now subject issuer ttl) private_key_pem ''RS256'' (token_kid subject key_id)"

text \<open>
  \<open>unverified_header token\<close> is the \<^verbatim>\<open>kid\<close> entry of \<^verbatim>\<open>jwt.get_unverified_header(token)\<close>;
  \<open>decode token key algorithms issuer required\<close> is \<^verbatim>\<open>jwt.decode\<close> with these arguments.
\<close>

definition required_claims :: "string list" where
  "required_claims = [''sub'', ''iss'', ''exp'', ''iat'']"

definition verify_token_with_key ::
    "(string \<Rightarrow> string \<Rightarrow> string list \<Rightarrow> string \<Rightarrow> string list \<Rightarrow> exn + 'c)
     \<Rightarrow> string \<Rightarrow> string \<Rightarrow> string \<Rightarrow> exn + 'c" where
  "verify_token_with_key decode token public_key_pem issuer =
     decode token public_key_pem [''RS256''] issuer required_claims"

definition verify_token ::
    "(string \<Rightarrow> exn + string option)
     \<Rightarrow> (string \<Rightarrow> string \<Rightarrow> string list \<Rightarrow> string \<Rightarrow> string list \<Rightarrow> exn + 'c)
     \<Rightarrow> (string \<Rightarrow> string option) \<Rightarrow> string \<Rightarrow> string \<Rightarrow> exn + 'c" where
  "verify_token unverified_header decode get_public_key token issuer =
     (case unverified_header token of
        Inl e \<Rightarrow>
          if catches [DecodeError] e
          then Inl (Exn InvalidTokenError (''Malformed token header: '' @ exn_text e))
          else Inl e
      | Inr kid \<Rightarrow>
          (case kid of
             None \<Rightarrow> Inl (Exn InvalidTokenError (''Token missing '' @ [CHR 0x27] @ ''kid'' @ [CHR 0x27] @ '' header''))
           | Some k \<Rightarrow>
               if k = []
               then Inl (Exn InvalidTokenError (''Token missing '' @ [CHR 0x27] @ ''kid'' @ [CHR 0x27] @ '' header''))
               else (case get_public_key k of
                   None \<Rightarrow> Inl (Exn InvalidTokenError (''Unknown key_id: '' @ k))
                 | Some pk \<Rightarrow>
                     if pk = [] then Inl (Exn InvalidTokenError (''Unknown key_id: '' @ k))
                     else decode token pk [''RS256''] issuer required_claims)))"

lemma token_kid_nonempty: "subject \<noteq> [] \<Longrightarrow> token_kid subject key_id \<noteq> []"
  by (simp add: token_kid_def split: option.splits)


section \<open>Round trip\<close>

lemma generate_keypair_Inr:
  "generate_keypair rsa key_id = Inr kp \<Longrightarrow> \<exists>k. rsa_generate rsa 65537 KEY_SIZE = Inr k
     \<and> rsa_private_pem rsa k = Inr (kp_private_key_pem kp) \<and> rsa_public_pem rsa k = Inr (kp_public_key_pem kp)
     \<and> kp_key_id kp = key_id"
  by (auto simp: generate_keypair_def split: sum.splits)


definition demo_claims :: jwt_claims where
  "demo_claims = token_claims 0 ''qpu-1'' ''coda'' 3600"

definition demo_rsa :: "unit rsa" where
  "demo_rsa = \<lparr>rsa_generate = (\<lambda>_ _. Inr ()), rsa_private_pem = (\<lambda>_. Inr ''priv''), rsa_public_pem = (\<lambda>_. Inr ''pub'')\<rparr>"

definition demo_encode :: jwt_encode where
  "demo_encode c key alg kid =
     (if c = demo_claims \<and> key = ''priv'' then Inr kid else Inl (Exn PyJWTError ''unsupported''))"

definition demo_decode_token :: "string \<Rightarrow> string \<Rightarrow> string list \<Rightarrow> string \<Rightarrow> string list \<Rightarrow> exn + jwt_claims" where
  "demo_decode_token t key algs issuer required =
     (if key = ''pub'' \<and> issuer = claim_iss demo_claims then Inr demo_claims else Inl (Exn InvalidTokenError ''signature''))"


end
