(* ===== verification/Traces.thy ===== *)
theory Traces
  imports Prelude
begin

text \<open>
  Programs that talk to the outside world. A state extends the record \<open>io\<close>, whose \<open>trace\<close>
  lists the calls made so far with their replies; \<open>call\<close> is the only way to extend it.
  \<open>only_emits\<close> is the contract of a component that changes nothing else. The locale
  \<open>bounded_retry\<close> is the contract of a retry loop, and proves once what every client of such a
  loop relies on: a bound on the attempts and at most one success; \<open>stopping_retry\<close> extends it
  with answers that end the loop, after which nothing is sent.
\<close>

section \<open>The trace and the programs that extend it\<close>

record 'e io =
  trace :: "'e list"

definition emit :: "'e \<Rightarrow> ('e, 'a) io_scheme \<Rightarrow> ('e, 'a) io_scheme" where
  "emit ev s = s\<lparr>trace := trace s @ [ev]\<rparr>"

definition emits :: "'e list \<Rightarrow> ('e, 'a) io_scheme \<Rightarrow> ('e, 'a) io_scheme" where
  "emits evs s = s\<lparr>trace := trace s @ evs\<rparr>"

text \<open>\<open>call reply ev\<close>: ask the world, record the call with its reply, raise or return it.\<close>

definition call ::
    "('e list \<Rightarrow> exn + 'r) \<Rightarrow> (exn + 'r \<Rightarrow> 'e) \<Rightarrow> (('e, 'a) io_scheme, 'r) prog" where
  "call reply ev = (\<lambda>s. let r = reply (trace s) in
      (case r of Inl e \<Rightarrow> Raise e | Inr x \<Rightarrow> Ret x, emit (ev r) s))"

lemma trace_emit [simp]: "trace (emit ev s) = trace s @ [ev]"
  by (simp add: emit_def)

lemma trace_emits [simp]: "trace (emits evs s) = trace s @ evs"
  by (simp add: emits_def)

lemma emit_emits [simp]: "emit ev s = emits [ev] s"
  by (simp add: emit_def emits_def)

lemma emits_emits [simp]: "emits evs' (emits evs s) = emits (evs @ evs') s"
  by (simp add: emits_def)

lemma emits_Nil [simp]: "emits [] s = s"
  by (simp add: emits_def)

lemma emits_eq_iff [simp]: "emits evs s = emits evs' s \<longleftrightarrow> evs = evs'"
proof
  assume "emits evs s = emits evs' s"
  then have "trace (emits evs s) = trace (emits evs' s)" by simp
  then show "evs = evs'" by simp
qed simp

lemma wp_call [wp_rules]:
  "wp (call reply ev) Q s =
     (case reply (trace s) of
        Inl e \<Rightarrow> Q (Raise e) (emits [ev (Inl e)] s)
      | Inr x \<Rightarrow> Q (Ret x) (emits [ev (Inr x)] s))"
  by (simp add: call_def wp_def Let_def split: sum.splits)

text \<open>
  \<open>only_emits m \<Phi>\<close>: whatever the world answers, \<open>m\<close> changes nothing but the trace, to
  which it adds events that \<open>\<Phi>\<close> relates to its outcome.
\<close>

definition only_emits ::
    "(('e, 'a) io_scheme, 'r) prog \<Rightarrow> ('r outcome \<Rightarrow> 'e list \<Rightarrow> bool) \<Rightarrow> bool" where
  "only_emits m \<Phi> = (\<forall>s. wp m (\<lambda>r s'. \<exists>evs. s' = emits evs s \<and> \<Phi> r evs) s)"

lemma only_emitsD: "only_emits m \<Phi> \<Longrightarrow> m s = (r, s') \<Longrightarrow> \<exists>evs. s' = emits evs s \<and> \<Phi> r evs"
  unfolding only_emits_def using wp_run by fastforce

lemma only_emits_wp:
  assumes "only_emits m \<Phi>" and "\<And>r evs. \<Phi> r evs \<Longrightarrow> Q r (emits evs s)"
  shows "wp m Q s"
  using assms unfolding only_emits_def by (blast intro: wp_mono)

lemma only_emits_mono:
  assumes "only_emits m \<Phi>" and "\<And>r evs. \<Phi> r evs \<Longrightarrow> \<Psi> r evs"
  shows "only_emits m \<Psi>"
  unfolding only_emits_def
  by (intro allI only_emits_wp [OF assms(1)]) (use assms(2) in blast)

lemma only_emits_conj:
  assumes "only_emits m \<Phi>" and "only_emits m \<Psi>"
  shows "only_emits m (\<lambda>r evs. \<Phi> r evs \<and> \<Psi> r evs)"
  unfolding only_emits_def
proof
  fix s
  show "wp m (\<lambda>r s'. \<exists>evs. s' = emits evs s \<and> \<Phi> r evs \<and> \<Psi> r evs) s"
    using only_emitsD [OF assms(1), of s] only_emitsD [OF assms(2), of s]
    by (intro wpI) (metis emits_eq_iff)
qed

lemma only_emits_ret: "\<Phi> (Ret x) [] \<Longrightarrow> only_emits (ret x) \<Phi>"
  unfolding only_emits_def wp_ret using emits_Nil by metis

lemma only_emits_raise: "\<Phi> (Raise e) [] \<Longrightarrow> only_emits (raise e) \<Phi>"
  unfolding only_emits_def wp_raise using emits_Nil by metis

lemma only_emits_call:
  "only_emits (call reply ev)
     (\<lambda>r evs. (\<exists>x. r = Ret x \<and> evs = [ev (Inr x)]) \<or> (\<exists>e. r = Raise e \<and> evs = [ev (Inl e)]))"
  by (simp add: only_emits_def wp_call split: sum.splits)

lemma only_emits_bind:
  assumes m: "only_emits m \<Phi>" and f: "\<And>x. only_emits (f x) (\<Psi> x)"
    and ret: "\<And>x evs r evs'. \<Phi> (Ret x) evs \<Longrightarrow> \<Psi> x r evs' \<Longrightarrow> \<Theta> r (evs @ evs')"
    and rai: "\<And>e evs. \<Phi> (Raise e) evs \<Longrightarrow> \<Theta> (Raise e) evs"
    and han: "\<And>evs. \<Phi> Hang evs \<Longrightarrow> \<Theta> Hang evs"
  shows "only_emits (bind_p m f) \<Theta>"
  unfolding only_emits_def wp_bind
proof (intro allI only_emits_wp [OF m])
  fix s r evs
  assume \<Phi>: "\<Phi> r evs"
  show "case r of
      Ret x \<Rightarrow> wp (f x) (\<lambda>r s'. \<exists>evs. s' = emits evs s \<and> \<Theta> r evs) (emits evs s)
    | Raise e \<Rightarrow> \<exists>evsa. emits evs s = emits evsa s \<and> \<Theta> (Raise e) evsa
    | Hang \<Rightarrow> \<exists>evsa. emits evs s = emits evsa s \<and> \<Theta> Hang evsa"
  proof (cases r)
    case (Ret x)
    with \<Phi> have "wp (f x) (\<lambda>r s'. \<exists>evs. s' = emits evs s \<and> \<Theta> r evs) (emits evs s)"
      by (intro only_emits_wp [OF f]) (use ret in auto)
    with Ret show ?thesis by simp
  qed (use \<Phi> rai han in auto)
qed


lemma returns_call [returns_intros]:
  "(\<And>s x. I s \<Longrightarrow> I (emits [ev x] s)) \<Longrightarrow> returns I (call reply ev)"
  by (simp add: returns_def wp_call split: sum.splits)

lemma only_emits_returns:
  assumes "only_emits m \<Phi>" "\<And>r evs. \<Phi> r evs \<Longrightarrow> r \<noteq> Hang" "\<And>s evs. I s \<Longrightarrow> I (emits evs s)"
  shows "returns I m"
  unfolding returns_def
  by (intro allI impI only_emits_wp [OF assms(1)]) (use assms(2,3) in blast)


subsection \<open>What all calls of a program have in common\<close>

text \<open>
  \<open>emits_all P m\<close>: \<open>m\<close> only ever extends the trace, and by calls that satisfy \<open>P\<close>. Unlike
  \<open>only_emits\<close> it leaves the rest of the state open, and composes without a relation to the
  outcome.
\<close>

definition emits_all :: "('e \<Rightarrow> bool) \<Rightarrow> (('e, 'a) io_scheme, 'r) prog \<Rightarrow> bool" where
  "emits_all P m = (\<forall>s. wp m (\<lambda>r s'. \<exists>evs. trace s' = trace s @ evs \<and> list_all P evs) s)"

lemma emits_allD: "emits_all P m \<Longrightarrow> m s = (r, s') \<Longrightarrow> \<exists>evs. trace s' = trace s @ evs \<and> list_all P evs"
  unfolding emits_all_def using wp_run by fastforce

lemma only_emits_all:
  assumes "only_emits m \<Phi>" "\<And>r evs. \<Phi> r evs \<Longrightarrow> list_all P evs"
  shows "emits_all P m"
  unfolding emits_all_def by (intro allI only_emits_wp [OF assms(1)]) (use assms(2) in auto)

lemma emits_all_ret [emits_intros]: "emits_all P (ret x)"
  by (simp add: emits_all_def wp_rules)

lemma emits_all_raise [emits_intros]: "emits_all P (raise e)"
  by (simp add: emits_all_def wp_rules)

lemma emits_all_hang [emits_intros]: "emits_all P hang"
  by (simp add: emits_all_def wp_rules)

lemma emits_all_from_sum [emits_intros]: "emits_all P (from_sum x)"
  by (simp add: emits_all_def wp_rules split: sum.splits)

lemma emits_all_get_p [emits_intros]: "emits_all P (get_p g)"
  by (simp add: emits_all_def wp_rules)

lemma emits_all_modify_p [emits_intros]: "(\<And>s. trace (g s) = trace s) \<Longrightarrow> emits_all P (modify_p g)"
  by (simp add: emits_all_def wp_rules)

lemma emits_all_call [emits_intros]: "(\<And>x. P (ev x)) \<Longrightarrow> emits_all P (call reply ev)"
  by (simp add: emits_all_def wp_call split: sum.splits)

lemma emits_all_bind [emits_intros]:
  assumes "emits_all P m" "\<And>x. emits_all P (f x)"
  shows "emits_all P (bind_p m f)"
  unfolding emits_all_def
proof (intro allI wpI)
  fix s r s'
  assume run: "bind_p m f s = (r, s')"
  obtain r1 s1 where m: "m s = (r1, s1)" by force
  then obtain evs where evs: "trace s1 = trace s @ evs" "list_all P evs" using emits_allD [OF assms(1)] by blast
  show "\<exists>evs. trace s' = trace s @ evs \<and> list_all P evs"
  proof (cases r1)
    case (Ret x)
    then have "f x s1 = (r, s')" using run m by (simp add: bind_p_def)
    then obtain evs' where "trace s' = trace s1 @ evs'" "list_all P evs'" using emits_allD [OF assms(2)] by blast
    then show ?thesis using evs by auto
  qed (use run m evs in \<open>auto simp: bind_p_def\<close>)
qed

lemma emits_all_then [emits_intros]: "emits_all P m \<Longrightarrow> emits_all P k \<Longrightarrow> emits_all P (then_p m k)"
  unfolding then_p_def by (rule emits_all_bind)

lemma emits_all_try_except [emits_intros]:
  assumes "emits_all P m" "\<And>e k. h e = Some k \<Longrightarrow> emits_all P k"
  shows "emits_all P (try_except m h)"
  unfolding emits_all_def
proof (intro allI wpI)
  fix s r s'
  assume run: "try_except m h s = (r, s')"
  obtain r1 s1 where m: "m s = (r1, s1)" by force
  then obtain evs where evs: "trace s1 = trace s @ evs" "list_all P evs" using emits_allD [OF assms(1)] by blast
  show "\<exists>evs. trace s' = trace s @ evs \<and> list_all P evs"
  proof (cases "\<exists>e k. r1 = Raise e \<and> h e = Some k")
    case True
    then obtain e k where ek: "r1 = Raise e" "h e = Some k" by blast
    then have "k s1 = (r, s')" using run m by (simp add: try_except_def)
    then obtain evs' where "trace s' = trace s1 @ evs'" "list_all P evs'" using emits_allD [OF assms(2) [OF ek(2)]] by blast
    then show ?thesis using evs by auto
  next
    case False
    then have "s' = s1" using run m by (auto simp: try_except_def split: outcome.splits option.splits)
    then show ?thesis using evs by blast
  qed
qed

lemma emits_all_try_finally [emits_intros]:
  assumes "emits_all P m" "emits_all P k"
  shows "emits_all P (try_finally m k)"
  unfolding emits_all_def
proof (intro allI wpI)
  fix s r s'
  assume run: "try_finally m k s = (r, s')"
  obtain r1 s1 where m: "m s = (r1, s1)" by force
  obtain r2 s2 where k: "k s1 = (r2, s2)" by force
  have "s' = s1 \<or> s' = s2" using run m k by (auto simp: try_finally_def split: outcome.splits)
  then show "\<exists>evs. trace s' = trace s @ evs \<and> list_all P evs"
    using emits_allD [OF assms(1) m] emits_allD [OF assms(2) k] by auto
qed

lemma emits_all_if [emits_intros]:
  "(b \<Longrightarrow> emits_all P m) \<Longrightarrow> (\<not> b \<Longrightarrow> emits_all P k) \<Longrightarrow> emits_all P (if b then m else k)"
  by simp

lemma emits_all_cases [emits_intros]:
  "emits_all P m \<Longrightarrow> (\<And>x. y = Some x \<Longrightarrow> emits_all P (f x)) \<Longrightarrow> emits_all P (case y of None \<Rightarrow> m | Some x \<Rightarrow> f x)"
  "(\<And>a b. p = (a, b) \<Longrightarrow> emits_all P (g a b)) \<Longrightarrow> emits_all P (case p of (a, b) \<Rightarrow> g a b)"
  "(\<And>e. r = Inl e \<Longrightarrow> emits_all P (h e)) \<Longrightarrow> (\<And>v. r = Inr v \<Longrightarrow> emits_all P (k v))
   \<Longrightarrow> emits_all P (case r of Inl e \<Rightarrow> h e | Inr v \<Rightarrow> k v)"
  by (auto split: option.split prod.split sum.split)

lemma emits_all_for_p [emits_intros]: "(\<And>x. x \<in> set xs \<Longrightarrow> emits_all P (f x)) \<Longrightarrow> emits_all P (for_p xs f)"
  by (induction xs) (auto intro: emits_intros)


section \<open>Retry loops\<close>

text \<open>
  A retry loop makes up to \<open>n\<close> attempts. One attempt sends at most one request (\<open>sent\<close>), which
  may succeed (\<open>delivered\<close>); it returns \<open>Inr x\<close> on success, \<open>Inl e\<close> after a failure worth
  another attempt, and raises otherwise. When the attempts are used up after a failure, the
  loop raises.
\<close>

locale bounded_retry =
  fixes loop :: "nat \<Rightarrow> nat \<Rightarrow> exn option \<Rightarrow> (('e, 'a) io_scheme, 'r) prog"
    and attempt :: "nat \<Rightarrow> nat \<Rightarrow> (('e, 'a) io_scheme, exn + 'r) prog"
    and give_up :: "exn option \<Rightarrow> (('e, 'a) io_scheme, 'r) prog"
    and sent :: "'e \<Rightarrow> bool"
    and delivered :: "'e \<Rightarrow> bool"
  assumes loop_0: "loop k 0 le = give_up le"
    and loop_Suc: "loop k (Suc n) le = bind_p (attempt k n)
          (\<lambda>r. case r of Inr x \<Rightarrow> ret x | Inl e \<Rightarrow> loop (Suc k) n (Some e))"
    and give_up_raises: "\<exists>e'. give_up (Some e) = raise e'"
    and attempt_sends: "only_emits (attempt k n) (\<lambda>r evs. count_ev sent evs \<le> 1)"
    and attempt_delivers: "only_emits (attempt k n)
          (\<lambda>r evs. r \<noteq> Hang \<and> count_ev delivered evs = (case r of Ret (Inr _) \<Rightarrow> 1 | _ \<Rightarrow> 0))"
begin

text \<open>No more requests than attempts.\<close>

lemma loop_sends: "only_emits (loop k n (Some e)) (\<lambda>r evs. count_ev sent evs \<le> n)"
proof (induction n arbitrary: k e)
  case 0
  obtain e' where "give_up (Some e) = raise e'" using give_up_raises by blast
  then show ?case
    by (auto intro: only_emits_raise simp: loop_0 trace_simps)
next
  case (Suc n)
  have "only_emits (case r of Inr x \<Rightarrow> ret x | Inl e' \<Rightarrow> loop (Suc k) n (Some e'))
      (\<lambda>r evs. count_ev sent evs \<le> n)" for r
    by (cases r) (auto intro: Suc.IH only_emits_ret simp: trace_simps)
  then show ?case unfolding loop_Suc
    by (rule only_emits_bind [OF attempt_sends]) (auto simp: trace_simps)
qed

text \<open>
  Exactly one delivery when the loop returns, none when it raises; and it does return or
  raise.
\<close>

lemma loop_delivers:
  "only_emits (loop k n (Some e))
     (\<lambda>r evs. r \<noteq> Hang \<and> count_ev delivered evs = (case r of Ret _ \<Rightarrow> 1 | _ \<Rightarrow> 0))"
proof (induction n arbitrary: k e)
  case 0
  obtain e' where "give_up (Some e) = raise e'" using give_up_raises by blast
  then show ?case
    by (auto intro: only_emits_raise simp: loop_0 trace_simps)
next
  case (Suc n)
  let ?\<Psi> = "\<lambda>x r evs. r \<noteq> Hang \<and> count_ev delivered evs =
      (case x of Inr _ \<Rightarrow> 0 | Inl _ \<Rightarrow> (case r of Ret _ \<Rightarrow> 1 | _ \<Rightarrow> 0)) \<and> (\<forall>y. x = Inr y \<longrightarrow> r = Ret y)"
  have "only_emits (case r of Inr x \<Rightarrow> ret x | Inl e' \<Rightarrow> loop (Suc k) n (Some e')) (?\<Psi> r)" for r
    by (cases r) (auto intro: Suc.IH only_emits_ret simp: trace_simps)
  then show ?case unfolding loop_Suc
    by (rule only_emits_bind [OF attempt_delivers]) (auto simp: trace_simps split: sum.splits)
qed

text \<open>The first attempt is as good as any other, provided there is one.\<close>

lemma loop_first: "loop k (Suc n) None = loop k (Suc n) (Some e)"
  by (simp add: loop_Suc)

lemma loop_start_sends:
  "0 < n \<Longrightarrow> only_emits (loop k n None) (\<lambda>r evs. count_ev sent evs \<le> n)"
  using loop_sends loop_first by (metis gr0_implies_Suc)

lemma loop_start_delivers:
  "0 < n \<Longrightarrow> only_emits (loop k n None)
     (\<lambda>r evs. r \<noteq> Hang \<and> count_ev delivered evs = (case r of Ret _ \<Rightarrow> 1 | _ \<Rightarrow> 0))"
  using loop_delivers loop_first by (metis (no_types, lifting) gr0_implies_Suc)

end

text \<open>
  Some answers are final (a success, a status that no retry can change): an attempt that got one
  does not ask for another round. Then nothing is sent after a final answer.
\<close>

locale stopping_retry = bounded_retry +
  fixes final_ev :: "'e \<Rightarrow> bool"
  assumes attempt_stops: "only_emits (attempt k n)
        (\<lambda>r evs. \<not> occurs_before final_ev sent evs \<and> (list_ex final_ev evs \<longrightarrow> (\<forall>e. r \<noteq> Ret (Inl e))))"
begin

lemma loop_stops: "only_emits (loop k n (Some e)) (\<lambda>r evs. \<not> occurs_before final_ev sent evs)"
proof (induction n arbitrary: k e)
  case 0
  obtain e' where "give_up (Some e) = raise e'" using give_up_raises by blast
  then show ?case by (auto intro: only_emits_raise simp: loop_0)
next
  case (Suc n)
  let ?\<Psi> = "\<lambda>x r evs. \<not> occurs_before final_ev sent evs \<and> ((\<exists>y. x = Inr y) \<longrightarrow> evs = [])"
  have "only_emits (case x of Inr y \<Rightarrow> ret y | Inl e' \<Rightarrow> loop (Suc k) n (Some e')) (?\<Psi> x)" for x
    by (cases x) (auto intro: Suc.IH only_emits_ret)
  then show ?case unfolding loop_Suc
    by (rule only_emits_bind [OF attempt_stops]) (auto simp: trace_simps, metis sum.exhaust)
qed

lemma loop_start_stops:
  "0 < n \<Longrightarrow> only_emits (loop k n None) (\<lambda>r evs. \<not> occurs_before final_ev sent evs)"
  using loop_stops loop_first by (metis (no_types, lifting) gr0_implies_Suc)

end

end
