(* ===== verification/World.thy ===== *)
theory World
  imports Executor Auth Traces
begin

text \<open>
  The outside world of the job path. The Redis client, the executor backend, the HTTP
  client, PyJWT's encoder, the clocks and the event loop's sleeps are not code of the
  repository; they are the fields of an \<open>env\<close>. Every field that answers a call may look at
  the whole history of calls made so far, and may answer with an exception, among them
  \<open>CancelledError\<close>, which is how a cancelled task sees its next \<^verbatim>\<open>await\<close>. A theorem that
  holds for every \<open>env\<close> therefore holds for every behaviour of these services, including a
  cloud that sets a cancellation flag between any two calls.

  A program's visible behaviour is the trace of its calls with their replies.
\<close>

section \<open>Calls and replies\<close>

text \<open>Values a Redis reply may hold: text, bytes, or another object (given by its \<^verbatim>\<open>str()\<close>).\<close>

datatype pyobj = PyStr string | PyBytes string | PyObj string

type_synonym message_id = string
type_synonym fields = "(pyobj \<times> pyobj) list"
type_synonym message = "message_id \<times> fields"
type_synonym hash = "(string \<times> string) list"

datatype payload_value =
    PV_Counts "(string \<times> int) list" | PV_Float pyfloat | PV_Int int | PV_Str string

type_synonym body = "(string \<times> payload_value) list"
type_synonym headers = "(string \<times> string) list"

datatype event =
    Ev_XGroupCreate string string "exn + unit"
  | Ev_XPending string string string nat "exn + message_id list"
  | Ev_XRange string message_id "exn + message list"
  | Ev_XReadGroup string string string nat "exn + (string \<times> message list) list"
  | Ev_HSet string hash "exn + unit"
  | Ev_XAck string string message_id "exn + unit"
  | Ev_Get string "exn + pyobj option"
  | Ev_HGet string string "exn + pyobj option"
  | Ev_RunStart native_gate_ir int
  | Ev_RunPoll "exn + bool"
  | Ev_RunAwait native_gate_ir int "exn + execution_result"
  | Ev_RunCancelled "exn + execution_result"
  | Ev_RunTaskCancel
  | Ev_CancelHook "exn + unit"
  | Ev_BatchRun "(native_gate_ir \<times> int) list" "exn + execution_result list"
  | Ev_Sign jwt_claims string "exn + string"
  | Ev_Post string headers body "exn + nat \<times> string"
  | Ev_Sleep pyfloat "exn + unit"
  | Ev_WaitFor pyfloat "exn + bool"

type_synonym history = "event list"

record env =
  e_xgroup_create :: "history \<Rightarrow> exn + unit"
  e_xpending :: "history \<Rightarrow> exn + message_id list"
  e_xrange :: "history \<Rightarrow> message_id \<Rightarrow> exn + message list"
  e_xreadgroup :: "history \<Rightarrow> exn + (string \<times> message list) list"
  e_hset :: "history \<Rightarrow> string \<Rightarrow> hash \<Rightarrow> exn + unit"
  e_xack :: "history \<Rightarrow> message_id \<Rightarrow> exn + unit"
  e_get :: "history \<Rightarrow> string \<Rightarrow> exn + pyobj option"
  e_hget :: "history \<Rightarrow> string \<Rightarrow> string \<Rightarrow> exn + pyobj option"
  e_run_poll :: "history \<Rightarrow> exn + bool"
  e_run :: "history \<Rightarrow> native_gate_ir \<Rightarrow> int \<Rightarrow> exn + execution_result"
  e_run_cancelled :: "history \<Rightarrow> exn + execution_result"
  e_cancel_hook :: "(history \<Rightarrow> exn + unit) option"
  e_batch_run :: "(history \<Rightarrow> (native_gate_ir \<times> int) list \<Rightarrow> exn + execution_result list) option"
  e_jwt_encode :: "history \<Rightarrow> jwt_encode"
  e_post :: "history \<Rightarrow> string \<Rightarrow> headers \<Rightarrow> body \<Rightarrow> exn + nat \<times> string"
  e_sleep :: "history \<Rightarrow> pyfloat \<Rightarrow> exn + unit"
  e_wait_for :: "history \<Rightarrow> pyfloat \<Rightarrow> exn + bool"
  e_now :: "history \<Rightarrow> string"
  e_clock :: "history \<Rightarrow> rat"
  e_monotonic :: "history \<Rightarrow> rat"
  e_decode_ir :: "string \<Rightarrow> exn + native_gate_ir"
  e_stop_requested :: "history \<Rightarrow> bool"
  e_schedule :: "history \<Rightarrow> nat"
  e_background :: "history \<Rightarrow> nat"

text \<open>
  The last three fields are the event loop's: whether \<^verbatim>\<open>stop()\<close> has been called by another task,
  which of the waiting tasks goes next, and how many steps background tasks make while the
  consume loop waits for a reply.
\<close>

text \<open>
  A world in which every service answers at once and without error and no flag is set; the
  base of the concrete runs that show hypotheses can hold.
\<close>

definition quiet_env :: env where
  "quiet_env = \<lparr>
     e_xgroup_create = (\<lambda>_. Inr ()), e_xpending = (\<lambda>_. Inr []), e_xrange = (\<lambda>_ _. Inr []),
     e_xreadgroup = (\<lambda>_. Inr []), e_hset = (\<lambda>_ _ _. Inr ()), e_xack = (\<lambda>_ _. Inr ()),
     e_get = (\<lambda>_ _. Inr None), e_hget = (\<lambda>_ _ _. Inr None), e_run_poll = (\<lambda>_. Inr True),
     e_run = (\<lambda>_ ir shots. Inr (noop_run ir shots)),
     e_run_cancelled = (\<lambda>_. Inl (Exn CancelledError [])),
     e_cancel_hook = None, e_batch_run = None,
     e_jwt_encode = (\<lambda>_ _ _ _ kid. Inr kid), e_post = (\<lambda>_ _ _ _. Inr (200, [])),
     e_sleep = (\<lambda>_ _. Inr ()), e_wait_for = (\<lambda>_ _. Inr True),
     e_now = (\<lambda>_. ''2026-01-01T00:00:00+00:00''), e_clock = (\<lambda>_. 0), e_monotonic = (\<lambda>_. 0),
     e_decode_ir = (\<lambda>_. Inl (Exn ValidationError ''Invalid JSON'')),
     e_stop_requested = (\<lambda>_. False), e_schedule = (\<lambda>_. 0), e_background = (\<lambda>_. 0)\<rparr>"

end
