(* ===== verification/Webhook.thy ===== *)
theory Webhook
  imports World
begin

text \<open>
  \<open>server/webhook.py\<close>: the payload and its serialization, and signed delivery with
  retry. \<open>post_loop\<close> is the \<^verbatim>\<open>for\<close> loop of \<open>_post_with_retry\<close>; it is an instance of the
  retry contract \<open>bounded_retry\<close>, from which the bounds on attempts and deliveries come.
\<close>

section \<open>Payload\<close>

record webhook_payload =
  wp_job_id :: string
  wp_status :: string
  wp_counts :: "(string \<times> int) list option"
  wp_execution_time_ms :: "pyfloat option"
  wp_shots_completed :: "int option"
  wp_error :: "string option"

definition add_field :: "string \<Rightarrow> payload_value option \<Rightarrow> body \<Rightarrow> body" where
  "add_field k v d = (case v of None \<Rightarrow> d | Some x \<Rightarrow> dict_set d k x)"

definition to_dict :: "webhook_payload \<Rightarrow> body" where
  "to_dict p =
     add_field ''error'' (map_option PV_Str (wp_error p))
      (add_field ''shots_completed'' (map_option PV_Int (wp_shots_completed p))
       (add_field ''execution_time_ms'' (map_option PV_Float (wp_execution_time_ms p))
        (add_field ''counts'' (map_option PV_Counts (wp_counts p))
         [(''job_id'', PV_Str (wp_job_id p)), (''status'', PV_Str (wp_status p))])))"


section \<open>Delivery\<close>

record webhook_client =
  wc_qpu_id :: string
  wc_private_key :: string
  wc_key_id :: string
  wc_max_retries :: int
  wc_extra_headers :: headers

definition is_success :: "nat \<Rightarrow> bool" where
  "is_success code = (200 \<le> code \<and> code \<le> 299)"

definition backoff :: "nat \<Rightarrow> pyfloat" where
  "backoff attempt = 1 * 2 ^ (attempt - 1)"

text \<open>\<^verbatim>\<open>sign_token(self._qpu_id, self._jwt_private_key, key_id=self._jwt_key_id)\<close>.\<close>

definition sign_request :: "env \<Rightarrow> string \<Rightarrow> string \<Rightarrow> string \<Rightarrow> ((event, 'a) io_scheme, string) prog" where
  "sign_request env qpu_id private_key key_id =
     bind_p (get_p (\<lambda>s. e_clock env (trace s))) (\<lambda>now.
       call (\<lambda>h. sign_token (e_jwt_encode env h) now qpu_id private_key
                   DEFAULT_ISSUER DEFAULT_TTL (Some key_id))
            (Ev_Sign (token_claims now qpu_id DEFAULT_ISSUER DEFAULT_TTL)
                     (token_kid qpu_id (Some key_id))))"

definition auth_headers :: "string \<Rightarrow> headers \<Rightarrow> headers" where
  "auth_headers token extra = dict_merge [(''Authorization'', ''Bearer '' @ token)] extra"

text \<open>The POST followed by \<^verbatim>\<open>response.raise_for_status()\<close>.\<close>

definition post_checked ::
    "env \<Rightarrow> string \<Rightarrow> headers \<Rightarrow> body \<Rightarrow> ((event, 'a) io_scheme, unit) prog" where
  "post_checked env url hs body =
     bind_p (call (\<lambda>h. e_post env h url hs body) (Ev_Post url hs body)) (\<lambda>(code, text).
       if is_success code then ret () else raise (HttpStatus code text))"

definition sleep_p :: "env \<Rightarrow> pyfloat \<Rightarrow> ((event, 'a) io_scheme, unit) prog" where
  "sleep_p env delay = call (\<lambda>h. e_sleep env h delay) (Ev_Sleep delay)"

text \<open>The handler of a failed attempt: a status below 500 is final, anything else is retried.\<close>

definition retryable :: "exn \<Rightarrow> bool" where
  "retryable e = (case e of HttpStatus code _ \<Rightarrow> 500 \<le> code | _ \<Rightarrow> True)"

definition post_attempt ::
    "env \<Rightarrow> webhook_client \<Rightarrow> string \<Rightarrow> body \<Rightarrow> nat
     \<Rightarrow> ((event, 'a) io_scheme, exn + unit) prog" where
  "post_attempt env wc url body attempt =
     bind_p (sign_request env (wc_qpu_id wc) (wc_private_key wc) (wc_key_id wc)) (\<lambda>token.
       try_except
         (then_p (post_checked env url (auth_headers token (wc_extra_headers wc)) body)
                 (ret (Inr ())))
         (\<lambda>e. if catches [TransportError, HTTPStatusError] e
              then Some (if retryable e
                         then then_p (sleep_p env (backoff attempt)) (ret (Inl e))
                         else raise e)
              else None))"

definition post_give_up :: "exn option \<Rightarrow> ((event, 'a) io_scheme, unit) prog" where
  "post_give_up last_exc = (case last_exc of Some e \<Rightarrow> raise e | None \<Rightarrow> ret ())"

text \<open>\<open>post_loop \<dots> attempt left last_exc\<close>: the rounds from number \<open>attempt\<close> on.\<close>

fun post_loop ::
    "env \<Rightarrow> webhook_client \<Rightarrow> string \<Rightarrow> body \<Rightarrow> nat \<Rightarrow> nat \<Rightarrow> exn option
     \<Rightarrow> ((event, 'a) io_scheme, unit) prog" where
  "post_loop env wc url body attempt 0 last_exc = post_give_up last_exc"
| "post_loop env wc url body attempt (Suc left) last_exc =
     bind_p (post_attempt env wc url body attempt)
       (\<lambda>r. case r of
            Inr u \<Rightarrow> ret u
          | Inl e \<Rightarrow> post_loop env wc url body (Suc attempt) left (Some e))"

definition post_with_retry ::
    "env \<Rightarrow> webhook_client \<Rightarrow> string \<Rightarrow> body \<Rightarrow> ((event, 'a) io_scheme, unit) prog" where
  "post_with_retry env wc url body = post_loop env wc url body 1 (nat (wc_max_retries wc)) None"

definition send_result ::
    "env \<Rightarrow> webhook_client \<Rightarrow> string \<Rightarrow> webhook_payload \<Rightarrow> ((event, 'a) io_scheme, unit) prog" where
  "send_result env wc callback_url payload = post_with_retry env wc callback_url (to_dict payload)"

definition error_payload :: "string \<Rightarrow> string \<Rightarrow> webhook_payload" where
  "error_payload job_id error =
     \<lparr>wp_job_id = job_id, wp_status = ''failed'', wp_counts = None, wp_execution_time_ms = None,
      wp_shots_completed = None, wp_error = Some error\<rparr>"

definition send_error ::
    "env \<Rightarrow> webhook_client \<Rightarrow> string \<Rightarrow> string \<Rightarrow> string \<Rightarrow> ((event, 'a) io_scheme, unit) prog" where
  "send_error env wc callback_url job_id error =
     send_result env wc callback_url (error_payload job_id error)"


section \<open>What a delivery puts on the trace\<close>

fun is_post :: "event \<Rightarrow> bool" where
  "is_post (Ev_Post _ _ _ _) = True"
| "is_post _ = False"

fun is_delivery :: "event \<Rightarrow> bool" where
  "is_delivery (Ev_Post _ _ _ (Inr (code, _))) = is_success code"
| "is_delivery _ = False"

lemma is_delivery_post [simp]:
  "is_delivery (Ev_Post u hs b rep) \<longleftrightarrow> (\<exists>code x. rep = Inr (code, x) \<and> is_success code)"
  by (cases "Ev_Post u hs b rep" rule: is_delivery.cases) auto

text \<open>A POST that ends the retries: answered below 500.\<close>

fun is_final_post :: "event \<Rightarrow> bool" where
  "is_final_post (Ev_Post _ _ _ (Inr (code, _))) = (code < 500)"
| "is_final_post _ = False"

lemma is_final_post_post [simp]:
  "is_final_post (Ev_Post u hs b rep) \<longleftrightarrow> (\<exists>code x. rep = Inr (code, x) \<and> code < 500)"
  by (cases "Ev_Post u hs b rep" rule: is_final_post.cases) auto

fun event_sleep :: "event \<Rightarrow> pyfloat option" where
  "event_sleep (Ev_Sleep d _) = Some d"
| "event_sleep _ = None"

definition sleeps :: "event list \<Rightarrow> pyfloat list" where
  "sleeps evs = List.map_filter event_sleep evs"

text \<open>The events of the delivery path: signing, posting this body to this URL, sleeping.\<close>

fun delivery_event :: "string \<Rightarrow> body \<Rightarrow> event \<Rightarrow> bool" where
  "delivery_event url body (Ev_Post u _ b _) = (u = url \<and> b = body)"
| "delivery_event url body (Ev_Sign _ _ _) = True"
| "delivery_event url body (Ev_Sleep _ _) = True"
| "delivery_event url body _ = False"

lemma sleeps_append [trace_simps]: "sleeps (xs @ ys) = sleeps xs @ sleeps ys"
  by (induction xs) (auto simp: sleeps_def map_filter_simps split: option.splits)

lemma sleeps_simps [trace_simps]:
  "sleeps [] = []"
  "sleeps (ev # evs) = (case event_sleep ev of Some d \<Rightarrow> d # sleeps evs | None \<Rightarrow> sleeps evs)"
  by (auto simp: sleeps_def map_filter_simps split: option.splits)

text \<open>
  One attempt, in full: it signs; if signing succeeds it posts once; a success returns at
  once, a final status raises at once, and any other failure of the transport or a 5xx
  sleeps before it asks for another round.
\<close>

definition attempt_shape :: "string \<Rightarrow> body \<Rightarrow> nat \<Rightarrow> (exn + unit) outcome \<Rightarrow> event list \<Rightarrow> bool" where
  "attempt_shape url body attempt r evs =
     (\<exists>c k. (\<exists>e. evs = [Ev_Sign c k (Inl e)] \<and> r = Raise e) \<or>
       (\<exists>t hs. (\<exists>code x. evs = [Ev_Sign c k (Inr t), Ev_Post url hs body (Inr (code, x))]
                  \<and> ((is_success code \<and> r = Ret (Inr ()))
                     \<or> (\<not> is_success code \<and> code < 500 \<and> r = Raise (HttpStatus code x))))
             \<or> (\<exists>e. evs = [Ev_Sign c k (Inr t), Ev_Post url hs body (Inl e)] \<and> r = Raise e)
             \<or> (\<exists>rep z. evs = [Ev_Sign c k (Inr t), Ev_Post url hs body rep, Ev_Sleep (backoff attempt) z]
                  \<and> (\<forall>code x. rep = Inr (code, x) \<longrightarrow> 500 \<le> code)
                  \<and> ((\<exists>u e. z = Inr u \<and> r = Ret (Inl e)) \<or> (\<exists>e. z = Inl e \<and> r = Raise e)))))"

lemma catches_HttpStatus [simp]: "catches [TransportError, HTTPStatusError] (HttpStatus code t)"
  by (simp add: catches_def mro.simps)

lemma post_attempt_shape:
  "only_emits (post_attempt env wc url body attempt) (attempt_shape url body attempt)"
  unfolding only_emits_def post_attempt_def sign_request_def post_checked_def sleep_p_def wp_rules
    attempt_shape_def
  by (auto simp: wp_rules retryable_def split: sum.splits prod.splits exn.splits if_splits)

lemma attempt_shape_sends: "attempt_shape url body k r evs \<Longrightarrow> count_ev is_post evs \<le> 1"
  by (auto simp: attempt_shape_def trace_simps)

lemma attempt_shape_delivers:
  "attempt_shape url body k r evs \<Longrightarrow>
   r \<noteq> Hang \<and> count_ev is_delivery evs = (case r of Ret (Inr _) \<Rightarrow> 1 | _ \<Rightarrow> 0)"
  by (auto simp: attempt_shape_def trace_simps is_success_def)

lemma attempt_shape_stops:
  "attempt_shape url body k r evs \<Longrightarrow> \<not> occurs_before is_final_post is_post evs
     \<and> (list_ex is_final_post evs \<longrightarrow> (\<forall>e. r \<noteq> Ret (Inl e)))"
  by (auto simp: attempt_shape_def)

interpretation webhook_retry: stopping_retry
  "post_loop env wc url body" "\<lambda>k n. post_attempt env wc url body k" post_give_up is_post is_delivery is_final_post
  for env wc url body
proof unfold_locales
  show "\<exists>e'. post_give_up (Some e) = raise e'" for e by (auto simp: post_give_up_def)
  show "only_emits (post_attempt env wc url body k) (\<lambda>r evs. count_ev is_post evs \<le> 1)" for k
    by (rule only_emits_mono [OF post_attempt_shape]) (rule attempt_shape_sends)
  show "only_emits (post_attempt env wc url body k)
      (\<lambda>r evs. r \<noteq> Hang \<and> count_ev is_delivery evs = (case r of Ret (Inr _) \<Rightarrow> 1 | _ \<Rightarrow> 0))" for k
    by (rule only_emits_mono [OF post_attempt_shape]) (rule attempt_shape_delivers)
  show "only_emits (post_attempt env wc url body k)
      (\<lambda>r evs. \<not> occurs_before is_final_post is_post evs \<and> (list_ex is_final_post evs \<longrightarrow> (\<forall>e. r \<noteq> Ret (Inl e))))" for k
    by (rule only_emits_mono [OF post_attempt_shape]) (rule attempt_shape_stops)
qed simp_all

lemma post_loop_emits:
  assumes one: "\<And>k. only_emits
        (post_attempt env wc url body k :: ((event, 'a) io_scheme, exn + unit) prog) (\<lambda>r evs. P k r evs)"
    and give_up: "\<And>k n le. n = 0 \<Longrightarrow> Q k n (case le of Some e \<Rightarrow> Raise e | None \<Rightarrow> Ret ()) []"
    and fin: "\<And>k n evs. P k (Ret (Inr ())) evs \<Longrightarrow> Q k (Suc n) (Ret ()) evs"
    and next_round: "\<And>k n e evs r evs'. P k (Ret (Inl e)) evs \<Longrightarrow> Q (Suc k) n r evs' \<Longrightarrow> Q k (Suc n) r (evs @ evs')"
    and stop: "\<And>k n r evs. P k r evs \<Longrightarrow> (\<And>x. r \<noteq> Ret x) \<Longrightarrow>
        Q k (Suc n) (case r of Raise e \<Rightarrow> Raise e | _ \<Rightarrow> Hang) evs"
  shows "only_emits (post_loop env wc url body k n le :: ((event, 'a) io_scheme, unit) prog) (Q k n)"
proof (induction n arbitrary: k le)
  case 0
  then show ?case using give_up [of 0 k le]
    by (auto intro: only_emits_ret only_emits_raise simp: post_give_up_def split: option.splits)
next
  case (Suc n)
  let ?\<Psi> = "\<lambda>x r evs. case x of Inr u \<Rightarrow> r = Ret () \<and> evs = [] | Inl e \<Rightarrow> Q (Suc k) n r evs"
  have "only_emits ((case x of Inr u \<Rightarrow> ret u | Inl e \<Rightarrow> post_loop env wc url body (Suc k) n (Some e))
        :: ((event, 'a) io_scheme, unit) prog) (?\<Psi> x)" for x
    by (cases x) (auto intro: Suc.IH only_emits_ret)
  then show ?case unfolding post_loop.simps
  proof (rule only_emits_bind [OF one])
    fix x evs r evs'
    assume "P k (Ret x) evs" and "?\<Psi> x r evs'"
    then show "Q k (Suc n) r (evs @ evs')"
      using fin [of k evs n] next_round [of k _ evs n r evs'] by (cases x) auto
  next
    show "Q k (Suc n) (Raise e) evs" if "P k (Raise e) evs" for e evs
      using stop [OF that, of n] by simp
    show "Q k (Suc n) Hang evs" if "P k Hang evs" for evs
      using stop [OF that, of n] by simp
  qed
qed

lemma post_loop_delivery_events:
  "only_emits (post_loop env wc url body k n le) (\<lambda>r evs. list_all (delivery_event url body) evs)"
  by (rule post_loop_emits [where Q = "\<lambda>k n r evs. list_all (delivery_event url body) evs",
        OF post_attempt_shape])
    (auto simp: attempt_shape_def)

text \<open>\<open>backoffs k ds\<close>: the delays of rounds \<open>k\<close>, \<open>k + 1\<close>, \<open>\<dots>\<close>.\<close>

fun backoffs :: "nat \<Rightarrow> pyfloat list \<Rightarrow> bool" where
  "backoffs k [] = True"
| "backoffs k (d # ds) = (d = backoff k \<and> backoffs (Suc k) ds)"

lemma backoffs_powers: "backoffs (Suc k) ds \<Longrightarrow> ds = map (\<lambda>i. 2 ^ (k + i)) [0..<length ds]"
proof (induction ds arbitrary: k)
  case (Cons d ds)
  then have ds: "map (\<lambda>i. 2 ^ (Suc k + i)) [0..<length ds] = ds"
    using Cons.IH [of "Suc k"] by (metis backoffs.simps(2))
  have "map (\<lambda>i. 2 ^ (k + i)) [0..<length (d # ds)]
      = backoff (Suc k) # map (\<lambda>i. 2 ^ (Suc k + i)) [0..<length ds]"
    by (simp add: backoff_def map_upt_Suc del: upt_Suc)
  with ds Cons.prems show ?case by simp
qed simp

lemma attempt_shape_sleep:
  "attempt_shape url body k r evs \<Longrightarrow> backoffs k (sleeps evs)"
  "attempt_shape url body k (Ret (Inl e)) evs \<Longrightarrow> sleeps evs = [backoff k]"
  by (auto simp: attempt_shape_def trace_simps)

lemma post_loop_backoff:
  "only_emits (post_loop env wc url body k n le) (\<lambda>r evs. backoffs k (sleeps evs))"
  by (rule post_loop_emits [where Q = "\<lambda>k n r evs. backoffs k (sleeps evs)", OF post_attempt_shape])
    (auto simp: trace_simps attempt_shape_sleep)


section \<open>Properties\<close>

text \<open>
  C26: a webhook delivery with at least one attempt configured ends, and whatever the server
  answers it makes at most \<open>max_retries\<close> POSTs, all of this body to this URL; it returns
  after exactly one POST that was answered with success and raises when there was none; after
  a POST answered below 500 there is no further one; and it sleeps 1, 2, 4, \<open>\<dots>\<close> seconds after
  its failed attempts.
\<close>

theorem post_with_retry_contract:
  assumes "1 \<le> wc_max_retries wc"
  shows "\<exists>r evs. post_with_retry env wc url body s = (r, emits evs s) \<and> r \<noteq> Hang
    \<and> int (count_ev is_post evs) \<le> wc_max_retries wc
    \<and> list_all (delivery_event url body) evs
    \<and> count_ev is_delivery evs = (case r of Ret _ \<Rightarrow> 1 | _ \<Rightarrow> 0)
    \<and> \<not> occurs_before is_final_post is_post evs
    \<and> sleeps evs = map (\<lambda>i. 2 ^ i) [0..<length (sleeps evs)]"
proof -
  let ?n = "nat (wc_max_retries wc)"
  obtain r s' where run: "post_with_retry env wc url body s = (r, s')" by fastforce
  have n: "0 < ?n" using assms by simp
  note parts = only_emits_conj [OF webhook_retry.loop_start_sends [OF n]
      only_emits_conj [OF webhook_retry.loop_start_delivers [OF n]
        only_emits_conj [OF post_loop_delivery_events
          only_emits_conj [OF webhook_retry.loop_start_stops [OF n] post_loop_backoff]]]]
  obtain evs where evs: "s' = emits evs s" "count_ev is_post evs \<le> ?n" "r \<noteq> Hang"
      "count_ev is_delivery evs = (case r of Ret _ \<Rightarrow> 1 | _ \<Rightarrow> 0)"
      "list_all (delivery_event url body) evs" "\<not> occurs_before is_final_post is_post evs"
      "backoffs (Suc 0) (sleeps evs)"
    using only_emitsD [OF parts run [unfolded post_with_retry_def One_nat_def]] by blast
  then show ?thesis using assms run backoffs_powers [of 0 "sleeps evs"] by auto
qed

definition sample_client :: webhook_client where
  "sample_client = \<lparr>wc_qpu_id = ''qpu-1'', wc_private_key = ''pem'', wc_key_id = ''key-1'',
     wc_max_retries = 3, wc_extra_headers = []\<rparr>"

theorem post_with_retry_contract_witness:
  "1 \<le> wc_max_retries sample_client \<and>
   (\<exists>r evs. post_with_retry quiet_env sample_client ''https://x'' [] \<lparr>trace = []\<rparr> = (r, emits evs \<lparr>trace = []\<rparr>)
      \<and> int (count_ev is_post evs) \<le> 3)"
proof -
  have h: "1 \<le> wc_max_retries sample_client" by (simp add: sample_client_def)
  show ?thesis
    using h post_with_retry_contract [OF h, of quiet_env "''https://x''" "[]" "\<lparr>trace = []\<rparr>"]
    by (auto simp: sample_client_def)
qed

lemma map_of_add_field:
  "map_of (add_field k v d) j = (if j = k then (case v of None \<Rightarrow> map_of d k | Some x \<Rightarrow> Some x) else map_of d j)"
  by (cases v) (auto simp: add_field_def)

text \<open>
  The JSON body of a webhook determines the payload it was made from: it always carries
  the job id and the status, it carries an optional field exactly when that field is set, and
  two payloads with the same body are equal.
\<close>

theorem to_dict_faithful:
  "map_of (to_dict p) ''job_id'' = Some (PV_Str (wp_job_id p))
   \<and> map_of (to_dict p) ''status'' = Some (PV_Str (wp_status p))
   \<and> map_of (to_dict p) ''counts'' = map_option PV_Counts (wp_counts p)
   \<and> map_of (to_dict p) ''execution_time_ms'' = map_option PV_Float (wp_execution_time_ms p)
   \<and> map_of (to_dict p) ''shots_completed'' = map_option PV_Int (wp_shots_completed p)
   \<and> map_of (to_dict p) ''error'' = map_option PV_Str (wp_error p)
   \<and> (to_dict p = to_dict q \<longleftrightarrow> p = q)"
proof -
  have look: "map_of (to_dict p) ''job_id'' = Some (PV_Str (wp_job_id p))"
    "map_of (to_dict p) ''status'' = Some (PV_Str (wp_status p))"
    "map_of (to_dict p) ''counts'' = map_option PV_Counts (wp_counts p)"
    "map_of (to_dict p) ''execution_time_ms'' = map_option PV_Float (wp_execution_time_ms p)"
    "map_of (to_dict p) ''shots_completed'' = map_option PV_Int (wp_shots_completed p)"
    "map_of (to_dict p) ''error'' = map_option PV_Str (wp_error p)" for p
    by (simp_all add: to_dict_def map_of_add_field split: option.split)
  have "p = q" if "to_dict p = to_dict q"
  proof -
    have inj: "map_option PV_Counts x = map_option PV_Counts x' \<Longrightarrow> x = x'"
      "map_option PV_Float y = map_option PV_Float y' \<Longrightarrow> y = y'"
      "map_option PV_Int z = map_option PV_Int z' \<Longrightarrow> z = z'"
      "map_option PV_Str w = map_option PV_Str w' \<Longrightarrow> w = w'" for x x' y y' z z' w w'
      by (auto simp: option.inj_map_strong option.map_sel elim: option.inj_map_strong [rotated])
    show ?thesis
      using look [of p] look [of q] that inj by (intro webhook_payload.equality) auto
  qed
  then show ?thesis using look by blast
qed

end
