(* ===== verification/Consumer.thy ===== *)
theory Consumer
  imports Webhook
begin

text \<open>
  \<open>server/consumer.py\<close>, the single-message half: the state of \<open>RedisConsumer\<close>, field
  decoding, the guarded Redis writes, cancellation polling around a running job, and
  \<open>_process_message\<close>. The record \<open>consumer\<close> extends the trace with the object's attributes
  and, last, the two local variables of \<open>consume_loop\<close> that live across its iterations.
  Batches, recovery and the loop itself follow in the next theories.
\<close>

section \<open>State\<close>

record parsed_job =
  p_message_id :: message_id
  p_job_id :: string
  p_callback_url :: string
  p_ir :: native_gate_ir
  p_shots :: int

text \<open>
  The background task of a batch, \<open>_deliver_batch_results\<close>. It delivers the results of its
  jobs concurrently (\<^verbatim>\<open>asyncio.gather\<close>); \<open>deliver_pc\<close> is the \<^verbatim>\<open>await\<close> at which the coroutine of
  one job stands. \<open>At_Post k left last\<close> is round \<open>k\<close> of the webhook loop with \<open>left\<close> rounds to
  go. The task has been created, or its deliveries are running, or it has returned, or it has
  failed with an exception that every \<^verbatim>\<open>await\<close> of it raises again; in the last case deliveries
  that had not ended go on by themselves.
\<close>

datatype deliver_pc =
    At_Check | At_Mark | At_Complete | At_Recheck
  | At_Post nat nat "exn option" | At_Sleep nat nat exn
  | At_Ack | At_End | At_Failed exn

record delivery =
  d_job :: parsed_job
  d_result :: execution_result
  d_pc :: deliver_pc

datatype delivery_task =
    Delivery_Created "parsed_job list" "execution_result list"
  | Delivery_Running string "delivery list"
  | Delivery_Returned
  | Delivery_Failed exn string "delivery list"

record consumer = "event io" +
  c_qpu_id :: string
  c_consumer_name :: string
  c_crash_recovery_threshold_ms :: int
  c_can_batch :: bool
  c_stream :: string
  c_group :: string
  c_webhook :: webhook_client
  c_running :: bool
  c_idle :: bool
  c_pending_delivery :: "delivery_task option"
  c_current_job :: "string option"
  c_last_job_at :: "string option"
  c_redis_healthy :: bool
  l_failures :: nat
  l_last_check :: rat

definition new_consumer ::
    "webhook_client \<Rightarrow> string \<Rightarrow> string \<Rightarrow> int \<Rightarrow> bool \<Rightarrow> consumer" where
  "new_consumer webhook qpu_id consumer_name threshold can_batch = \<lparr>
     trace = [], c_qpu_id = qpu_id, c_consumer_name = consumer_name,
     c_crash_recovery_threshold_ms = threshold, c_can_batch = can_batch,
     c_stream = ''qpu:'' @ qpu_id @ '':jobs'', c_group = ''qpu:'' @ qpu_id @ '':workers'',
     c_webhook = webhook, c_running = False, c_idle = True, c_pending_delivery = None,
     c_current_job = None, c_last_job_at = None, c_redis_healthy = True,
     l_failures = 0, l_last_check = 0\<rparr>"


section \<open>Field decoding\<close>

fun decode_obj :: "pyobj \<Rightarrow> exn + string" where
  "decode_obj (PyBytes b) = bytes_decode b"
| "decode_obj (PyStr s) = Inr s"
| "decode_obj (PyObj s) = Inr s"

fun decode_fields_from :: "hash \<Rightarrow> fields \<Rightarrow> exn + hash" where
  "decode_fields_from d [] = Inr d"
| "decode_fields_from d ((k, v) # fs) =
     (case decode_obj k of
        Inl e \<Rightarrow> Inl e
      | Inr k' \<Rightarrow> (case decode_obj v of
            Inl e \<Rightarrow> Inl e
          | Inr v' \<Rightarrow> decode_fields_from (dict_set d k' v') fs))"

definition decode_fields :: "fields \<Rightarrow> exn + hash" where
  "decode_fields fs = decode_fields_from [] fs"

definition status_key :: "string \<Rightarrow> string" where
  "status_key job_id = ''qpu:job:'' @ job_id @ '':status''"

definition cancel_key :: "string \<Rightarrow> string" where
  "cancel_key job_id = ''qpu:job:cancelled:'' @ job_id"


section \<open>Guarded Redis operations\<close>

type_synonym 'r cprog = "(consumer, 'r) prog"

definition connection_error :: "exn \<Rightarrow> bool" where
  "connection_error e = catches [ConnectionError, OSError, RedisConnectionError] e"

definition safe_hset :: "env \<Rightarrow> string \<Rightarrow> hash \<Rightarrow> bool cprog" where
  "safe_hset env key mapping =
     try_except
       (then_p (call (\<lambda>h. e_hset env h key mapping) (Ev_HSet key mapping)) (ret True))
       (\<lambda>e. if connection_error e then Some (ret False) else None)"

definition safe_xack :: "env \<Rightarrow> message_id \<Rightarrow> bool cprog" where
  "safe_xack env message_id =
     bind_p (get_p (\<lambda>s. (c_stream s, c_group s))) (\<lambda>(stream, group).
       try_except
         (then_p (call (\<lambda>h. e_xack env h message_id) (Ev_XAck stream group message_id)) (ret True))
         (\<lambda>e. if connection_error e then Some (ret False) else None))"

definition has_cancel_signal :: "env \<Rightarrow> string \<Rightarrow> bool cprog" where
  "has_cancel_signal env job_id =
     bind_p (call (\<lambda>h. e_get env h (cancel_key job_id)) (Ev_Get (cancel_key job_id)))
       (\<lambda>cancel_raw. ret (cancel_raw \<noteq> None))"

definition get_job_status :: "env \<Rightarrow> string \<Rightarrow> string option cprog" where
  "get_job_status env job_id =
     bind_p (call (\<lambda>h. e_hget env h (status_key job_id) ''state'') (Ev_HGet (status_key job_id) ''state''))
       (\<lambda>status_raw. case status_raw of
            None \<Rightarrow> ret None
          | Some v \<Rightarrow> bind_p (from_sum (decode_obj v)) (\<lambda>st. ret (Some st)))"

definition now_iso :: "env \<Rightarrow> string cprog" where
  "now_iso env = get_p (\<lambda>s. e_now env (trace s))"

definition mark_job_cancelled :: "env \<Rightarrow> string \<Rightarrow> message_id \<Rightarrow> unit cprog" where
  "mark_job_cancelled env job_id message_id =
     bind_p (now_iso env) (\<lambda>now.
     bind_p (get_p c_qpu_id) (\<lambda>qpu_id.
       then_p (safe_hset env (status_key job_id)
                [(''state'', ''cancelled''), (''cancelled_at'', now),
                 (''message_id'', message_id), (''qpu_id'', qpu_id)])
              (ret ())))"

definition request_runner_cancel :: "env \<Rightarrow> string \<Rightarrow> unit cprog" where
  "request_runner_cancel env job_id =
     (case e_cancel_hook env of
        None \<Rightarrow> ret ()
      | Some hook \<Rightarrow>
          try_except (call hook Ev_CancelHook)
            (\<lambda>e. if is_exception e then Some (ret ()) else None))"


section \<open>Running a job under cancellation\<close>

definition JobCancelled :: exn where
  "JobCancelled = Exn JobCancelledWhileExecuting []"

definition log_event :: "event \<Rightarrow> unit cprog" where
  "log_event ev = modify_p (emit ev)"

text \<open>
  Whether the run task is done, read off the calls so far (latest first): it is after a poll
  that said so and after its cancellation has been awaited.
\<close>

fun run_task_done :: "event list \<Rightarrow> bool" where
  "run_task_done [] = True"
| "run_task_done (Ev_RunPoll (Inr True) # _) = True"
| "run_task_done (Ev_RunPoll _ # _) = False"
| "run_task_done (Ev_RunCancelled _ # _) = True"
| "run_task_done (Ev_RunStart _ _ # _) = False"
| "run_task_done (_ # evs) = run_task_done evs"

text \<open>The cancellation branch of the polling loop.\<close>

definition cancel_running_job :: "env \<Rightarrow> string \<Rightarrow> 'r cprog" where
  "cancel_running_job env job_id =
     then_p (request_runner_cancel env job_id)
      (then_p (log_event Ev_RunTaskCancel)
       (then_p (try_except (then_p (call (e_run_cancelled env) Ev_RunCancelled) (ret ()))
                 (\<lambda>e. if catches [CancelledError] e \<or> is_exception e then Some (ret ()) else None))
         (raise JobCancelled)))"

fun run_polling :: "nat \<Rightarrow> env \<Rightarrow> string \<Rightarrow> native_gate_ir \<Rightarrow> int \<Rightarrow> execution_result cprog" where
  "run_polling 0 env job_id ir shots = hang"
| "run_polling (Suc fuel) env job_id ir shots =
     bind_p (call (e_run_poll env) Ev_RunPoll) (\<lambda>done.
       if done then
         bind_p (call (\<lambda>h. e_run env h ir shots) (Ev_RunAwait ir shots)) (\<lambda>result.
         bind_p (has_cancel_signal env job_id) (\<lambda>cancelled.
           if cancelled then raise JobCancelled else ret result))
       else
         bind_p (has_cancel_signal env job_id) (\<lambda>cancelled.
           if cancelled then cancel_running_job env job_id
           else run_polling fuel env job_id ir shots))"

definition cancel_unless_done :: "unit cprog" where
  "cancel_unless_done =
     bind_p (get_p (\<lambda>s. run_task_done (rev (trace s)))) (\<lambda>done.
       if done then ret () else log_event Ev_RunTaskCancel)"

definition run_job_with_cancellation ::
    "nat \<Rightarrow> env \<Rightarrow> string \<Rightarrow> native_gate_ir \<Rightarrow> int \<Rightarrow> execution_result cprog" where
  "run_job_with_cancellation fuel env job_id ir shots =
     then_p (log_event (Ev_RunStart ir shots))
       (try_finally (run_polling fuel env job_id ir shots) cancel_unless_done)"


section \<open>Processing one message\<close>

definition lookup_field :: "hash \<Rightarrow> string \<Rightarrow> exn + string" where
  "lookup_field d k = (case map_of d k of Some v \<Rightarrow> Inr v | None \<Rightarrow> Inl (Exn KeyError (py_repr k)))"

definition parse_shots :: "string \<Rightarrow> exn + int" where
  "parse_shots s =
     (case read_int s of
        Some n \<Rightarrow> Inr n
      | None \<Rightarrow> Inl (Exn ValueError (''invalid literal for int() with base 10: '' @ py_repr s)))"

text \<open>\<^verbatim>\<open>NativeGateIR.from_json(decoded["ir_json"])\<close> and \<^verbatim>\<open>int(decoded["shots"])\<close>, in that order.\<close>

definition parse_job :: "env \<Rightarrow> hash \<Rightarrow> exn + native_gate_ir \<times> int" where
  "parse_job env d =
     (case lookup_field d ''ir_json'' of
        Inl e \<Rightarrow> Inl e
      | Inr json \<Rightarrow>
          (case from_json (e_decode_ir env) json of
             Inl e \<Rightarrow> Inl e
           | Inr ir \<Rightarrow>
               (case lookup_field d ''shots'' of
                  Inl e \<Rightarrow> Inl e
                | Inr sh \<Rightarrow>
                    (case parse_shots sh of Inl e \<Rightarrow> Inl e | Inr shots \<Rightarrow> Inr (ir, shots)))))"

definition result_payload :: "string \<Rightarrow> execution_result \<Rightarrow> webhook_payload" where
  "result_payload job_id result =
     \<lparr>wp_job_id = job_id, wp_status = ''completed'', wp_counts = Some (counts result),
      wp_execution_time_ms = Some (execution_time_ms result),
      wp_shots_completed = Some (shots_completed result), wp_error = None\<rparr>"

text \<open>What follows a finished run: two more looks at the cancel flag around the status write.\<close>

definition job_report :: "env \<Rightarrow> string \<Rightarrow> string \<Rightarrow> execution_result \<Rightarrow> unit cprog" where
  "job_report env job_id callback_url result =
     bind_p (has_cancel_signal env job_id) (\<lambda>cancelled.
       if cancelled then raise JobCancelled else
       bind_p (now_iso env) (\<lambda>now.
       then_p (safe_hset env (status_key job_id) [(''state'', ''completed''), (''completed_at'', now)])
        (bind_p (has_cancel_signal env job_id) (\<lambda>cancelled.
          if cancelled then raise JobCancelled else
          bind_p (get_p c_webhook) (\<lambda>wc.
          then_p (send_result env wc callback_url (result_payload job_id result))
           (bind_p (now_iso env) (\<lambda>now.
             modify_p (\<lambda>s. s\<lparr>c_last_job_at := Some now\<rparr>))))))))"

definition job_body ::
    "nat \<Rightarrow> env \<Rightarrow> hash \<Rightarrow> string \<Rightarrow> string \<Rightarrow> unit cprog" where
  "job_body fuel env d job_id callback_url =
     bind_p (from_sum (parse_job env d)) (\<lambda>(ir, shots).
     bind_p (run_job_with_cancellation fuel env job_id ir shots)
       (job_report env job_id callback_url))"

definition job_failed :: "env \<Rightarrow> string \<Rightarrow> string \<Rightarrow> exn \<Rightarrow> unit cprog" where
  "job_failed env job_id callback_url e =
     bind_p (now_iso env) (\<lambda>now.
     then_p (safe_hset env (status_key job_id)
              [(''state'', ''failed''), (''error'', str_take 500 (exn_text e)), (''failed_at'', now)])
      (bind_p (get_p c_webhook) (\<lambda>wc.
        try_except (send_error env wc callback_url job_id (str_take 500 (exn_text e)))
          (\<lambda>e'. if is_exception e' then Some (ret ()) else None))))"

definition job_handler :: "env \<Rightarrow> message_id \<Rightarrow> string \<Rightarrow> string \<Rightarrow> exn \<Rightarrow> unit cprog option" where
  "job_handler env message_id job_id callback_url e =
     (if catches [JobCancelledWhileExecuting] e
      then Some (mark_job_cancelled env job_id message_id)
      else if is_exception e
      then Some (bind_p (has_cancel_signal env job_id) (\<lambda>cancelled.
             if cancelled then mark_job_cancelled env job_id message_id
             else job_failed env job_id callback_url e))
      else None)"

definition job_cleanup :: "env \<Rightarrow> message_id \<Rightarrow> unit cprog" where
  "job_cleanup env message_id =
     then_p (safe_xack env message_id)
       (modify_p (\<lambda>s. s\<lparr>c_current_job := None, c_idle := True\<rparr>))"

definition execute_job ::
    "nat \<Rightarrow> env \<Rightarrow> message_id \<Rightarrow> hash \<Rightarrow> string \<Rightarrow> string \<Rightarrow> unit cprog" where
  "execute_job fuel env message_id d job_id callback_url =
     then_p (modify_p (\<lambda>s. s\<lparr>c_idle := False, c_current_job := Some job_id\<rparr>))
      (bind_p (now_iso env) (\<lambda>now.
       bind_p (get_p c_qpu_id) (\<lambda>qpu_id.
       then_p (safe_hset env (status_key job_id)
                [(''state'', ''executing''), (''started_at'', now),
                 (''message_id'', message_id), (''qpu_id'', qpu_id)])
        (try_finally
          (try_except (job_body fuel env d job_id callback_url)
                      (job_handler env message_id job_id callback_url))
          (job_cleanup env message_id)))))"

definition ack_and_return :: "env \<Rightarrow> message_id \<Rightarrow> unit cprog" where
  "ack_and_return env message_id = then_p (safe_xack env message_id) (ret ())"

definition process_job ::
    "nat \<Rightarrow> env \<Rightarrow> message_id \<Rightarrow> hash \<Rightarrow> string \<Rightarrow> string \<Rightarrow> unit cprog" where
  "process_job fuel env message_id d job_id callback_url =
     bind_p (get_job_status env job_id) (\<lambda>status.
       if status \<in> {Some ''completed'', Some ''cancelled''} then ack_and_return env message_id
       else bind_p (has_cancel_signal env job_id) (\<lambda>cancelled.
         if cancelled
         then then_p (mark_job_cancelled env job_id message_id) (ack_and_return env message_id)
         else execute_job fuel env message_id d job_id callback_url))"

definition process_message :: "nat \<Rightarrow> env \<Rightarrow> message_id \<Rightarrow> fields \<Rightarrow> unit cprog" where
  "process_message fuel env message_id flds =
     bind_p (from_sum (decode_fields flds)) (\<lambda>d.
       case map_of d ''job_id'' of
         None \<Rightarrow> ack_and_return env message_id
       | Some job_id \<Rightarrow>
           (case map_of d ''callback_url'' of
              None \<Rightarrow> ack_and_return env message_id
            | Some callback_url \<Rightarrow> process_job fuel env message_id d job_id callback_url))"

end
