(* ===== verification/Consumer_Facts.thy ===== *)
theory Consumer_Facts
  imports Consumer
begin

text \<open>
  What the operations of the consumer put on the trace, for every world: one lemma per
  operation, from the guarded Redis calls up to \<open>process_message\<close>, and the properties of
  single-message processing that follow from them.
\<close>

section \<open>Events\<close>

fun cancel_seen :: "string \<Rightarrow> event \<Rightarrow> bool" where
  "cancel_seen job (Ev_Get k (Inr (Some v))) = (k = cancel_key job)"
| "cancel_seen job _ = False"

lemma cancel_seen_get [simp]:
  "cancel_seen job (Ev_Get k rep) \<longleftrightarrow> k = cancel_key job \<and> (\<exists>v. rep = Inr (Some v))"
  by (cases "(job, Ev_Get k rep)" rule: cancel_seen.cases) auto

fun is_ack :: "message_id \<Rightarrow> event \<Rightarrow> bool" where
  "is_ack m (Ev_XAck _ _ m' _) = (m' = m)"
| "is_ack m _ = False"

text \<open>A status write that puts the job into this state.\<close>

fun sets_state :: "string \<Rightarrow> string \<Rightarrow> event \<Rightarrow> bool" where
  "sets_state job st (Ev_HSet k h _) = (k = status_key job \<and> map_of h ''state'' = Some st)"
| "sets_state job st _ = False"

fun starts_run :: "event \<Rightarrow> bool" where
  "starts_run (Ev_RunStart _ _) = True"
| "starts_run _ = False"

text \<open>The status writes of a trace: key and written state, in order.\<close>

fun status_write :: "event \<Rightarrow> (string \<times> string option) option" where
  "status_write (Ev_HSet k h _) = Some (k, map_of h ''state'')"
| "status_write _ = None"

definition status_writes :: "event list \<Rightarrow> (string \<times> string option) list" where
  "status_writes evs = List.map_filter status_write evs"

lemma status_writes_append [trace_simps]: "status_writes (xs @ ys) = status_writes xs @ status_writes ys"
  by (induction xs) (auto simp: status_writes_def map_filter_simps split: option.splits)

lemma status_writes_simps [trace_simps]:
  "status_writes [] = []"
  "status_writes (ev # evs) = (case status_write ev of Some w \<Rightarrow> w # status_writes evs | None \<Rightarrow> status_writes evs)"
  by (auto simp: status_writes_def map_filter_simps split: option.splits)

lemma status_writes_none: "list_all (\<lambda>ev. status_write ev = None) evs \<Longrightarrow> status_writes evs = []"
  by (induction evs) (auto simp: trace_simps)

fun poll_event :: "string \<Rightarrow> native_gate_ir \<Rightarrow> int \<Rightarrow> event \<Rightarrow> bool" where
  "poll_event job ir shots (Ev_RunStart i n) = (i = ir \<and> n = shots)"
| "poll_event job ir shots (Ev_RunPoll _) = True"
| "poll_event job ir shots (Ev_RunAwait i n _) = (i = ir \<and> n = shots)"
| "poll_event job ir shots (Ev_Get k _) = (k = cancel_key job)"
| "poll_event job ir shots (Ev_CancelHook _) = True"
| "poll_event job ir shots Ev_RunTaskCancel = True"
| "poll_event job ir shots (Ev_RunCancelled _) = True"
| "poll_event job ir shots _ = False"

lemma poll_event_not: "poll_event job ir shots ev \<Longrightarrow> \<not> is_post ev \<and> \<not> is_ack m ev \<and> \<not> sets_state j st ev \<and> \<not> is_delivery ev"
  by (cases ev) auto

lemma delivery_event_not:
  "delivery_event url body ev \<Longrightarrow> \<not> is_ack m ev \<and> \<not> sets_state j st ev \<and> \<not> cancel_seen job ev"
  by (cases ev) auto

lemma poll_events_no_status: "list_all (poll_event job ir shots) evs \<Longrightarrow> status_writes evs = []"
proof -
  have "poll_event job ir shots ev \<Longrightarrow> status_write ev = None" for ev by (cases ev) auto
  then show "list_all (poll_event job ir shots) evs \<Longrightarrow> status_writes evs = []"
    by (intro status_writes_none) (auto simp: list_all_iff)
qed

lemma delivery_events_no_status: "list_all (delivery_event url body) evs \<Longrightarrow> status_writes evs = []"
proof -
  have "delivery_event url body ev \<Longrightarrow> status_write ev = None" for ev by (cases ev) auto
  then show "list_all (delivery_event url body) evs \<Longrightarrow> status_writes evs = []"
    by (intro status_writes_none) (auto simp: list_all_iff)
qed

lemma list_ex_poll_event:
  assumes "list_all (poll_event job ir shots) evs"
  shows "\<not> list_ex is_post evs" "\<not> list_ex (is_ack m) evs" "\<not> list_ex (sets_state j st) evs"
    "\<not> list_ex is_delivery evs"
  using assms poll_event_not by (auto simp: list_ex_iff list_all_iff)

lemma list_ex_delivery_event:
  assumes "list_all (delivery_event url body) evs"
  shows "\<not> list_ex (is_ack m) evs" "\<not> list_ex (sets_state j st) evs" "\<not> list_ex (cancel_seen job) evs"
  using assms delivery_event_not by (auto simp: list_ex_iff list_all_iff)


text \<open>What a run from \<open>s\<close> to \<open>s'\<close> has added to the trace.\<close>

definition new_events :: "consumer \<Rightarrow> consumer \<Rightarrow> event list" where
  "new_events s s' = drop (length (trace s)) (trace s')"

lemma new_events_append: "trace s' = trace s @ evs \<Longrightarrow> new_events s s' = evs"
  by (simp add: new_events_def)


section \<open>Guarded operations\<close>

lemma safe_hset_emits:
  "only_emits (safe_hset env key m)
     (\<lambda>r evs. \<exists>rep. evs = [Ev_HSet key m rep] \<and> r \<noteq> Hang \<and>
        (\<forall>e. rep = Inl e \<and> \<not> connection_error e \<longrightarrow> r = Raise e) \<and>
        (\<forall>u. rep = Inr u \<longrightarrow> r = Ret True) \<and>
        (\<forall>e. rep = Inl e \<and> connection_error e \<longrightarrow> r = Ret False))"
  unfolding only_emits_def safe_hset_def
  by (auto simp: wp_rules split: sum.splits option.splits)

lemma safe_xack_emits:
  "only_emits (safe_xack env mid)
     (\<lambda>r evs. \<exists>st g rep. evs = [Ev_XAck st g mid rep] \<and> r \<noteq> Hang \<and>
        (\<forall>e. rep = Inl e \<and> \<not> connection_error e \<longrightarrow> r = Raise e) \<and>
        (\<forall>u. rep = Inr u \<longrightarrow> r = Ret True) \<and>
        (\<forall>e. rep = Inl e \<and> connection_error e \<longrightarrow> r = Ret False))"
  unfolding only_emits_def safe_xack_def
  by (auto simp: wp_rules split: sum.splits option.splits)

lemma has_cancel_signal_emits:
  "only_emits (has_cancel_signal env job)
     (\<lambda>r evs. (\<exists>v. evs = [Ev_Get (cancel_key job) (Inr v)] \<and> r = Ret (v \<noteq> None))
        \<or> (\<exists>e. evs = [Ev_Get (cancel_key job) (Inl e)] \<and> r = Raise e))"
  unfolding only_emits_def has_cancel_signal_def
  by (auto simp: wp_rules split: sum.splits option.splits)

lemma get_job_status_emits:
  "only_emits (get_job_status env job)
     (\<lambda>r evs. \<exists>rep. evs = [Ev_HGet (status_key job) ''state'' rep] \<and> r \<noteq> Hang)"
  unfolding only_emits_def get_job_status_def
  by (auto simp: wp_rules split: sum.splits option.splits)

lemma mark_job_cancelled_emits:
  "only_emits (mark_job_cancelled env job mid)
     (\<lambda>r evs. \<exists>h rep. evs = [Ev_HSet (status_key job) h rep] \<and> map_of h ''state'' = Some ''cancelled''
        \<and> r \<noteq> Hang \<and> ((\<forall>e. rep = Inl e \<longrightarrow> connection_error e) \<longrightarrow> r = Ret ()))"
  unfolding only_emits_def mark_job_cancelled_def now_iso_def safe_hset_def
  by (auto simp: wp_rules split: sum.splits option.splits)

lemma request_runner_cancel_emits:
  "only_emits (request_runner_cancel env job)
     (\<lambda>r evs. list_all (\<lambda>ev. \<exists>rep. ev = Ev_CancelHook rep) evs \<and> r \<noteq> Hang \<and>
        (\<forall>e. r = Raise e \<longrightarrow> \<not> is_exception e))"
proof (cases "e_cancel_hook env")
  case None
  then show ?thesis by (auto simp: request_runner_cancel_def intro: only_emits_ret)
next
  case (Some hook)
  then show ?thesis
    unfolding only_emits_def request_runner_cancel_def
    by (auto simp: wp_rules split: sum.splits option.splits)
qed


section \<open>Running a job\<close>

text \<open>
  How a run ends: with a result that the executor returned and no cancellation seen; by an
  exception, which is the cancellation exception (or one that is no \<^verbatim>\<open>Exception\<close> at all) if a
  cancellation was seen; or not yet.
\<close>

definition run_shape ::
    "string \<Rightarrow> native_gate_ir \<Rightarrow> int \<Rightarrow> execution_result outcome \<Rightarrow> event list \<Rightarrow> bool" where
  "run_shape job ir shots r evs =
     (list_all (poll_event job ir shots) evs \<and>
      (case r of
         Ret x \<Rightarrow> Ev_RunAwait ir shots (Inr x) \<in> set evs \<and> \<not> list_ex (cancel_seen job) evs
       | Raise e \<Rightarrow> list_ex (cancel_seen job) evs \<longrightarrow>
           catches [JobCancelledWhileExecuting] e \<or> \<not> is_exception e
       | Hang \<Rightarrow> \<not> list_ex (cancel_seen job) evs))"

lemma catches_JobCancelled [simp]: "catches [JobCancelledWhileExecuting] JobCancelled"
  by (simp add: JobCancelled_def)

lemma wp_log_event [wp_rules]: "wp (log_event ev) Q s = Q (Ret ()) (emits [ev] s)"
  by (simp add: log_event_def wp_rules)

lemma log_event_emits: "only_emits (log_event ev) (\<lambda>r evs. r = Ret () \<and> evs = [ev])"
  by (simp add: only_emits_def wp_log_event)

lemma cancel_running_job_emits:
  "only_emits (cancel_running_job env job)
     (\<lambda>r evs. list_all (poll_event job ir shots) evs \<and>
        (\<exists>e. r = Raise e \<and> (catches [JobCancelledWhileExecuting] e \<or> \<not> is_exception e)))"
proof -
  let ?T = "\<lambda>r evs. list_all (poll_event job ir shots) evs \<and>
        (\<exists>e. r = Raise e \<and> (catches [JobCancelledWhileExecuting] e \<or> \<not> is_exception e))"
  have rest: "only_emits (then_p (log_event Ev_RunTaskCancel)
       (then_p (try_except (then_p (call (e_run_cancelled env) Ev_RunCancelled) (ret ()))
                 (\<lambda>e. if catches [CancelledError] e \<or> is_exception e then Some (ret ()) else None))
         (raise JobCancelled))) ?T"
    unfolding only_emits_def
    by (auto simp: wp_rules split: sum.splits option.splits)
  show ?thesis unfolding cancel_running_job_def then_p_def [of "request_runner_cancel env job"]
    by (rule only_emits_bind [OF request_runner_cancel_emits rest])
      (auto simp: list_all_iff)
qed

lemma run_polling_emits: "only_emits (run_polling fuel env job ir shots) (run_shape job ir shots)"
proof (induction fuel)
  case 0
  show ?case unfolding only_emits_def
    by (auto simp: wp_rules run_shape_def intro!: exI [of _ "[]"])
next
  case (Suc fuel)
  have done_part: "only_emits
      (bind_p (call (\<lambda>h. e_run env h ir shots) (Ev_RunAwait ir shots)) (\<lambda>result.
         bind_p (has_cancel_signal env job) (\<lambda>cancelled.
           if cancelled then raise JobCancelled else ret result))) (run_shape job ir shots)"
    unfolding only_emits_def has_cancel_signal_def
    by (auto simp: wp_rules run_shape_def split: sum.splits option.splits)
  have wait_part: "only_emits
      (bind_p (has_cancel_signal env job) (\<lambda>cancelled.
           if cancelled then cancel_running_job env job else run_polling fuel env job ir shots))
      (run_shape job ir shots)"
  proof (rule only_emits_bind [OF has_cancel_signal_emits])
    fix c
    show "only_emits (if c then cancel_running_job env job else run_polling fuel env job ir shots)
        (\<lambda>r evs. if c then list_all (poll_event job ir shots) evs \<and>
           (\<exists>e. r = Raise e \<and> (catches [JobCancelledWhileExecuting] e \<or> \<not> is_exception e))
           else run_shape job ir shots r evs)"
      by (cases c) (auto intro: Suc.IH cancel_running_job_emits)
  qed (auto simp: run_shape_def split: outcome.splits if_splits)
  show ?case unfolding run_polling.simps
  proof (rule only_emits_bind [OF only_emits_call])
    fix d
    show "only_emits (if d then
         bind_p (call (\<lambda>h. e_run env h ir shots) (Ev_RunAwait ir shots)) (\<lambda>result.
         bind_p (has_cancel_signal env job) (\<lambda>cancelled.
           if cancelled then raise JobCancelled else ret result))
       else
         bind_p (has_cancel_signal env job) (\<lambda>cancelled.
           if cancelled then cancel_running_job env job
           else run_polling fuel env job ir shots)) (run_shape job ir shots)"
      using done_part wait_part by simp
  qed (auto simp: run_shape_def split: outcome.splits)
qed

lemma run_job_emits:
  "only_emits (run_job_with_cancellation fuel env job ir shots) (run_shape job ir shots)"
proof -
  have "only_emits (try_finally (run_polling fuel env job ir shots) cancel_unless_done)
      (run_shape job ir shots)"
    unfolding only_emits_def wp_try_finally
  proof (intro allI only_emits_wp [OF run_polling_emits])
    fix s r evs
    assume "run_shape job ir shots r evs"
    then show "case r of Hang \<Rightarrow> \<exists>evsa. emits evs s = emits evsa s \<and> run_shape job ir shots Hang evsa
         | _ \<Rightarrow> wp cancel_unless_done (\<lambda>r' s''. case r' of
               Ret _ \<Rightarrow> \<exists>evs. s'' = emits evs s \<and> run_shape job ir shots r evs
             | Raise e \<Rightarrow> \<exists>evs. s'' = emits evs s \<and> run_shape job ir shots (Raise e) evs
             | Hang \<Rightarrow> \<exists>evs. s'' = emits evs s \<and> run_shape job ir shots Hang evs) (emits evs s)"
      by (cases r) (auto simp: cancel_unless_done_def wp_rules run_shape_def)
  qed
  then show ?thesis unfolding run_job_with_cancellation_def then_p_def
    by (rule only_emits_bind [OF log_event_emits])
      (auto simp: run_shape_def split: outcome.splits)
qed


section \<open>Reporting a job\<close>

definition max_deliveries :: "webhook_client \<Rightarrow> nat" where
  "max_deliveries wc = (if 1 \<le> wc_max_retries wc then 1 else 0)"

lemma send_result_emits:
  "only_emits (send_result env wc url p)
     (\<lambda>r evs. r \<noteq> Hang \<and> list_all (delivery_event url (to_dict p)) evs
        \<and> count_ev is_delivery evs = (case r of Ret _ \<Rightarrow> max_deliveries wc | _ \<Rightarrow> 0))"
proof (cases "1 \<le> wc_max_retries wc")
  case True
  then have n: "0 < nat (wc_max_retries wc)" by simp
  show ?thesis
    unfolding send_result_def post_with_retry_def
    using only_emits_conj [OF webhook_retry.loop_start_delivers [OF n] post_loop_delivery_events]
    by (rule only_emits_mono) (use True in \<open>auto simp: max_deliveries_def split: outcome.splits\<close>)
next
  case False
  then show ?thesis
    unfolding send_result_def post_with_retry_def
    by (auto simp: post_give_up_def max_deliveries_def trace_simps intro!: only_emits_ret)
qed

definition failed_shape ::
    "webhook_client \<Rightarrow> string \<Rightarrow> string \<Rightarrow> exn \<Rightarrow> unit outcome \<Rightarrow> event list \<Rightarrow> bool" where
  "failed_shape wc job url e r evs =
     (r \<noteq> Hang \<and> (\<exists>now rep ps. evs = Ev_HSet (status_key job)
          [(''state'', ''failed''), (''error'', str_take 500 (exn_text e)), (''failed_at'', now)] rep # ps
        \<and> list_all (delivery_event url (to_dict (error_payload job (str_take 500 (exn_text e))))) ps
        \<and> count_ev is_delivery ps \<le> max_deliveries wc))"

lemma wp_try_only_emits:
  assumes "only_emits m \<Phi>"
    and "\<And>x evs. \<Phi> (Ret x) evs \<Longrightarrow> Q (Ret x) (emits evs s)"
    and "\<And>e evs. \<Phi> (Raise e) evs \<Longrightarrow>
          (case h e of None \<Rightarrow> Q (Raise e) (emits evs s) | Some k \<Rightarrow> wp k Q (emits evs s))"
    and "\<And>evs. \<Phi> Hang evs \<Longrightarrow> Q Hang (emits evs s)"
  shows "wp (try_except m h) Q s"
  unfolding wp_try_except
proof (rule only_emits_wp [OF assms(1)])
  fix r evs
  assume "\<Phi> r evs"
  then show "case r of Raise e \<Rightarrow> (case h e of None \<Rightarrow> Q (Raise e) (emits evs s) | Some k \<Rightarrow> wp k Q (emits evs s))
      | Ret x \<Rightarrow> Q (Ret x) (emits evs s) | Hang \<Rightarrow> Q Hang (emits evs s)"
    using assms(2-4) by (cases r) auto
qed

lemma job_failed_wp:
  "wp (job_failed env job url e) (\<lambda>r s'. \<exists>evs. s' = emits evs s \<and> failed_shape (c_webhook s) job url e r evs) s"
proof -
  let ?h = "\<lambda>now. [(''state'', ''failed''), (''error'', str_take 500 (exn_text e)), (''failed_at'', now)]"
  have send: "wp (try_except (send_error env (c_webhook s) url job (str_take 500 (exn_text e)))
          (\<lambda>e'. if is_exception e' then Some (ret ()) else None))
      (\<lambda>r s'. \<exists>evs. s' = emits evs s \<and> failed_shape (c_webhook s) job url e r evs)
      (emits [Ev_HSet (status_key job) (?h now) rep] s)" for now rep
    unfolding send_error_def
    by (rule wp_try_only_emits [OF send_result_emits]) (auto simp: wp_rules failed_shape_def trace_simps)
  have cw: "c_webhook (emits evs s) = c_webhook s" for evs by (simp add: emits_def)
  show ?thesis
    unfolding job_failed_def now_iso_def safe_hset_def
    using send by (auto simp: wp_rules cw failed_shape_def trace_simps split: sum.splits option.splits)
qed

lemma emits_fields [simp]:
  "c_webhook (emits evs s) = c_webhook s" "c_qpu_id (emits evs s) = c_qpu_id s"
  "c_stream (emits evs s) = c_stream s" "c_group (emits evs s) = c_group s"
  "c_idle (emits evs s) = c_idle s" "c_current_job (emits evs s) = c_current_job s"
  "c_last_job_at (emits evs s) = c_last_job_at s" "c_can_batch (emits evs s) = c_can_batch s"
  "c_pending_delivery (emits evs s) = c_pending_delivery s" "c_running (emits evs s) = c_running s"
  "c_redis_healthy (emits evs s) = c_redis_healthy s" "l_failures (emits evs s) = l_failures s"
  "l_last_check (emits evs s) = l_last_check s" "c_consumer_name (emits evs s) = c_consumer_name s"
  by (simp_all add: emits_def)

text \<open>
  \<open>job_state evs i j l s\<close>: the state after the events \<open>evs\<close>, with the idle flag, the current
  job and the time of the last job as given: all that processing a job changes.
\<close>

definition job_state ::
    "event list \<Rightarrow> bool \<Rightarrow> string option \<Rightarrow> string option \<Rightarrow> consumer \<Rightarrow> consumer" where
  "job_state evs i j l s =
     s\<lparr>trace := trace s @ evs, c_idle := i, c_current_job := j, c_last_job_at := l\<rparr>"

lemma job_state_fields [simp]:
  "trace (job_state evs i j l s) = trace s @ evs" "c_idle (job_state evs i j l s) = i"
  "c_current_job (job_state evs i j l s) = j" "c_last_job_at (job_state evs i j l s) = l"
  "c_webhook (job_state evs i j l s) = c_webhook s" "c_qpu_id (job_state evs i j l s) = c_qpu_id s"
  "c_pending_delivery (job_state evs i j l s) = c_pending_delivery s"
  "c_running (job_state evs i j l s) = c_running s"
  "c_redis_healthy (job_state evs i j l s) = c_redis_healthy s"
  "c_can_batch (job_state evs i j l s) = c_can_batch s"
  "l_failures (job_state evs i j l s) = l_failures s"
  "l_last_check (job_state evs i j l s) = l_last_check s"
  by (simp_all add: job_state_def)

lemma job_state_steps [simp]:
  "emits evs' (job_state evs i j l s) = job_state (evs @ evs') i j l s"
  "job_state evs' i' j' l' (job_state evs i j l s) = job_state (evs @ evs') i' j' l' s"
  "job_state evs' i j l (emits evs s) = job_state (evs @ evs') i j l s"
  "(job_state evs i j l s)\<lparr>c_idle := i'\<rparr> = job_state evs i' j l s"
  "(job_state evs i j l s)\<lparr>c_current_job := j'\<rparr> = job_state evs i j' l s"
  "(job_state evs i j l s)\<lparr>c_last_job_at := l'\<rparr> = job_state evs i j l' s"
  by (cases s; simp add: job_state_def emits_def)+

lemma job_state_emits: "emits evs s = job_state evs (c_idle s) (c_current_job s) (c_last_job_at s) s"
  by (cases s) (simp add: job_state_def emits_def)

lemma job_state_last: "(emits evs s)\<lparr>c_last_job_at := l\<rparr> = job_state evs (c_idle s) (c_current_job s) l s"
  by (cases s) (simp add: job_state_def emits_def)

lemma job_state_start:
  "s\<lparr>c_idle := i, c_current_job := j\<rparr> = job_state [] i j (c_last_job_at s) s"
  by (cases s) (simp add: job_state_def)

text \<open>The handler runs after a body that saw no cancellation, or marks the job cancelled.\<close>

definition handler_shape ::
    "webhook_client \<Rightarrow> message_id \<Rightarrow> string \<Rightarrow> string \<Rightarrow> exn \<Rightarrow> unit outcome \<Rightarrow> event list \<Rightarrow> bool" where
  "handler_shape wc mid job url e r evs =
     (r \<noteq> Hang \<and>
      ((\<exists>e'. evs = [Ev_Get (cancel_key job) (Inl e')] \<and> r = Raise e' \<and> \<not> catches [JobCancelledWhileExecuting] e)
       \<or> (\<exists>pre h rep. evs = pre @ [Ev_HSet (status_key job) h rep] \<and> map_of h ''state'' = Some ''cancelled''
            \<and> (pre = [] \<or> (\<exists>v. pre = [Ev_Get (cancel_key job) (Inr (Some v))])))
       \<or> (\<exists>fs. evs = Ev_Get (cancel_key job) (Inr None) # fs \<and> failed_shape wc job url e r fs
            \<and> \<not> catches [JobCancelledWhileExecuting] e)))"

lemma job_handler_wp:
  assumes "job_handler env mid job url e = Some k"
  shows "wp k (\<lambda>r s'. \<exists>evs. s' = emits evs s \<and> handler_shape (c_webhook s) mid job url e r evs) s"
proof -
  have mark: "wp (mark_job_cancelled env job mid)
      (\<lambda>r s'. \<exists>evs. s' = emits evs s \<and> handler_shape (c_webhook s) mid job url e r evs) (emits pre s)"
    if "pre = [] \<or> (\<exists>v. pre = [Ev_Get (cancel_key job) (Inr (Some v))])" for pre
    using that by (intro only_emits_wp [OF mark_job_cancelled_emits]) (auto simp: handler_shape_def)
  have fail: "wp (job_failed env job url e)
      (\<lambda>r s'. \<exists>evs. s' = emits evs s \<and> handler_shape (c_webhook s) mid job url e r evs)
      (emits [Ev_Get (cancel_key job) (Inr None)] s)" if "\<not> catches [JobCancelledWhileExecuting] e"
    using that
    by (intro wp_mono [OF job_failed_wp]) (auto simp: handler_shape_def failed_shape_def)
  show ?thesis
    using assms mark [of "[]"] mark fail
    by (auto simp: job_handler_def has_cancel_signal_def wp_rules handler_shape_def
        split: if_splits sum.splits option.splits)
qed


section \<open>The body of a job\<close>

text \<open>
  Either nothing was posted and the body did not return; or the run returned a result, the
  status \<open>completed\<close> was written, a last look found no cancellation, and then the result
  and nothing else was posted.
\<close>

fun is_xack :: "event \<Rightarrow> bool" where
  "is_xack (Ev_XAck _ _ _ _) = True"
| "is_xack _ = False"

definition silent_shape :: "string \<Rightarrow> unit outcome \<Rightarrow> event list \<Rightarrow> bool" where
  "silent_shape job r evs =
     (list_all (\<lambda>ev. \<not> is_post ev \<and> \<not> is_xack ev) evs \<and> r \<noteq> Ret () \<and>
      status_writes evs \<in> {[], [(status_key job, Some ''completed'')]} \<and>
      (list_ex (cancel_seen job) evs \<longrightarrow>
         (\<exists>e. r = Raise e \<and> (catches [JobCancelledWhileExecuting] e \<or> \<not> is_exception e))))"

definition reported_shape ::
    "env \<Rightarrow> webhook_client \<Rightarrow> hash \<Rightarrow> string \<Rightarrow> string \<Rightarrow> unit outcome \<Rightarrow> event list \<Rightarrow> bool" where
  "reported_shape env wc d job url r evs =
     (\<exists>ir shots x pre now rep ps.
        parse_job env d = Inr (ir, shots)
        \<and> evs = pre @ [Ev_HSet (status_key job) [(''state'', ''completed''), (''completed_at'', now)] rep,
                     Ev_Get (cancel_key job) (Inr None)] @ ps
        \<and> list_all (poll_event job ir shots) pre \<and> Ev_RunAwait ir shots (Inr x) \<in> set pre
        \<and> \<not> list_ex (cancel_seen job) pre
        \<and> list_all (delivery_event url (to_dict (result_payload job x))) ps
        \<and> r \<noteq> Hang \<and> count_ev is_delivery ps = (case r of Ret _ \<Rightarrow> max_deliveries wc | _ \<Rightarrow> 0))"

definition body_shape ::
    "env \<Rightarrow> webhook_client \<Rightarrow> hash \<Rightarrow> string \<Rightarrow> string \<Rightarrow> unit outcome \<Rightarrow> event list \<Rightarrow> bool" where
  "body_shape env wc d job url r evs = (silent_shape job r evs \<or> reported_shape env wc d job url r evs)"

lemma poll_event_silent: "poll_event job ir shots ev \<Longrightarrow> \<not> is_post ev \<and> \<not> is_xack ev"
  by (cases ev) auto

lemma poll_events_silent:
  "list_all (poll_event job ir shots) evs \<Longrightarrow> list_all (\<lambda>ev. \<not> is_post ev \<and> \<not> is_xack ev) evs"
  by (auto simp: list_all_iff poll_event_silent)

text \<open>The post-condition of the body: only the trace and \<open>last_job_at\<close> change.\<close>

definition body_post ::
    "env \<Rightarrow> hash \<Rightarrow> string \<Rightarrow> string \<Rightarrow> consumer \<Rightarrow> unit outcome \<Rightarrow> consumer \<Rightarrow> bool" where
  "body_post env d job url s r s' =
     (\<exists>evs l. s' = job_state evs (c_idle s) (c_current_job s) l s \<and> body_shape env (c_webhook s) d job url r evs
        \<and> (r = Ret () \<or> l = c_last_job_at s))"

lemma body_postI:
  "body_shape env (c_webhook s) d job url r evs \<Longrightarrow> body_post env d job url s r (emits evs s)"
  unfolding body_post_def by (rule exI [of _ evs], rule exI [of _ "c_last_job_at s"]) (simp add: job_state_emits)

lemma silent_postI:
  "silent_shape job r evs \<Longrightarrow> body_post env d job url s r (emits evs s)"
  by (rule body_postI) (simp add: body_shape_def)

lemma send_report_wp:
  assumes parsed: "parse_job env d = Inr (ir, shots)"
    and pre: "list_all (poll_event job ir shots) pre" "Ev_RunAwait ir shots (Inr x) \<in> set pre"
      "\<not> list_ex (cancel_seen job) pre"
    and t: "t = emits (pre @ [Ev_HSet (status_key job) [(''state'', ''completed''), (''completed_at'', now)] rep,
         Ev_Get (cancel_key job) (Inr None)]) s"
  shows "wp (then_p (send_result env (c_webhook s) url (result_payload job x))
           (bind_p (now_iso env) (\<lambda>now. modify_p (\<lambda>s. s\<lparr>c_last_job_at := Some now\<rparr>))))
      (body_post env d job url s) t"
  unfolding wp_then
proof (rule only_emits_wp [OF send_result_emits])
  fix r :: "unit outcome" and ps
  assume ps: "r \<noteq> Hang \<and> list_all (delivery_event url (to_dict (result_payload job x))) ps
        \<and> count_ev is_delivery ps = (case r of Ret _ \<Rightarrow> max_deliveries (c_webhook s) | _ \<Rightarrow> 0)"
  let ?evs = "pre @ [Ev_HSet (status_key job) [(''state'', ''completed''), (''completed_at'', now)] rep,
         Ev_Get (cancel_key job) (Inr None)] @ ps"
  have shape: "body_shape env (c_webhook s) d job url r ?evs"
    unfolding body_shape_def reported_shape_def using parsed pre ps by blast
  show "case r of Ret u \<Rightarrow> wp (bind_p (now_iso env) (\<lambda>now. modify_p (\<lambda>s. s\<lparr>c_last_job_at := Some now\<rparr>)))
          (body_post env d job url s) (emits ps t)
      | Raise e \<Rightarrow> body_post env d job url s (Raise e) (emits ps t)
      | Hang \<Rightarrow> body_post env d job url s Hang (emits ps t)"
  proof (cases r)
    case (Ret u)
    with shape t show ?thesis
      by (auto simp: now_iso_def wp_rules body_post_def job_state_last)
  next
    case (Raise e)
    with shape t body_postI [of env s d job url "Raise e" ?evs] show ?thesis by simp
  qed (use ps in simp)
qed

lemma job_report_wp:
  assumes parsed: "parse_job env d = Inr (ir, shots)"
    and run: "run_shape job ir shots (Ret x) pre"
  shows "wp (job_report env job url x) (body_post env d job url s) (emits pre s)"
proof -
  have pre: "list_all (poll_event job ir shots) pre" "Ev_RunAwait ir shots (Inr x) \<in> set pre"
    "\<not> list_ex (cancel_seen job) pre" "list_all (\<lambda>ev. \<not> is_post ev \<and> \<not> is_xack ev) pre"
    "status_writes pre = []"
    using run by (auto simp: run_shape_def poll_events_silent poll_events_no_status)
  let ?h = "\<lambda>now. [(''state'', ''completed''), (''completed_at'', now)]"
  have pre2: "list_all (poll_event job ir shots) (pre @ [Ev_Get (cancel_key job) (Inr None)])"
    "Ev_RunAwait ir shots (Inr x) \<in> set (pre @ [Ev_Get (cancel_key job) (Inr None)])"
    "\<not> list_ex (cancel_seen job) (pre @ [Ev_Get (cancel_key job) (Inr None)])"
    using pre by auto
  note send = send_report_wp [OF parsed pre2 refl, where s = s and url = url]
  note silent = silent_postI [where s = s and env = env and d = d and url = url]
  show ?thesis
    unfolding job_report_def now_iso_def [of env] has_cancel_signal_def safe_hset_def
    using send [unfolded now_iso_def, simplified] pre silent
    by (auto simp: wp_rules silent_shape_def trace_simps split: sum.splits option.splits)
qed

lemma job_body_wp: "wp (job_body fuel env d job url) (body_post env d job url s) s"
proof (cases "parse_job env d")
  case (Inl e)
  then show ?thesis
    using silent_postI [of job "Raise e" "[]" env d url s]
    by (simp add: job_body_def wp_rules silent_shape_def trace_simps)
next
  case (Inr p)
  obtain ir shots where p: "p = (ir, shots)" by force
  have "wp (bind_p (run_job_with_cancellation fuel env job ir shots) (job_report env job url))
      (body_post env d job url s) s"
    unfolding wp_bind
  proof (rule only_emits_wp [OF run_job_emits])
    fix r evs
    assume r: "run_shape job ir shots r evs"
    show "case r of Ret x \<Rightarrow> wp (job_report env job url x) (body_post env d job url s) (emits evs s)
        | Raise e \<Rightarrow> body_post env d job url s (Raise e) (emits evs s)
        | Hang \<Rightarrow> body_post env d job url s Hang (emits evs s)"
      using r job_report_wp [of env d ir shots job _ evs url s] Inr p
      by (cases r) (auto simp: run_shape_def silent_shape_def poll_events_silent poll_events_no_status intro!: silent_postI)
  qed
  then show ?thesis using Inr p by (simp add: job_body_def wp_rules)
qed


section \<open>A whole job\<close>

definition job_events ::
    "env \<Rightarrow> webhook_client \<Rightarrow> message_id \<Rightarrow> hash \<Rightarrow> string \<Rightarrow> string \<Rightarrow> unit outcome \<Rightarrow> event list \<Rightarrow> bool" where
  "job_events env wc mid d job url r evs =
     (body_shape env wc d job url r evs \<and> (\<forall>e. r = Raise e \<longrightarrow> \<not> is_exception e)
      \<or> (\<exists>e b h. evs = b @ h \<and> body_shape env wc d job url (Raise e) b \<and> is_exception e
           \<and> handler_shape wc mid job url e r h))"

lemma job_cancelled_is_exception: "catches [JobCancelledWhileExecuting] e \<Longrightarrow> is_exception e"
  by (cases "exn_class_of e") (auto simp: is_exception_iff catches_def mro.simps)

lemma job_handler_None: "job_handler env mid job url e = None \<longleftrightarrow> \<not> is_exception e"
  using job_cancelled_is_exception by (auto simp: job_handler_def)

lemma job_try_wp:
  "wp (try_except (job_body fuel env d job url) (job_handler env mid job url))
     (\<lambda>r s'. \<exists>evs l. s' = job_state evs (c_idle s) (c_current_job s) l s \<and> job_events env (c_webhook s) mid d job url r evs) s"
  unfolding wp_try_except
proof (rule wp_mono [OF job_body_wp])
  fix r s'
  assume "body_post env d job url s r s'"
  then obtain b l where s': "s' = job_state b (c_idle s) (c_current_job s) l s"
    and b: "body_shape env (c_webhook s) d job url r b" by (auto simp: body_post_def)
  let ?Q = "\<lambda>r s'. \<exists>evs l. s' = job_state evs (c_idle s) (c_current_job s) l s \<and> job_events env (c_webhook s) mid d job url r evs"
  show "case r of Raise e \<Rightarrow> (case job_handler env mid job url e of
            None \<Rightarrow> ?Q (Raise e) s' | Some k \<Rightarrow> wp k ?Q s')
      | Ret x \<Rightarrow> ?Q (Ret x) s' | Hang \<Rightarrow> ?Q Hang s'"
  proof (cases r)
    case (Raise e)
    show ?thesis
    proof (cases "job_handler env mid job url e")
      case None
      then have "\<not> is_exception e" by (simp add: job_handler_None)
      with None Raise b s' show ?thesis by (auto simp: job_events_def)
    next
      case (Some k)
      have "wp k ?Q s'"
      proof (rule wp_mono [OF job_handler_wp [OF Some]])
        fix r' s''
        assume "\<exists>h. s'' = emits h s' \<and> handler_shape (c_webhook s') mid job url e r' h"
        then obtain h where "s'' = job_state (b @ h) (c_idle s) (c_current_job s) l s"
          "handler_shape (c_webhook s) mid job url e r' h"
          by (auto simp: s')
        with b Raise Some show "?Q r' s''"
          by (auto simp: job_events_def) (metis job_handler_None option.distinct(1))
      qed
      with Raise Some show ?thesis by simp
    qed
  qed (use b s' in \<open>auto simp: job_events_def\<close>)
qed

text \<open>What the events of a job have in common, however it ends.\<close>

lemma delivery_events_facts:
  assumes "list_all (delivery_event url bd) ps"
  shows "list_all (\<lambda>ev. \<not> is_xack ev) ps" "\<not> list_ex (cancel_seen job) ps"
proof -
  have "delivery_event url bd ev \<Longrightarrow> \<not> is_xack ev" for ev by (cases ev) auto
  with assms show "list_all (\<lambda>ev. \<not> is_xack ev) ps" by (auto simp: list_all_iff)
qed (use assms list_ex_delivery_event in blast)

lemma no_occurs_before_left: "\<not> list_ex p xs \<Longrightarrow> \<not> occurs_before p q xs"
  by (induction xs) auto

lemma no_occurs_before_right: "\<not> list_ex q xs \<Longrightarrow> \<not> occurs_before p q xs"
  by (induction xs) auto

lemma silent_no_post:
  assumes "list_all (\<lambda>ev. \<not> is_post ev \<and> \<not> is_xack ev) evs"
  shows "\<not> list_ex is_post evs" "list_all (\<lambda>ev. \<not> is_xack ev) evs" "count_ev is_delivery evs = 0"
proof -
  have "is_delivery ev \<Longrightarrow> is_post ev" for ev by (cases ev) auto
  with assms show "count_ev is_delivery evs = 0" by (auto simp: count_ev_0_iff list_all_iff list_ex_iff)
qed (use assms in \<open>auto simp: list_all_iff list_ex_iff\<close>)

definition job_facts :: "string \<Rightarrow> event list \<Rightarrow> bool" where
  "job_facts job evs =
     (list_all (\<lambda>ev. \<not> is_xack ev) evs \<and> \<not> occurs_before (cancel_seen job) is_post evs
      \<and> count_ev is_delivery evs \<le> 1)"

lemma body_shape_facts:
  assumes "body_shape env wc d job url r evs"
  shows "job_facts job evs"
    and "r = Raise e \<Longrightarrow> count_ev is_delivery evs = 0"
    and "r = Raise e \<Longrightarrow> is_exception e \<Longrightarrow> \<not> catches [JobCancelledWhileExecuting] e \<Longrightarrow>
      \<not> list_ex (cancel_seen job) evs"
proof -
  have "job_facts job evs \<and> (r = Raise e \<longrightarrow> count_ev is_delivery evs = 0) \<and>
      (r = Raise e \<and> is_exception e \<and> \<not> catches [JobCancelledWhileExecuting] e \<longrightarrow>
         \<not> list_ex (cancel_seen job) evs)"
    using assms unfolding body_shape_def
  proof
    assume s: "silent_shape job r evs"
    then show ?thesis
      using silent_no_post [of evs] no_occurs_before_right
      by (auto simp: silent_shape_def job_facts_def)
  next
    assume "reported_shape env wc d job url r evs"
    then obtain ir shots x pre now rep ps where
      evs: "evs = pre @ [Ev_HSet (status_key job) [(''state'', ''completed''), (''completed_at'', now)] rep,
                     Ev_Get (cancel_key job) (Inr None)] @ ps"
      and pre: "list_all (poll_event job ir shots) pre" "\<not> list_ex (cancel_seen job) pre"
      and ps: "list_all (delivery_event url (to_dict (result_payload job x))) ps"
      and n: "count_ev is_delivery ps = (case r of Ret _ \<Rightarrow> max_deliveries wc | _ \<Rightarrow> 0)"
      unfolding reported_shape_def by blast
    have nc: "\<not> list_ex (cancel_seen job) evs" using evs pre ps delivery_events_facts by auto
    have nx: "list_all (\<lambda>ev. \<not> is_xack ev) evs"
      using evs silent_no_post(2) [OF poll_events_silent [OF pre(1)]] delivery_events_facts(1) [OF ps] by auto
    have nd: "count_ev is_delivery evs = count_ev is_delivery ps"
      using evs silent_no_post(3) [OF poll_events_silent [OF pre(1)]] by (simp add: trace_simps)
    show ?thesis
      using nc nx nd n no_occurs_before_left [OF nc]
      by (auto simp: job_facts_def max_deliveries_def split: outcome.splits)
  qed
  then show "job_facts job evs"
    and "r = Raise e \<Longrightarrow> count_ev is_delivery evs = 0"
    and "r = Raise e \<Longrightarrow> is_exception e \<Longrightarrow> \<not> catches [JobCancelledWhileExecuting] e \<Longrightarrow>
      \<not> list_ex (cancel_seen job) evs" by blast+
qed

lemma handler_shape_facts:
  assumes "handler_shape wc mid job url e r evs"
  shows "job_facts job evs"
    and "catches [JobCancelledWhileExecuting] e \<Longrightarrow> \<not> list_ex is_post evs"
proof -
  have "job_facts job evs \<and> (catches [JobCancelledWhileExecuting] e \<longrightarrow> \<not> list_ex is_post evs)"
    using assms unfolding handler_shape_def
  proof (elim conjE disjE exE)
    fix fs
    assume fs: "evs = Ev_Get (cancel_key job) (Inr None) # fs" "failed_shape wc job url e r fs"
      "\<not> catches [JobCancelledWhileExecuting] e"
    then obtain now rep ps where ps: "fs = Ev_HSet (status_key job)
          [(''state'', ''failed''), (''error'', str_take 500 (exn_text e)), (''failed_at'', now)] rep # ps"
      "list_all (delivery_event url (to_dict (error_payload job (str_take 500 (exn_text e))))) ps"
      "count_ev is_delivery ps \<le> 1"
      by (auto simp: failed_shape_def max_deliveries_def split: if_splits)
    have "\<not> list_ex (cancel_seen job) evs" using fs(1) ps delivery_events_facts(2) by auto
    then show ?thesis using fs ps delivery_events_facts(1) [OF ps(2)] no_occurs_before_left
      by (auto simp: job_facts_def trace_simps)
  qed (auto simp: job_facts_def trace_simps)
  then show "job_facts job evs"
    and "catches [JobCancelledWhileExecuting] e \<Longrightarrow> \<not> list_ex is_post evs" by blast+
qed

lemma job_events_facts: "job_events env wc mid d job url r evs \<Longrightarrow> job_facts job evs"
  unfolding job_events_def
proof (elim disjE conjE exE)
  fix e b h
  assume evs: "evs = b @ h" and b: "body_shape env wc d job url (Raise e) b" and e: "is_exception e"
    and h: "handler_shape wc mid job url e r h"
  have "\<not> (list_ex (cancel_seen job) b \<and> list_ex is_post h)"
    using body_shape_facts(3) [OF b refl e] handler_shape_facts(2) [OF h] by blast
  then show ?thesis
    using evs body_shape_facts(1,2) [OF b] handler_shape_facts(1) [OF h]
    by (auto simp: job_facts_def trace_simps)
qed (use body_shape_facts in blast)


section \<open>Processing a message\<close>

text \<open>
  The three ways \<open>execute_job\<close> ends. \<open>Stuck_Write\<close>: the write of \<open>executing\<close>, which precedes the
  \<^verbatim>\<open>try\<close>, raised something other than a connection error. \<open>Still_Running\<close>: the run has not
  ended. \<open>Cleaned_Up\<close>: the \<^verbatim>\<open>finally\<close> block ran, and its \<^verbatim>\<open>XACK\<close> is the last call.
\<close>

definition executing_write :: "message_id \<Rightarrow> string \<Rightarrow> event \<Rightarrow> bool" where
  "executing_write mid job ev =
     (\<exists>now q rep. ev = Ev_HSet (status_key job)
        [(''state'', ''executing''), (''started_at'', now), (''message_id'', mid), (''qpu_id'', q)] rep)"

fun event_error :: "event \<Rightarrow> exn option" where
  "event_error (Ev_HSet _ _ (Inl e)) = Some e"
| "event_error (Ev_XAck _ _ _ (Inl e)) = Some e"
| "event_error _ = None"

definition write_survived :: "event \<Rightarrow> bool" where
  "write_survived ev = (\<forall>e. event_error ev = Some e \<longrightarrow> connection_error e)"

definition stuck_write ::
    "message_id \<Rightarrow> string \<Rightarrow> consumer \<Rightarrow> unit outcome \<Rightarrow> consumer \<Rightarrow> bool" where
  "stuck_write mid job s r s' =
     (\<exists>ev e. executing_write mid job ev \<and> event_error ev = Some e \<and> \<not> connection_error e
        \<and> r = Raise e \<and> s' = job_state [ev] False (Some job) (c_last_job_at s) s)"

definition still_running ::
    "env \<Rightarrow> message_id \<Rightarrow> hash \<Rightarrow> string \<Rightarrow> string \<Rightarrow> consumer \<Rightarrow> unit outcome \<Rightarrow> consumer \<Rightarrow> bool" where
  "still_running env mid d job url s r s' =
     (\<exists>ev evs l. executing_write mid job ev \<and> write_survived ev \<and> r = Hang
        \<and> job_events env (c_webhook s) mid d job url Hang evs
        \<and> s' = job_state (ev # evs) False (Some job) l s)"

definition cleaned_up ::
    "env \<Rightarrow> message_id \<Rightarrow> hash \<Rightarrow> string \<Rightarrow> string \<Rightarrow> consumer \<Rightarrow> unit outcome \<Rightarrow> consumer \<Rightarrow> bool" where
  "cleaned_up env mid d job url s r s' =
     (\<exists>ev evs ack l r0. executing_write mid job ev \<and> write_survived ev \<and> is_ack mid ack \<and> r0 \<noteq> Hang
        \<and> job_events env (c_webhook s) mid d job url r0 evs
        \<and> (if write_survived ack
           then r = r0 \<and> s' = job_state (ev # evs @ [ack]) True None l s
           else (\<exists>e. r = Raise e)
             \<and> s' = job_state (ev # evs @ [ack]) False (Some job) l s))"

lemma job_cleanup_wp:
  "wp (job_cleanup env mid)
     (\<lambda>r s'. let ack = Ev_XAck (c_stream s) (c_group s) mid (e_xack env (trace s) mid) in
        (if write_survived ack then r = Ret () \<and> s' = job_state [ack] True None (c_last_job_at s) s
         else (\<exists>e. r = Raise e) \<and> s' = emits [ack] s)) s"
proof -
  have upd: "(emits evs s)\<lparr>c_current_job := None, c_idle := True\<rparr> = job_state evs True None (c_last_job_at s) s" for evs
    by (cases s) (simp add: job_state_def emits_def)
  show ?thesis
    unfolding job_cleanup_def safe_xack_def Let_def
    by (cases "e_xack env (trace s) mid") (simp_all add: wp_rules write_survived_def upd)
qed

lemma execute_job_wp:
  "wp (execute_job fuel env mid d job url)
     (\<lambda>r s'. stuck_write mid job s r s' \<or> still_running env mid d job url s r s'
        \<or> cleaned_up env mid d job url s r s') s"
  (is "wp _ ?Q s")
proof -
  let ?s0 = "job_state [] False (Some job) (c_last_job_at s) s"
  have main: "wp (try_finally (try_except (job_body fuel env d job url) (job_handler env mid job url))
          (job_cleanup env mid)) ?Q (emits [ev] ?s0)"
    if ev: "executing_write mid job ev" "write_survived ev" for ev
    unfolding wp_try_finally
  proof (rule wp_mono [OF job_try_wp])
    fix r s1
    assume "\<exists>evs l. s1 = job_state evs (c_idle (emits [ev] ?s0)) (c_current_job (emits [ev] ?s0)) l (emits [ev] ?s0)
        \<and> job_events env (c_webhook (emits [ev] ?s0)) mid d job url r evs"
    then obtain evs l where s1: "s1 = job_state (ev # evs) False (Some job) l s"
      and je: "job_events env (c_webhook s) mid d job url r evs" by auto
    have fin: "wp (job_cleanup env mid) (\<lambda>r' s''. case r' of
          Ret _ \<Rightarrow> ?Q r s'' | Raise e \<Rightarrow> ?Q (Raise e) s'' | Hang \<Rightarrow> ?Q Hang s'') s1" if "r \<noteq> Hang"
    proof (rule wp_mono [OF job_cleanup_wp])
      fix r' s''
      assume "let ack = Ev_XAck (c_stream s1) (c_group s1) mid (e_xack env (trace s1) mid) in
        (if write_survived ack then r' = Ret () \<and> s'' = job_state [ack] True None (c_last_job_at s1) s1
         else (\<exists>e. r' = Raise e) \<and> s'' = emits [ack] s1)"
      then obtain ack where ack: "is_ack mid ack"
        and a: "if write_survived ack then r' = Ret () \<and> s'' = job_state [ack] True None (c_last_job_at s1) s1
         else (\<exists>e. r' = Raise e) \<and> s'' = emits [ack] s1" unfolding Let_def using is_ack.simps(1) by blast
      have "cleaned_up env mid d job url s (case r' of Ret _ \<Rightarrow> r | Raise e \<Rightarrow> Raise e | Hang \<Rightarrow> Hang) s''"
        unfolding cleaned_up_def
        using ev ack a je that s1
        by (intro exI [of _ ev] exI [of _ evs] exI [of _ ack] exI [of _ l] exI [of _ r])
          (auto split: if_splits)
      then show "case r' of Ret _ \<Rightarrow> ?Q r s'' | Raise e \<Rightarrow> ?Q (Raise e) s'' | Hang \<Rightarrow> ?Q Hang s''"
        by (cases r') auto
    qed
    show "case r of Hang \<Rightarrow> ?Q Hang s1
        | _ \<Rightarrow> wp (job_cleanup env mid) (\<lambda>r' s''. case r' of
          Ret _ \<Rightarrow> ?Q r s'' | Raise e \<Rightarrow> ?Q (Raise e) s'' | Hang \<Rightarrow> ?Q Hang s'') s1"
    proof (cases r)
      case Hang
      with je ev s1 have "still_running env mid d job url s Hang s1"
        unfolding still_running_def by blast
      with Hang show ?thesis by simp
    qed (use fin in auto)
  qed
  have w: "executing_write mid job (Ev_HSet (status_key job)
        [(''state'', ''executing''), (''started_at'', now), (''message_id'', mid), (''qpu_id'', q)] rep)" for now q rep
    by (auto simp: executing_write_def)
  have stuck: "stuck_write mid job s (Raise e) (job_state [Ev_HSet (status_key job)
        [(''state'', ''executing''), (''started_at'', now), (''message_id'', mid), (''qpu_id'', q)] (Inl e)]
        False (Some job) (c_last_job_at s) s)" if "\<not> connection_error e" for e now q
    unfolding stuck_write_def using w that event_error.simps(1) by blast
  show ?thesis
    unfolding execute_job_def now_iso_def safe_hset_def
    using main [OF w] stuck
    by (auto simp: wp_rules write_survived_def job_state_start split: sum.splits option.splits)
qed

text \<open>A message that is acknowledged without running: no webhook, and nothing but the trace changes.\<close>

definition skip_shape :: "message_id \<Rightarrow> string \<Rightarrow> unit outcome \<Rightarrow> event list \<Rightarrow> bool" where
  "skip_shape mid job r evs =
     (\<not> list_ex is_post evs \<and> \<not> list_ex starts_run evs \<and> r \<noteq> Hang
      \<and> status_writes evs \<in> {[], [(status_key job, Some ''cancelled'')]} \<and> count_ev (is_ack mid) evs \<le> 1
      \<and> (r = Ret () \<longrightarrow> evs \<noteq> [] \<and> is_ack mid (last evs) \<and> count_ev (is_ack mid) evs = 1))"

lemma ack_and_return_writes:
  "only_emits (ack_and_return env mid) (\<lambda>r evs. skip_shape mid job r evs \<and> status_writes evs = [])"
  unfolding ack_and_return_def then_p_def
  by (rule only_emits_bind [OF safe_xack_emits only_emits_ret [where \<Phi> = "\<lambda>r evs. r = Ret () \<and> evs = []"]])
    (auto simp: skip_shape_def trace_simps)

lemma ack_and_return_emits: "only_emits (ack_and_return env mid) (skip_shape mid job)"
  by (rule only_emits_mono [OF ack_and_return_writes]) blast

lemma mark_and_ack_emits:
  "only_emits (then_p (mark_job_cancelled env job mid) (ack_and_return env mid)) (skip_shape mid job)"
  unfolding then_p_def
  by (rule only_emits_bind [OF mark_job_cancelled_emits ack_and_return_writes [where job = job]])
    (auto simp: skip_shape_def trace_simps)

lemma skip_shape_prefix: "skip_shape mid job r evs \<Longrightarrow> list_all (\<lambda>ev. \<not> is_post ev \<and> \<not> is_xack ev \<and> status_write ev = None \<and> \<not> starts_run ev) pre \<Longrightarrow> skip_shape mid job r (pre @ evs)"
proof -
  have x: "is_ack mid ev \<Longrightarrow> is_xack ev" for ev by (cases ev) auto
  assume "skip_shape mid job r evs" "list_all (\<lambda>ev. \<not> is_post ev \<and> \<not> is_xack ev \<and> status_write ev = None \<and> \<not> starts_run ev) pre"
  moreover from this(2) have "count_ev (is_ack mid) pre = 0" "\<not> list_ex is_post pre" "\<not> list_ex starts_run pre" "status_writes pre = []"
    using x by (auto simp: count_ev_0_iff list_all_iff list_ex_iff intro!: status_writes_none)
  ultimately show ?thesis
    by (auto simp: skip_shape_def trace_simps)
qed

definition executed ::
    "env \<Rightarrow> message_id \<Rightarrow> hash \<Rightarrow> string \<Rightarrow> string \<Rightarrow> consumer \<Rightarrow> unit outcome \<Rightarrow> consumer \<Rightarrow> bool" where
  "executed env mid d job url s r s' =
     (\<exists>rep. let s1 = emits [Ev_HGet (status_key job) ''state'' rep, Ev_Get (cancel_key job) (Inr None)] s in
        stuck_write mid job s1 r s' \<or> still_running env mid d job url s1 r s'
        \<or> cleaned_up env mid d job url s1 r s')"

lemma process_job_wp:
  "wp (process_job fuel env mid d job url)
     (\<lambda>r s'. (\<exists>evs. s' = emits evs s \<and> skip_shape mid job r evs) \<or> executed env mid d job url s r s') s"
  (is "wp _ ?Q s")
  unfolding process_job_def wp_bind
proof (rule only_emits_wp [OF get_job_status_emits])
  fix r :: "string option outcome" and evs
  assume "\<exists>rep. evs = [Ev_HGet (status_key job) ''state'' rep] \<and> r \<noteq> Hang"
  then obtain rep where evs: "evs = [Ev_HGet (status_key job) ''state'' rep]" and r: "r \<noteq> Hang" by blast
  have skip: "only_emits m (skip_shape mid job) \<Longrightarrow> list_all (\<lambda>ev. \<not> is_post ev \<and> \<not> is_xack ev \<and> status_write ev = None \<and> \<not> starts_run ev) pre
      \<Longrightarrow> wp m ?Q (emits pre s)" for m pre
    by (rule only_emits_wp, assumption) (auto dest: skip_shape_prefix)
  have run: "wp (execute_job fuel env mid d job url) ?Q
      (emits [Ev_HGet (status_key job) ''state'' rep, Ev_Get (cancel_key job) (Inr None)] s)"
    by (rule wp_mono [OF execute_job_wp]) (auto simp: executed_def Let_def)
  have rest: "wp (bind_p (has_cancel_signal env job) (\<lambda>cancelled. if cancelled
         then then_p (mark_job_cancelled env job mid) (ack_and_return env mid)
         else execute_job fuel env mid d job url)) ?Q (emits evs s)"
    unfolding has_cancel_signal_def
    using run skip [OF mark_and_ack_emits] evs
    by (auto simp: wp_rules skip_shape_def trace_simps split: sum.splits)
  show "case r of Ret x \<Rightarrow> wp (if x \<in> {Some ''completed'', Some ''cancelled''} then ack_and_return env mid
           else bind_p (has_cancel_signal env job) (\<lambda>cancelled. if cancelled
             then then_p (mark_job_cancelled env job mid) (ack_and_return env mid)
             else execute_job fuel env mid d job url)) ?Q (emits evs s)
      | Raise e \<Rightarrow> ?Q (Raise e) (emits evs s) | Hang \<Rightarrow> ?Q Hang (emits evs s)"
    using r rest skip [OF ack_and_return_emits, of evs] evs
    by (cases r) (auto simp: skip_shape_def trace_simps)
qed

definition processed ::
    "env \<Rightarrow> message_id \<Rightarrow> fields \<Rightarrow> consumer \<Rightarrow> unit outcome \<Rightarrow> consumer \<Rightarrow> bool" where
  "processed env mid flds s r s' =
     ((\<exists>evs job. s' = emits evs s \<and> skip_shape mid job r evs \<and>
           (status_writes evs \<noteq> [] \<longrightarrow> (\<exists>d. decode_fields flds = Inr d \<and> map_of d ''job_id'' = Some job)))
      \<or> (\<exists>d job url. decode_fields flds = Inr d \<and> map_of d ''job_id'' = Some job
           \<and> map_of d ''callback_url'' = Some url \<and> executed env mid d job url s r s'))"

lemma process_message_wp: "wp (process_message fuel env mid flds) (processed env mid flds s) s"
proof -
  have skip: "wp (ack_and_return env mid) (processed env mid flds s) s"
    by (rule only_emits_wp [OF ack_and_return_writes]) (auto simp: processed_def)
  have run: "wp (process_job fuel env mid d job url) (processed env mid flds s) s"
    if "decode_fields flds = Inr d" "map_of d ''job_id'' = Some job" "map_of d ''callback_url'' = Some url"
    for d job url
    by (rule wp_mono [OF process_job_wp]) (use that in \<open>fastforce simp: processed_def\<close>)
  have "processed env mid flds s (Raise e) s" for e
    unfolding processed_def by (intro disjI1 exI [of _ "[]"]) (simp add: skip_shape_def trace_simps)
  then show ?thesis
    unfolding process_message_def
    using skip run by (auto simp: wp_rules split: sum.splits option.splits)
qed

lemma process_message_processed:
  "process_message fuel env mid flds s = (r, s') \<Longrightarrow> processed env mid flds s r s'"
  by (rule wp_run [OF process_message_wp])

end
