(* ===== verification/Batch.thy ===== *)
theory Batch
  imports Consumer_Facts
begin

text \<open>
  The batch half of \<open>server/consumer.py\<close>: \<open>_process_batch\<close> with its parse phase, its fallback to
  single messages, and the background task that delivers the results concurrently.
  \<open>deliver_single_batch_result\<close> is the coroutine as the source has it; \<open>deliver_step\<close> is the same
  coroutine cut at its \<^verbatim>\<open>await\<close>s, so that several can be interleaved, and the two are proved to
  agree. \<open>task_step i\<close> advances the task by one step of its \<open>i\<close>-th delivery.
\<close>

section \<open>The parse phase\<close>

text \<open>A message that is skipped is acknowledged at once (\<^verbatim>\<open>continue\<close>).\<close>

definition batch_skip :: "env \<Rightarrow> message_id \<Rightarrow> parsed_job option cprog" where
  "batch_skip env message_id = then_p (safe_xack env message_id) (ret None)"

definition batch_parse_ir ::
    "env \<Rightarrow> message_id \<Rightarrow> hash \<Rightarrow> string \<Rightarrow> string \<Rightarrow> parsed_job option cprog" where
  "batch_parse_ir env message_id d job_id callback_url =
     (case parse_job env d of
        Inl e \<Rightarrow> if is_exception e then batch_skip env message_id else raise e
      | Inr (ir, shots) \<Rightarrow>
          ret (Some \<lparr>p_message_id = message_id, p_job_id = job_id, p_callback_url = callback_url,
                     p_ir = ir, p_shots = shots\<rparr>))"

definition batch_parse_job ::
    "env \<Rightarrow> message_id \<Rightarrow> hash \<Rightarrow> string \<Rightarrow> string \<Rightarrow> parsed_job option cprog" where
  "batch_parse_job env message_id d job_id callback_url =
     bind_p (get_job_status env job_id) (\<lambda>status.
       if status \<in> {Some ''completed'', Some ''cancelled''} then batch_skip env message_id
       else bind_p (has_cancel_signal env job_id) (\<lambda>cancelled.
         if cancelled
         then then_p (mark_job_cancelled env job_id message_id) (batch_skip env message_id)
         else batch_parse_ir env message_id d job_id callback_url))"

definition batch_parse_one :: "env \<Rightarrow> message \<Rightarrow> parsed_job option cprog" where
  "batch_parse_one env msg = (case msg of (message_id, flds) \<Rightarrow>
     bind_p (from_sum (decode_fields flds)) (\<lambda>d.
       case map_of d ''job_id'' of
         None \<Rightarrow> batch_skip env message_id
       | Some job_id \<Rightarrow>
          (case map_of d ''callback_url'' of
             None \<Rightarrow> batch_skip env message_id
           | Some callback_url \<Rightarrow> batch_parse_job env message_id d job_id callback_url)))"

fun batch_parse :: "env \<Rightarrow> parsed_job list \<Rightarrow> message list \<Rightarrow> parsed_job list cprog" where
  "batch_parse env parsed [] = ret parsed"
| "batch_parse env parsed (msg # msgs) =
     bind_p (batch_parse_one env msg) (\<lambda>p.
       batch_parse env (case p of None \<Rightarrow> parsed | Some j \<Rightarrow> parsed @ [j]) msgs)"


section \<open>Executing a batch\<close>

definition batch_executing :: "env \<Rightarrow> parsed_job \<Rightarrow> unit cprog" where
  "batch_executing env p =
     bind_p (now_iso env) (\<lambda>now.
     bind_p (get_p c_qpu_id) (\<lambda>qpu_id.
       then_p (safe_hset env (status_key (p_job_id p))
                [(''state'', ''executing''), (''started_at'', now), (''qpu_id'', qpu_id)])
              (ret ())))"

text \<open>Falling back: every message of the batch on its own.\<close>

definition batch_fallback :: "nat \<Rightarrow> env \<Rightarrow> message list \<Rightarrow> delivery_task option cprog" where
  "batch_fallback fuel env msgs =
     then_p (for_p msgs (\<lambda>(message_id, flds). process_message fuel env message_id flds)) (ret None)"

definition batch_dispatch ::
    "nat \<Rightarrow> env \<Rightarrow> message list \<Rightarrow> parsed_job list \<Rightarrow> delivery_task option cprog" where
  "batch_dispatch fuel env msgs parsed =
     (let jobs = map (\<lambda>p. (p_ir p, p_shots p)) parsed in
      case e_batch_run env of
        None \<Rightarrow> batch_fallback fuel env msgs
      | Some batch_run \<Rightarrow>
          bind_p (try_except
                   (bind_p (call (\<lambda>h. batch_run h jobs) (Ev_BatchRun jobs)) (\<lambda>results. ret (Some results)))
                   (\<lambda>e. if is_exception e then Some (ret None) else None))
            (\<lambda>results. case results of
                None \<Rightarrow> batch_fallback fuel env msgs
              | Some results \<Rightarrow> ret (Some (Delivery_Created parsed results))))"

definition process_batch :: "nat \<Rightarrow> env \<Rightarrow> message list \<Rightarrow> delivery_task option cprog" where
  "process_batch fuel env stream_messages =
     bind_p (batch_parse env [] stream_messages) (\<lambda>parsed.
       if parsed = [] then ret None else
       then_p (modify_p (\<lambda>s. s\<lparr>c_idle := False\<rparr>))
        (then_p (for_p parsed (batch_executing env))
          (batch_dispatch fuel env stream_messages parsed)))"


section \<open>Delivering one result\<close>

definition completed_hash :: "string \<Rightarrow> hash" where
  "completed_hash completed_at = [(''state'', ''completed''), (''completed_at'', completed_at)]"

definition deliver_single_batch_result ::
    "env \<Rightarrow> message_id \<Rightarrow> string \<Rightarrow> string \<Rightarrow> execution_result \<Rightarrow> string \<Rightarrow> unit cprog" where
  "deliver_single_batch_result env message_id job_id callback_url result completed_at =
     bind_p (has_cancel_signal env job_id) (\<lambda>cancelled.
       if cancelled
       then then_p (mark_job_cancelled env job_id message_id) (ack_and_return env message_id)
       else then_p (safe_hset env (status_key job_id) (completed_hash completed_at))
        (bind_p (has_cancel_signal env job_id) (\<lambda>cancelled.
          if cancelled
          then then_p (mark_job_cancelled env job_id message_id) (ack_and_return env message_id)
          else bind_p (get_p c_webhook) (\<lambda>wc.
           then_p (try_except (send_result env wc callback_url (result_payload job_id result))
                    (\<lambda>e. if is_exception e then Some (ret ()) else None))
             (ack_and_return env message_id)))))"

subsection \<open>The same, one await at a time\<close>

text \<open>The webhook of a batch result is guarded: its exceptions are logged, not raised.\<close>

definition webhook_guard :: "deliver_pc cprog \<Rightarrow> deliver_pc cprog" where
  "webhook_guard m = try_except m (\<lambda>e. if is_exception e then Some (ret At_Ack) else None)"

definition next_round :: "nat \<Rightarrow> nat \<Rightarrow> exn option \<Rightarrow> deliver_pc cprog" where
  "next_round k left last_exc =
     (case left of
        0 \<Rightarrow> then_p (post_give_up last_exc) (ret At_Ack)
      | Suc _ \<Rightarrow> ret (At_Post k left last_exc))"

definition post_step :: "env \<Rightarrow> webhook_client \<Rightarrow> string \<Rightarrow> body \<Rightarrow> nat \<Rightarrow> nat \<Rightarrow> deliver_pc cprog" where
  "post_step env wc url body k left =
     bind_p (sign_request env (wc_qpu_id wc) (wc_private_key wc) (wc_key_id wc)) (\<lambda>token.
       try_except
         (then_p (post_checked env url (auth_headers token (wc_extra_headers wc)) body) (ret At_Ack))
         (\<lambda>e. if catches [TransportError, HTTPStatusError] e
              then Some (if retryable e then ret (At_Sleep k left e) else raise e)
              else None))"

definition deliver_action :: "env \<Rightarrow> string \<Rightarrow> parsed_job \<Rightarrow> execution_result \<Rightarrow> deliver_pc \<Rightarrow> deliver_pc cprog" where
  "deliver_action env completed_at p result pc =
     (case pc of
        At_Check \<Rightarrow> bind_p (has_cancel_signal env (p_job_id p)) (\<lambda>c. ret (if c then At_Mark else At_Complete))
      | At_Mark \<Rightarrow> then_p (mark_job_cancelled env (p_job_id p) (p_message_id p)) (ret At_Ack)
      | At_Complete \<Rightarrow>
          then_p (safe_hset env (status_key (p_job_id p)) (completed_hash completed_at)) (ret At_Recheck)
      | At_Recheck \<Rightarrow>
          bind_p (has_cancel_signal env (p_job_id p)) (\<lambda>c.
            if c then ret At_Mark
            else bind_p (get_p c_webhook) (\<lambda>wc.
              webhook_guard (next_round 1 (nat (wc_max_retries wc)) None)))
      | At_Post k left last_exc \<Rightarrow>
          bind_p (get_p c_webhook) (\<lambda>wc.
            webhook_guard (case left of
                0 \<Rightarrow> next_round k 0 last_exc
              | Suc left' \<Rightarrow> post_step env wc (p_callback_url p)
                               (to_dict (result_payload (p_job_id p) result)) k left'))
      | At_Sleep k left e \<Rightarrow>
          webhook_guard (then_p (sleep_p env (backoff k)) (next_round (Suc k) left (Some e)))
      | At_Ack \<Rightarrow> then_p (safe_xack env (p_message_id p)) (ret At_End)
      | At_End \<Rightarrow> ret At_End
      | At_Failed e \<Rightarrow> ret (At_Failed e))"

definition deliver_step :: "env \<Rightarrow> string \<Rightarrow> parsed_job \<Rightarrow> execution_result \<Rightarrow> deliver_pc \<Rightarrow> deliver_pc cprog" where
  "deliver_step env completed_at p result pc =
     try_except (deliver_action env completed_at p result pc) (\<lambda>e. Some (ret (At_Failed e)))"

fun pc_ended :: "deliver_pc \<Rightarrow> bool" where
  "pc_ended At_End = True"
| "pc_ended (At_Failed _) = True"
| "pc_ended _ = False"

text \<open>How many steps a delivery still has to make, at most, with \<open>n\<close> webhook rounds allowed.\<close>

fun pc_weight :: "nat \<Rightarrow> deliver_pc \<Rightarrow> nat" where
  "pc_weight n At_Check = 2 * n + 5"
| "pc_weight n At_Complete = 2 * n + 4"
| "pc_weight n At_Recheck = 2 * n + 3"
| "pc_weight n At_Mark = 2"
| "pc_weight n (At_Post k left le) = 2 * left + 2"
| "pc_weight n (At_Sleep k left e) = 2 * left + 3"
| "pc_weight n At_Ack = 1"
| "pc_weight n At_End = 0"
| "pc_weight n (At_Failed e) = 0"

definition rounds :: "consumer \<Rightarrow> nat" where
  "rounds s = nat (wc_max_retries (c_webhook s))"

end
