(* ===== verification/Delivery.thy ===== *)
theory Delivery
  imports Batch
begin

text \<open>
  The delivery of one batch result: the relation \<open>dstep\<close> describes its steps for every world,
  the steps strictly decrease a weight, and run to the end one after the other they are the
  coroutine \<open>_deliver_single_batch_result\<close>.
\<close>

section \<open>The steps of a delivery\<close>

text \<open>
  \<open>dstep n p x pc evs pc'\<close>: with \<open>n\<close> webhook rounds allowed, the delivery of the result \<open>x\<close> of
  job \<open>p\<close> may go from \<open>pc\<close> to \<open>pc'\<close> by the calls \<open>evs\<close>.
\<close>

inductive dstep ::
    "nat \<Rightarrow> parsed_job \<Rightarrow> execution_result \<Rightarrow> deliver_pc \<Rightarrow> event list \<Rightarrow> deliver_pc \<Rightarrow> bool"
  for n :: nat and p :: parsed_job and x :: execution_result where
  check_go: "dstep n p x At_Check [Ev_Get (cancel_key (p_job_id p)) (Inr None)] At_Complete"
| check_cancel: "dstep n p x At_Check [Ev_Get (cancel_key (p_job_id p)) (Inr (Some v))] At_Mark"
| check_failed: "dstep n p x At_Check [Ev_Get (cancel_key (p_job_id p)) (Inl e)] (At_Failed e)"
| mark: "map_of h ''state'' = Some ''cancelled'' \<Longrightarrow> pc' = At_Ack \<or> (\<exists>e. pc' = At_Failed e)
    \<Longrightarrow> dstep n p x At_Mark [Ev_HSet (status_key (p_job_id p)) h rep] pc'"
| complete: "map_of h ''state'' = Some ''completed'' \<Longrightarrow> pc' = At_Recheck \<or> (\<exists>e. pc' = At_Failed e)
    \<Longrightarrow> dstep n p x At_Complete [Ev_HSet (status_key (p_job_id p)) h rep] pc'"
| recheck_go: "0 < n \<Longrightarrow> dstep n p x At_Recheck [Ev_Get (cancel_key (p_job_id p)) (Inr None)] (At_Post 1 n None)"
| recheck_skip: "n = 0 \<Longrightarrow> dstep n p x At_Recheck [Ev_Get (cancel_key (p_job_id p)) (Inr None)] At_Ack"
| recheck_cancel: "dstep n p x At_Recheck [Ev_Get (cancel_key (p_job_id p)) (Inr (Some v))] At_Mark"
| recheck_failed: "dstep n p x At_Recheck [Ev_Get (cancel_key (p_job_id p)) (Inl e)] (At_Failed e)"
| post: "list_all (delivery_event (p_callback_url p) (to_dict (result_payload (p_job_id p) x))) evs
    \<Longrightarrow> count_ev is_post evs \<le> 1
    \<Longrightarrow> pc' = At_Ack \<or> (\<exists>e. pc' = At_Failed e) \<or> (\<exists>l e. left = Suc l \<and> pc' = At_Sleep k l e)
    \<Longrightarrow> dstep n p x (At_Post k left le) evs pc'"
| sleep: "pc' = At_Ack \<or> (\<exists>e'. pc' = At_Failed e') \<or> (0 < left \<and> pc' = At_Post (Suc k) left (Some e))
    \<Longrightarrow> dstep n p x (At_Sleep k left e) [Ev_Sleep d rep] pc'"
| ack: "pc' = At_End \<or> (\<exists>e. pc' = At_Failed e) \<Longrightarrow> dstep n p x At_Ack [Ev_XAck st g (p_message_id p) rep] pc'"
| stay: "pc_ended pc \<Longrightarrow> dstep n p x pc [] pc"

inductive_cases dstepE: "dstep n p x pc evs pc'"

definition steps_to ::
    "parsed_job \<Rightarrow> execution_result \<Rightarrow> deliver_pc \<Rightarrow> consumer \<Rightarrow> deliver_pc outcome \<Rightarrow> consumer \<Rightarrow> bool" where
  "steps_to p x pc s r s' = (\<exists>pc' evs. r = Ret pc' \<and> s' = emits evs s \<and> dstep (rounds s) p x pc evs pc')"

lemma steps_toI: "dstep (rounds s) p x pc evs pc' \<Longrightarrow> steps_to p x pc s (Ret pc') (emits evs s)"
  by (auto simp: steps_to_def)

lemma post_step_wp:
  "wp (post_step env wc url body k left)
     (\<lambda>r s'. \<exists>evs. s' = emits evs s \<and> list_all (delivery_event url body) evs \<and> count_ev is_post evs \<le> 1
        \<and> r \<noteq> Hang \<and> (\<forall>pc'. r = Ret pc' \<longrightarrow> pc' = At_Ack \<or> (\<exists>e. pc' = At_Sleep k left e))) s"
  unfolding post_step_def sign_request_def post_checked_def
  by (auto simp: wp_rules trace_simps split: sum.splits option.splits prod.splits)

lemma deliver_post_wp:
  "wp (deliver_step env now p x (At_Post k left le)) (steps_to p x (At_Post k left le) s) s"
proof (cases left)
  case 0
  have "steps_to p x (At_Post k left le) s (Ret pc') s" if "pc' = At_Ack \<or> (\<exists>e. pc' = At_Failed e)" for pc'
    using that by (auto intro!: steps_toI [of _ _ _ _ "[]", simplified] dstep.post simp: trace_simps)
  with 0 show ?thesis
    unfolding deliver_step_def deliver_action_def webhook_guard_def next_round_def post_give_up_def
    by (auto simp: wp_rules split: option.splits)
next
  case (Suc l)
  let ?m = "post_step env (c_webhook s) (p_callback_url p) (to_dict (result_payload (p_job_id p) x)) k l"
  have "wp (try_except (webhook_guard ?m) (\<lambda>e. Some (ret (At_Failed e)))) (steps_to p x (At_Post k left le) s) s"
    unfolding webhook_guard_def wp_try_except
    by (rule wp_mono [OF post_step_wp])
      (use Suc in \<open>auto simp: wp_rules intro!: steps_toI dstep.post split: outcome.splits option.splits\<close>)
  then show ?thesis using Suc
    unfolding deliver_step_def deliver_action_def by (simp add: wp_rules)
qed

lemma deliver_step_wp:
  "wp (deliver_step env now p x pc) (steps_to p x pc s) s"
proof (cases pc)
  case At_Check
  then show ?thesis unfolding deliver_step_def deliver_action_def has_cancel_signal_def
    by (auto simp: wp_rules intro!: steps_toI dstep.intros split: sum.splits option.splits)
next
  case At_Mark
  then show ?thesis unfolding deliver_step_def deliver_action_def mark_job_cancelled_def now_iso_def safe_hset_def
    by (auto simp: wp_rules intro!: steps_toI dstep.mark split: sum.splits option.splits)
next
  case At_Complete
  then show ?thesis unfolding deliver_step_def deliver_action_def completed_hash_def safe_hset_def
    by (auto simp: wp_rules intro!: steps_toI dstep.complete split: sum.splits option.splits)
next
  case At_Recheck
  then show ?thesis
    unfolding deliver_step_def deliver_action_def has_cancel_signal_def webhook_guard_def next_round_def post_give_up_def
    by (auto simp: wp_rules rounds_def intro!: steps_toI dstep.recheck_failed dstep.recheck_cancel
        intro: dstep.recheck_go [of "Suc m" for m, simplified] dstep.recheck_skip split: sum.splits option.splits nat.splits)
next
  case (At_Post k left le)
  then show ?thesis using deliver_post_wp by simp
next
  case (At_Sleep k left e)
  then show ?thesis
    unfolding deliver_step_def deliver_action_def webhook_guard_def next_round_def post_give_up_def sleep_p_def
    by (auto simp: wp_rules intro!: steps_toI dstep.sleep split: sum.splits option.splits nat.splits)
next
  case At_Ack
  then show ?thesis unfolding deliver_step_def deliver_action_def safe_xack_def
    by (auto simp: wp_rules intro!: steps_toI dstep.ack split: sum.splits option.splits)
qed (auto simp: deliver_step_def deliver_action_def wp_rules intro!: steps_toI [where evs = "[]", simplified] dstep.stay)

lemma dstep_weight: "dstep n p x pc evs pc' \<Longrightarrow> \<not> pc_ended pc \<Longrightarrow> pc_weight n pc' < pc_weight n pc"
  by (cases rule: dstep.cases) auto

section \<open>The coroutine and its steps agree\<close>

function deliver_run :: "env \<Rightarrow> string \<Rightarrow> parsed_job \<Rightarrow> execution_result \<Rightarrow> deliver_pc \<Rightarrow> unit cprog" where
  "deliver_run env now p x pc s =
     (case pc of
        At_End \<Rightarrow> (Ret (), s)
      | At_Failed e \<Rightarrow> (Raise e, s)
      | _ \<Rightarrow> (case deliver_step env now p x pc s of
               (Ret pc', s') \<Rightarrow> deliver_run env now p x pc' s'
             | (_, s') \<Rightarrow> (Hang, s')))"
  by pat_completeness auto

lemma deliver_step_decreases:
  assumes "deliver_step env now p x pc s = (Ret pc', s')" "\<not> pc_ended pc"
  shows "pc_weight (rounds s') pc' < pc_weight (rounds s) pc"
proof -
  have "steps_to p x pc s (Ret pc') s'" by (rule wp_run [OF deliver_step_wp assms(1)])
  then show ?thesis using dstep_weight assms(2) by (auto simp: steps_to_def rounds_def)
qed

termination deliver_run
  by (relation "measure (\<lambda>(env, now, p, x, pc, s). pc_weight (rounds s) pc)")
    (auto simp del: pc_weight.simps dest!: sym [where s = "(Ret a, b)" for a b] intro!: deliver_step_decreases)

declare deliver_run.simps [simp del]

lemma deliver_step_Ret: "\<exists>pc' evs. deliver_step env now p x pc s = (Ret pc', emits evs s)"
  using deliver_step_wp [of env now p x pc s] by (auto simp: wp_iff steps_to_def prod_eq_iff)

lemma bind_try_failed:
  "bind_p (try_except m (\<lambda>e. Some (ret (At_Failed e)))) (deliver_run env now p x) = bind_p m (deliver_run env now p x)"
  by (rule ext) (auto simp: bind_p_def try_except_def ret_def deliver_run.simps split: outcome.splits prod.splits)

lemma deliver_run_action:
  assumes "\<not> pc_ended pc"
  shows "deliver_run env now p x pc = bind_p (deliver_action env now p x pc) (deliver_run env now p x)"
proof -
  have "deliver_run env now p x pc s = bind_p (deliver_step env now p x pc) (deliver_run env now p x) s" for s
    using assms deliver_step_Ret [of env now p x pc s]
    by (subst deliver_run.simps) (cases pc; auto simp: bind_p_def)
  then show ?thesis unfolding deliver_step_def bind_try_failed by (rule ext)
qed

lemma deliver_run_End: "deliver_run env now p x At_End = ret ()"
  by (rule ext) (simp add: deliver_run.simps ret_def)

lemma deliver_run_Ack: "deliver_run env now p x At_Ack = ack_and_return env (p_message_id p)"
  by (simp add: deliver_run_action [of At_Ack] deliver_action_def ack_and_return_def then_p_def bind_p_assoc bind_p_ret deliver_run_End)

lemma deliver_run_Mark:
  "deliver_run env now p x At_Mark =
     then_p (mark_job_cancelled env (p_job_id p) (p_message_id p)) (ack_and_return env (p_message_id p))"
  by (simp add: deliver_run_action [of At_Mark] deliver_action_def then_p_def bind_p_assoc bind_p_ret deliver_run_Ack)

text \<open>The rounds of the webhook loop, from any of them on.\<close>

lemma post_attempt_steps:
  "post_attempt env wc url body k = bind_p (post_step env wc url body k left)
     (\<lambda>pc. case pc of At_Sleep _ _ e \<Rightarrow> then_p (sleep_p env (backoff k)) (ret (Inl e)) | _ \<Rightarrow> ret (Inr ()))"
  by (rule ext)
    (auto simp: post_attempt_def post_step_def then_p_def bind_p_def try_except_def ret_def raise_def
      split: outcome.splits prod.splits option.splits)

lemma deliver_run_next_round:
  "bind_p (webhook_guard (next_round k left le)) (deliver_run env now p x) s =
     then_p (try_except (post_loop env (c_webhook s) (p_callback_url p) (to_dict (result_payload (p_job_id p) x)) k left le)
               (\<lambda>e. if is_exception e then Some (ret ()) else None))
        (ack_and_return env (p_message_id p)) s"
proof (induction left arbitrary: k le s)
  case 0
  then show ?case
    by (auto simp: webhook_guard_def next_round_def post_give_up_def deliver_run_Ack then_p_def bind_p_def try_except_def
       ret_def raise_def split: option.splits)
next
  case (Suc left)
  let ?url = "p_callback_url p" and ?body = "to_dict (result_payload (p_job_id p) x)"
  let ?post = "post_step env (c_webhook s) ?url ?body k left"
  have start: "bind_p (webhook_guard (next_round k (Suc left) le)) (deliver_run env now p x) s =
      bind_p (webhook_guard ?post) (deliver_run env now p x) s"
    by (simp add: webhook_guard_def next_round_def bind_p_def try_except_def ret_def get_p_def
        deliver_run_action [of "At_Post k (Suc left) le"] deliver_action_def)
  have sleep: "deliver_run env now p x (At_Sleep k left e) =
      bind_p (webhook_guard (then_p (sleep_p env (backoff k)) (next_round (Suc k) left (Some e)))) (deliver_run env now p x)" for e
    by (simp add: deliver_run_action [of "At_Sleep k left e"] deliver_action_def)
  obtain r evs where run: "?post s = (r, emits evs s)"
    and r: "r \<noteq> Hang" "\<And>pc'. r = Ret pc' \<Longrightarrow> pc' = At_Ack \<or> (\<exists>e. pc' = At_Sleep k left e)"
    using post_step_wp [of env "c_webhook s" ?url ?body k left s] by (auto simp: wp_def split: prod.splits)
  obtain r2 evs2 where nap: "sleep_p env (backoff k) (emits evs s) = (r2, emits (evs @ evs2) s)" "r2 \<noteq> Hang"
    by (auto simp: sleep_p_def call_def Let_def split: sum.splits)
  note IH = Suc.IH [of "Suc k" _ "emits (evs @ evs2) s", simplified]
  show ?case
  proof (cases r)
    case (Raise e)
    then show ?thesis unfolding start post_loop.simps post_attempt_steps [of _ _ _ _ _ left]
      using run by (auto simp: webhook_guard_def then_p_def bind_p_def try_except_def deliver_run_Ack ret_def)
  next
    case (Ret pc')
    with r consider "pc' = At_Ack" | e where "pc' = At_Sleep k left e" by blast
    then show ?thesis
    proof cases
      case 1
      then show ?thesis unfolding start post_loop.simps post_attempt_steps [of _ _ _ _ _ left]
        using run Ret by (auto simp: webhook_guard_def then_p_def bind_p_def try_except_def deliver_run_Ack ret_def)
    next
      case 2
      show ?thesis unfolding start post_loop.simps post_attempt_steps [of _ _ _ _ _ left]
        using run Ret 2 nap IH [of "Some e"]
        by (cases r2) (auto simp: sleep webhook_guard_def then_p_def bind_p_def try_except_def deliver_run_Ack ret_def)
    qed
  qed (use r in simp)
qed

lemma deliver_run_program:
  "deliver_run env now p x At_Check =
     deliver_single_batch_result env (p_message_id p) (p_job_id p) (p_callback_url p) x now"
proof -
  have recheck: "deliver_run env now p x At_Recheck = bind_p (has_cancel_signal env (p_job_id p)) (\<lambda>c.
      if c then then_p (mark_job_cancelled env (p_job_id p) (p_message_id p)) (ack_and_return env (p_message_id p))
      else bind_p (get_p c_webhook) (\<lambda>wc.
           then_p (try_except (send_result env wc (p_callback_url p) (result_payload (p_job_id p) x))
                    (\<lambda>e. if is_exception e then Some (ret ()) else None))
             (ack_and_return env (p_message_id p))))"
  proof -
    have "bind_p (if c then ret At_Mark else bind_p (get_p c_webhook) (\<lambda>wc.
            webhook_guard (next_round 1 (nat (wc_max_retries wc)) None))) (deliver_run env now p x) =
        (if c then then_p (mark_job_cancelled env (p_job_id p) (p_message_id p)) (ack_and_return env (p_message_id p))
         else bind_p (get_p c_webhook) (\<lambda>wc.
           then_p (try_except (send_result env wc (p_callback_url p) (result_payload (p_job_id p) x))
                    (\<lambda>e. if is_exception e then Some (ret ()) else None))
             (ack_and_return env (p_message_id p))))" for c
    proof (cases c)
      case False
      then show ?thesis unfolding if_not_P [OF False] bind_p_assoc
        by (simp add: bind_get_p send_result_def post_with_retry_def deliver_run_next_round)
    qed (simp add: bind_p_ret deliver_run_Mark)
    then show ?thesis by (simp add: deliver_run_action [of At_Recheck] deliver_action_def bind_p_assoc)
  qed
  have complete: "deliver_run env now p x At_Complete =
      then_p (safe_hset env (status_key (p_job_id p)) (completed_hash now)) (deliver_run env now p x At_Recheck)"
    by (simp add: deliver_run_action [of At_Complete] deliver_action_def then_p_def bind_p_assoc bind_p_ret)
  have branch: "deliver_run env now p x (if c then At_Mark else At_Complete) =
      (if c then deliver_run env now p x At_Mark else deliver_run env now p x At_Complete)" for c by simp
  show ?thesis
    by (simp add: deliver_run_action [of At_Check] deliver_action_def bind_p_assoc bind_p_ret branch deliver_run_Mark
        complete recheck deliver_single_batch_result_def cong: if_cong)
qed
end
