(* ===== verification/Pool.thy ===== *)
theory Pool
  imports Delivery
begin

text \<open>
  The background task \<open>_deliver_batch_results\<close>: it starts one delivery per parsed job and
  interleaves them (\<open>asyncio.gather\<close>). \<open>task_step env i\<close> lets delivery \<open>i\<close> make one step;
  \<open>task_reach\<close> is every interleaving of such steps with the calls of the consume loop, and the
  invariant \<open>pool_ok\<close> is proved for all of them. \<open>await_delivery\<close> is the consume loop's
  \<^verbatim>\<open>await\<close> of the task under the scheduler of the event loop; it always ends.
\<close>

section \<open>The task\<close>

text \<open>\<^verbatim>\<open>zip(parsed, results, strict=True)\<close>: the error it raises, if the lengths differ.\<close>

definition zip_strict_error :: "'a list \<Rightarrow> 'b list \<Rightarrow> exn option" where
  "zip_strict_error xs ys =
     (if length ys < length xs then Some (Exn ValueError ''zip() argument 2 is shorter than argument 1'')
      else if length xs < length ys then Some (Exn ValueError ''zip() argument 2 is longer than argument 1'')
      else None)"

definition start_deliveries :: "parsed_job list \<Rightarrow> execution_result list \<Rightarrow> delivery list" where
  "start_deliveries parsed results =
     map (\<lambda>(p, x). \<lparr>d_job = p, d_result = x, d_pc = At_Check\<rparr>) (zip parsed results)"

fun pc_failure :: "deliver_pc \<Rightarrow> exn option" where
  "pc_failure (At_Failed e) = Some e"
| "pc_failure _ = None"

text \<open>
  \<open>gather\<close> ends with the first exception of a delivery, or when all have returned; the
  \<^verbatim>\<open>finally\<close> block then sets the idle event.
\<close>

definition settle :: "string \<Rightarrow> delivery list \<Rightarrow> consumer \<Rightarrow> consumer" where
  "settle now ds s =
     (case List.map_filter (\<lambda>d. pc_failure (d_pc d)) ds of
        e # _ \<Rightarrow> s\<lparr>c_pending_delivery := Some (Delivery_Failed e now ds), c_idle := True\<rparr>
      | [] \<Rightarrow>
          if list_all (\<lambda>d. pc_ended (d_pc d)) ds
          then s\<lparr>c_pending_delivery := Some Delivery_Returned, c_last_job_at := Some now, c_idle := True\<rparr>
          else s\<lparr>c_pending_delivery := Some (Delivery_Running now ds)\<rparr>)"

definition step_delivery :: "env \<Rightarrow> string \<Rightarrow> nat \<Rightarrow> delivery list \<Rightarrow> delivery list cprog" where
  "step_delivery env now i ds =
     (if i < length ds
      then bind_p (deliver_step env now (d_job (ds ! i)) (d_result (ds ! i)) (d_pc (ds ! i)))
             (\<lambda>pc. ret (ds[i := (ds ! i)\<lparr>d_pc := pc\<rparr>]))
      else ret ds)"

definition task_step :: "env \<Rightarrow> nat \<Rightarrow> unit cprog" where
  "task_step env i =
     bind_p (get_p c_pending_delivery) (\<lambda>t. case t of
         Some (Delivery_Created parsed results) \<Rightarrow>
           bind_p (now_iso env) (\<lambda>now. case zip_strict_error parsed results of
               Some e \<Rightarrow> modify_p (\<lambda>s. s\<lparr>c_pending_delivery := Some (Delivery_Failed e now []), c_idle := True\<rparr>)
             | None \<Rightarrow> modify_p (settle now (start_deliveries parsed results)))
       | Some (Delivery_Running now ds) \<Rightarrow>
           bind_p (step_delivery env now i ds) (\<lambda>ds'. modify_p (settle now ds'))
       | Some (Delivery_Failed e now ds) \<Rightarrow>
           bind_p (step_delivery env now i ds)
             (\<lambda>ds'. modify_p (\<lambda>s. s\<lparr>c_pending_delivery := Some (Delivery_Failed e now ds')\<rparr>))
       | _ \<Rightarrow> ret ())"

text \<open>The event loop picks one of the deliveries that have not ended.\<close>

definition live_deliveries :: "delivery list \<Rightarrow> nat list" where
  "live_deliveries ds = filter (\<lambda>i. \<not> pc_ended (d_pc (ds ! i))) [0..<length ds]"

definition pick :: "env \<Rightarrow> consumer \<Rightarrow> nat" where
  "pick env s =
     (let ds = (case c_pending_delivery s of
                  Some (Delivery_Running _ ds) \<Rightarrow> ds | Some (Delivery_Failed _ _ ds) \<Rightarrow> ds | _ \<Rightarrow> []);
          live = live_deliveries ds
      in if live = [] then 0 else live ! (e_schedule env (trace s) mod length live))"

text \<open>Steps the task makes while the consume loop waits for something else.\<close>

fun background_steps :: "nat \<Rightarrow> env \<Rightarrow> unit cprog" where
  "background_steps 0 env = ret ()"
| "background_steps (Suc n) env =
     bind_p (get_p (pick env)) (\<lambda>i. then_p (task_step env i) (background_steps n env))"

definition background :: "env \<Rightarrow> unit cprog" where
  "background env = bind_p (get_p (\<lambda>s. e_background env (trace s))) (\<lambda>n. background_steps n env)"

fun task_weight :: "nat \<Rightarrow> delivery_task \<Rightarrow> nat" where
  "task_weight n (Delivery_Created ps rs) = 2 + length ps * pc_weight n At_Check"
| "task_weight n (Delivery_Running now ds) = 1 + sum_list (map (\<lambda>d. pc_weight n (d_pc d)) ds)"
| "task_weight n Delivery_Returned = 0"
| "task_weight n (Delivery_Failed e now ds) = 0"

definition pending_weight :: "consumer \<Rightarrow> nat" where
  "pending_weight s = (case c_pending_delivery s of None \<Rightarrow> 0 | Some t \<Rightarrow> task_weight (rounds s) t)"


section \<open>Steps of the task\<close>

text \<open>One step changes one delivery, by a step of that delivery.\<close>

definition pool_step :: "nat \<Rightarrow> nat \<Rightarrow> delivery list \<Rightarrow> event list \<Rightarrow> delivery list \<Rightarrow> bool" where
  "pool_step n i ds evs ds' =
     (if i < length ds
      then \<exists>pc'. dstep n (d_job (ds ! i)) (d_result (ds ! i)) (d_pc (ds ! i)) evs pc'
             \<and> ds' = ds[i := (ds ! i)\<lparr>d_pc := pc'\<rparr>]
      else evs = [] \<and> ds' = ds)"

lemma step_delivery_wp:
  "wp (step_delivery env now i ds)
     (\<lambda>r s'. \<exists>ds' evs. r = Ret ds' \<and> s' = emits evs s \<and> pool_step (rounds s) i ds evs ds') s"
proof (cases "i < length ds")
  case True
  show ?thesis unfolding step_delivery_def if_P [OF True] wp_bind
    by (rule wp_mono [OF deliver_step_wp]) (use True in \<open>auto simp: steps_to_def wp_rules pool_step_def\<close>)
qed (auto simp: step_delivery_def wp_rules pool_step_def intro!: exI [of _ "[]"])

lemma step_delivery_run:
  "\<exists>ds' evs. step_delivery env now i ds s = (Ret ds', emits evs s) \<and> pool_step (rounds s) i ds evs ds'"
  using step_delivery_wp [of env now i ds s] by (auto simp: wp_iff prod_eq_iff)

lemma settle_fields [simp]:
  "trace (settle now ds s) = trace s" "c_webhook (settle now ds s) = c_webhook s"
  "rounds (settle now ds s) = rounds s"
  by (auto simp: settle_def rounds_def split: list.splits)

lemma task_step_cases:
  "c_pending_delivery s = None \<Longrightarrow> task_step env i s = (Ret (), s)"
  "c_pending_delivery s = Some Delivery_Returned \<Longrightarrow> task_step env i s = (Ret (), s)"
  "c_pending_delivery s = Some (Delivery_Created ps rs) \<Longrightarrow>
     \<exists>now. task_step env i s = (Ret (), case zip_strict_error ps rs of
        Some e \<Rightarrow> s\<lparr>c_pending_delivery := Some (Delivery_Failed e now []), c_idle := True\<rparr>
      | None \<Rightarrow> settle now (start_deliveries ps rs) s)"
  "c_pending_delivery s = Some (Delivery_Running now ds) \<Longrightarrow>
     \<exists>ds' evs. task_step env i s = (Ret (), settle now ds' (emits evs s)) \<and> pool_step (rounds s) i ds evs ds'"
  "c_pending_delivery s = Some (Delivery_Failed e now ds) \<Longrightarrow>
     \<exists>ds' evs. task_step env i s = (Ret (), (emits evs s)\<lparr>c_pending_delivery := Some (Delivery_Failed e now ds')\<rparr>)
        \<and> pool_step (rounds s) i ds evs ds'"
proof -
  show "c_pending_delivery s = None \<Longrightarrow> task_step env i s = (Ret (), s)"
    "c_pending_delivery s = Some Delivery_Returned \<Longrightarrow> task_step env i s = (Ret (), s)"
    by (simp_all add: task_step_def bind_get_p ret_def)
  show "c_pending_delivery s = Some (Delivery_Created ps rs) \<Longrightarrow>
     \<exists>now. task_step env i s = (Ret (), case zip_strict_error ps rs of
        Some e \<Rightarrow> s\<lparr>c_pending_delivery := Some (Delivery_Failed e now []), c_idle := True\<rparr>
      | None \<Rightarrow> settle now (start_deliveries ps rs) s)"
    by (auto simp: task_step_def bind_get_p now_iso_def modify_p_def split: option.splits)
  show "c_pending_delivery s = Some (Delivery_Running now ds) \<Longrightarrow>
     \<exists>ds' evs. task_step env i s = (Ret (), settle now ds' (emits evs s)) \<and> pool_step (rounds s) i ds evs ds'"
    using step_delivery_run [of env now i ds s]
    by (auto simp: task_step_def bind_get_p bind_p_def [of "step_delivery env now i ds"] modify_p_def) blast
  show "c_pending_delivery s = Some (Delivery_Failed e now ds) \<Longrightarrow>
     \<exists>ds' evs. task_step env i s = (Ret (), (emits evs s)\<lparr>c_pending_delivery := Some (Delivery_Failed e now ds')\<rparr>)
        \<and> pool_step (rounds s) i ds evs ds'"
    using step_delivery_run [of env now i ds s]
    by (auto simp: task_step_def bind_get_p bind_p_def [of "step_delivery env now i ds"] modify_p_def) blast
qed

lemma task_step_Ret: "\<exists>s'. task_step env i s = (Ret (), s')"
proof (cases "c_pending_delivery s")
  case (Some t)
  then show ?thesis using task_step_cases(2-5) [of s] by (cases t) blast+
qed (use task_step_cases(1) in blast)


subsection \<open>Awaiting the task\<close>

lemma settle_weight: "pending_weight (settle now ds s) \<le> 1 + sum_list (map (\<lambda>d. pc_weight (rounds s) (d_pc d)) ds)"
  and settle_weight_ended: "list_all (\<lambda>d. pc_ended (d_pc d)) ds \<Longrightarrow> pending_weight (settle now ds s) = 0"
  by (auto simp: pending_weight_def settle_def rounds_def split: list.splits)

lemma pool_step_weight:
  assumes "pool_step n i ds evs ds'" "i < length ds" "\<not> pc_ended (d_pc (ds ! i))"
  shows "sum_list (map (\<lambda>d. pc_weight n (d_pc d)) ds') < sum_list (map (\<lambda>d. pc_weight n (d_pc d)) ds)"
proof -
  obtain pc' where pc': "dstep n (d_job (ds ! i)) (d_result (ds ! i)) (d_pc (ds ! i)) evs pc'"
    and ds': "ds' = ds[i := (ds ! i)\<lparr>d_pc := pc'\<rparr>]" using assms by (auto simp: pool_step_def)
  let ?f = "\<lambda>d. pc_weight n (d_pc d)"
  have lt: "pc_weight n pc' < ?f (ds ! i)" using dstep_weight [OF pc' assms(3)] .
  have "map ?f ds' = (map ?f ds)[i := pc_weight n pc']" using ds' by (simp add: map_update)
  then have "sum_list (map ?f ds') = sum_list (map ?f ds) + pc_weight n pc' - ?f (ds ! i)"
    using assms(2) by (simp add: sum_list_update)
  moreover have "?f (ds ! i) \<le> sum_list (map ?f ds)" using assms(2) by (intro member_le_sum_list) auto
  ultimately show ?thesis using lt by linarith
qed

lemma live_deliveries_nth:
  assumes "live_deliveries ds \<noteq> []"
  shows "live_deliveries ds ! (k mod length (live_deliveries ds)) < length ds
    \<and> \<not> pc_ended (d_pc (ds ! (live_deliveries ds ! (k mod length (live_deliveries ds)))))"
proof -
  have "live_deliveries ds ! (k mod length (live_deliveries ds)) \<in> set (live_deliveries ds)"
    using assms by (intro nth_mem) simp
  then show ?thesis by (auto simp: live_deliveries_def)
qed

lemma live_deliveries_empty: "live_deliveries ds = [] \<longleftrightarrow> list_all (\<lambda>d. pc_ended (d_pc d)) ds"
  by (auto simp: live_deliveries_def filter_empty_conv list_all_length)

text \<open>A task that has neither returned nor failed gets nearer to its end with every step picked.\<close>

definition unsettled :: "consumer \<Rightarrow> bool" where
  "unsettled s = (case c_pending_delivery s of
      Some (Delivery_Created _ _) \<Rightarrow> True | Some (Delivery_Running _ _) \<Rightarrow> True | _ \<Rightarrow> False)"

lemma start_deliveries_weight:
  "length ps = length rs \<Longrightarrow>
   sum_list (map (\<lambda>d. pc_weight n (d_pc d)) (start_deliveries ps rs)) = length ps * pc_weight n At_Check"
  by (induction ps rs rule: list_induct2) (auto simp: start_deliveries_def)

lemma task_step_decreases:
  assumes "unsettled s"
  shows "pending_weight (snd (task_step env (pick env s) s)) < pending_weight s"
proof (cases "c_pending_delivery s")
  case (Some t)
  show ?thesis
  proof (cases t)
    case (Delivery_Created ps rs)
    obtain now where step: "task_step env (pick env s) s = (Ret (), case zip_strict_error ps rs of
        Some e \<Rightarrow> s\<lparr>c_pending_delivery := Some (Delivery_Failed e now []), c_idle := True\<rparr>
      | None \<Rightarrow> settle now (start_deliveries ps rs) s)"
      using task_step_cases(3) Some Delivery_Created by blast
    have w: "pending_weight s = 2 + length ps * pc_weight (rounds s) At_Check"
      using Some Delivery_Created by (simp add: pending_weight_def)
    show ?thesis
    proof (cases "zip_strict_error ps rs")
      case None
      then have "length ps = length rs" by (auto simp: zip_strict_error_def split: if_splits)
      with None step w show ?thesis
        using settle_weight [of now "start_deliveries ps rs" s] start_deliveries_weight [of ps rs "rounds s"] by simp
    qed (use step w in \<open>simp add: pending_weight_def\<close>)
  next
    case (Delivery_Running now ds)
    let ?i = "pick env s"
    obtain ds' evs where step: "task_step env ?i s = (Ret (), settle now ds' (emits evs s))"
      and pool: "pool_step (rounds s) ?i ds evs ds'"
      using task_step_cases(4) Some Delivery_Running by blast
    have w: "pending_weight s = 1 + sum_list (map (\<lambda>d. pc_weight (rounds s) (d_pc d)) ds)"
      using Some Delivery_Running by (simp add: pending_weight_def)
    have r: "rounds (emits evs s) = rounds s" by (simp add: rounds_def)
    show ?thesis
    proof (cases "live_deliveries ds = []")
      case True
      then have fin: "list_all (\<lambda>d. pc_ended (d_pc d)) ds" by (simp add: live_deliveries_empty)
      have "pool_step (rounds s) ?i ds evs ds' \<Longrightarrow> list_all (\<lambda>d. pc_ended (d_pc d)) ds'"
        using fin by (auto simp: pool_step_def list_all_length nth_list_update elim!: dstep.cases split: if_splits)
      then show ?thesis using step w pool settle_weight_ended by simp
    next
      case False
      have "?i < length ds \<and> \<not> pc_ended (d_pc (ds ! ?i))"
        using live_deliveries_nth [OF False] Some Delivery_Running False by (simp add: pick_def Let_def)
      then show ?thesis
        using pool_step_weight [OF pool] settle_weight [of now ds' "emits evs s"] step w r by simp
    qed
  qed (use assms Some in \<open>simp_all add: unsettled_def\<close>)
qed (use assms in \<open>simp add: unsettled_def\<close>)

function await_delivery :: "env \<Rightarrow> unit cprog" where
  "await_delivery env s =
     (if unsettled s then await_delivery env (snd (task_step env (pick env s) s))
      else (case c_pending_delivery s of
              Some (Delivery_Failed e _ _) \<Rightarrow> (Raise e, s)
            | _ \<Rightarrow> (Ret (), s)))"
  by pat_completeness auto
termination await_delivery
  by (relation "measure (\<lambda>(env, s). pending_weight s)") (auto simp: task_step_decreases)

declare await_delivery.simps [simp del]

end
