(* ===== verification/Loop.thy ===== *)
theory Loop
  imports Pool
begin

text \<open>
  The outer half of \<open>server/consumer.py\<close>: group creation, crash recovery, the consume loop with
  its backoff, and the drain of a shutdown. The loop is run with fuel, one unit per iteration;
  whether \<^verbatim>\<open>stop()\<close> has been called by another task is read at the loop head.
\<close>

section \<open>Setup and recovery\<close>

definition setup_group :: "env \<Rightarrow> unit cprog" where
  "setup_group env =
     bind_p (get_p (\<lambda>s. (c_stream s, c_group s))) (\<lambda>(stream, group).
       try_except (call (e_xgroup_create env) (Ev_XGroupCreate stream group))
         (\<lambda>e. if catches [RedisResponseError] e
              then Some (if contains (exn_text e) ''BUSYGROUP'' then ret () else raise e)
              else None))"

text \<open>One entry of the pending list; the result says whether the message was still there.\<close>

definition recover_entry :: "nat \<Rightarrow> env \<Rightarrow> message_id \<Rightarrow> bool cprog" where
  "recover_entry fuel env message_id =
     bind_p (get_p c_stream) (\<lambda>stream.
     bind_p (call (\<lambda>h. e_xrange env h message_id) (Ev_XRange stream message_id)) (\<lambda>messages.
       case messages of
         [] \<Rightarrow> ret False
       | (_, flds) # _ \<Rightarrow> then_p (process_message fuel env message_id flds) (ret True)))"

fun recover_entries :: "nat \<Rightarrow> env \<Rightarrow> message_id list \<Rightarrow> nat \<Rightarrow> nat cprog" where
  "recover_entries fuel env [] recovered = ret recovered"
| "recover_entries fuel env (m # ms) recovered =
     bind_p (recover_entry fuel env m) (\<lambda>found.
       recover_entries fuel env ms (if found then recovered + 1 else recovered))"

definition recover_pending :: "nat \<Rightarrow> env \<Rightarrow> nat cprog" where
  "recover_pending fuel env =
     bind_p (get_p (\<lambda>s. (c_stream s, c_group s, c_consumer_name s))) (\<lambda>(stream, group, name).
     bind_p (call (e_xpending env) (Ev_XPending stream group name 100)) (\<lambda>pending.
       recover_entries fuel env pending 0))"


section \<open>The consume loop\<close>

definition BATCH_READ_COUNT :: nat where
  "BATCH_READ_COUNT = 100"

definition PENDING_RECHECK_SECS :: rat where
  "PENDING_RECHECK_SECS = 60"

definition BACKOFF_MAX :: pyfloat where
  "BACKOFF_MAX = 60"

text \<open>
  \<^verbatim>\<open>_BACKOFF_BASE * (_BACKOFF_FACTOR ** (n - 1))\<close>, capped. A power of the float 2.0 beyond the
  largest finite double raises \<open>OverflowError\<close>.
\<close>

definition reconnect_delay :: "nat \<Rightarrow> exn + pyfloat" where
  "reconnect_delay n =
     (if 1024 \<le> n - 1 then Inl (Exn OverflowError ''(34, 'Numerical result out of range')'')
      else Inr (min (1 * 2 ^ (n - 1)) BACKOFF_MAX))"

definition read_count :: "consumer \<Rightarrow> nat" where
  "read_count s = (if c_can_batch s then BATCH_READ_COUNT else 1)"

definition read_group :: "env \<Rightarrow> (string \<times> message list) list cprog" where
  "read_group env =
     then_p (background env)
      (bind_p (get_p (\<lambda>s. (c_group s, c_consumer_name s, c_stream s, read_count s))) (\<lambda>(group, name, stream, n).
        call (e_xreadgroup env) (Ev_XReadGroup group name stream n)))"

definition finish_delivery :: "env \<Rightarrow> unit cprog" where
  "finish_delivery env =
     bind_p (get_p c_pending_delivery) (\<lambda>p.
       if p = None then ret ()
       else then_p (await_delivery env) (modify_p (\<lambda>s. s\<lparr>c_pending_delivery := None\<rparr>)))"

definition recheck_pending :: "nat \<Rightarrow> env \<Rightarrow> unit cprog" where
  "recheck_pending fuel env =
     bind_p (get_p (\<lambda>s. e_monotonic env (trace s))) (\<lambda>now.
     bind_p (get_p l_last_check) (\<lambda>last_check.
       if now - last_check \<ge> PENDING_RECHECK_SECS
       then then_p (recover_pending fuel env) (modify_p (\<lambda>s. s\<lparr>l_last_check := now\<rparr>))
       else ret ()))"

definition dispatch_stream :: "nat \<Rightarrow> env \<Rightarrow> string \<times> message list \<Rightarrow> unit cprog" where
  "dispatch_stream fuel env entry = (case entry of (_, stream_messages) \<Rightarrow>
     bind_p (get_p c_can_batch) (\<lambda>can_batch.
       if can_batch \<and> 1 < length stream_messages
       then bind_p (process_batch fuel env stream_messages) (\<lambda>delivery.
              case delivery of
                None \<Rightarrow> ret ()
              | Some t \<Rightarrow> modify_p (\<lambda>s. s\<lparr>c_pending_delivery := Some t\<rparr>))
       else for_p stream_messages (\<lambda>(message_id, flds). process_message fuel env message_id flds)))"

definition iteration_body :: "nat \<Rightarrow> env \<Rightarrow> unit cprog" where
  "iteration_body fuel env =
     bind_p (read_group env) (\<lambda>messages.
     then_p (modify_p (\<lambda>s. s\<lparr>c_redis_healthy := True, l_failures := 0\<rparr>))
      (then_p (finish_delivery env)
        (if messages = [] then recheck_pending fuel env
         else for_p messages (dispatch_stream fuel env))))"

definition connection_lost :: "env \<Rightarrow> unit cprog" where
  "connection_lost env =
     then_p (modify_p (\<lambda>s. s\<lparr>c_redis_healthy := False, l_failures := l_failures s + 1\<rparr>))
      (bind_p (get_p l_failures) (\<lambda>n.
       bind_p (from_sum (reconnect_delay n)) (\<lambda>delay.
         then_p (background env) (sleep_p env delay))))"

definition iteration_handler :: "env \<Rightarrow> exn \<Rightarrow> unit cprog option" where
  "iteration_handler env e =
     (if connection_error e then Some (connection_lost env)
      else if is_exception e then Some (then_p (background env) (sleep_p env 1))
      else None)"

definition consume_iteration :: "nat \<Rightarrow> env \<Rightarrow> unit cprog" where
  "consume_iteration fuel env = try_except (iteration_body fuel env) (iteration_handler env)"

text \<open>\<^verbatim>\<open>stop()\<close>, and its call by another task.\<close>

definition stop :: "unit cprog" where
  "stop = modify_p (\<lambda>s. s\<lparr>c_running := False\<rparr>)"

definition notice_stop :: "env \<Rightarrow> unit cprog" where
  "notice_stop env = bind_p (get_p (\<lambda>s. e_stop_requested env (trace s))) (\<lambda>b. if b then stop else ret ())"

fun consume_while :: "nat \<Rightarrow> nat \<Rightarrow> env \<Rightarrow> unit cprog" where
  "consume_while 0 fuel env = hang"
| "consume_while (Suc n) fuel env =
     then_p (notice_stop env)
      (bind_p (get_p c_running) (\<lambda>running.
        if running then then_p (consume_iteration fuel env) (consume_while n fuel env)
        else ret ()))"

definition consume_loop :: "nat \<Rightarrow> nat \<Rightarrow> env \<Rightarrow> unit cprog" where
  "consume_loop n fuel env =
     then_p (modify_p (\<lambda>s. s\<lparr>c_running := True\<rparr>))
      (then_p (setup_group env)
       (then_p (recover_pending fuel env)
        (then_p (modify_p (\<lambda>s. s\<lparr>l_failures := 0, l_last_check := e_monotonic env (trace s)\<rparr>))
          (consume_while n fuel env))))"


section \<open>Draining\<close>

text \<open>
  \<^verbatim>\<open>drain(timeout)\<close>, called by the shutdown. \<open>e_wait_for\<close> answers whether the idle event is set
  in time; the wait for the background task is its own \<^verbatim>\<open>wait_for\<close>: in time, the task has been
  run to its end; otherwise it raises \<open>TimeoutError\<close>.
\<close>

definition wait_for :: "env \<Rightarrow> pyfloat \<Rightarrow> unit cprog" where
  "wait_for env timeout =
     bind_p (call (\<lambda>h. e_wait_for env h timeout) (Ev_WaitFor timeout)) (\<lambda>in_time.
       if in_time then ret () else raise (Exn TimeoutError []))"

definition wait_idle :: "env \<Rightarrow> pyfloat \<Rightarrow> unit cprog" where
  "wait_idle env timeout =
     bind_p (get_p c_idle) (\<lambda>idle. if idle then ret () else wait_for env timeout)"

definition drain :: "env \<Rightarrow> pyfloat \<Rightarrow> bool cprog" where
  "drain env timeout =
     then_p stop
      (try_except
        (then_p (wait_idle env timeout)
          (bind_p (get_p c_pending_delivery) (\<lambda>p.
            if p = None then ret True
            else then_p (wait_for env timeout)
                  (then_p (await_delivery env)
                    (then_p (modify_p (\<lambda>s. s\<lparr>c_pending_delivery := None\<rparr>)) (ret True))))))
        (\<lambda>e. if catches [TimeoutError] e then Some (ret False) else None))"

end
