(* ===== verification/Samples.thy ===== *)
theory Samples
  imports Consumer_Facts
begin

text \<open>A concrete circuit, message, world and consumer, on which the properties are witnessed.\<close>

definition demo_ir :: native_gate_ir where
  "demo_ir = \<lparr>ir_version = ''1.0'', ir_target = ''cz'', ir_num_qubits = 2,
     ir_gates = [\<lparr>op_gate = CZ, op_qubits = [0, 1], op_params = []\<rparr>], ir_measurements = [0, 1],
     ir_metadata = \<lparr>source_hash = ''abc'', compiled_at = ''2026-01-01'', compiler_version = ''1'',
        optimization_level = 1\<rparr>\<rparr>"

definition demo_env :: env where
  "demo_env = quiet_env\<lparr>e_decode_ir := (\<lambda>_. Inr demo_ir)\<rparr>"

definition demo_fields :: fields where
  "demo_fields = [(PyStr ''job_id'', PyStr ''j1''), (PyBytes ''callback_url'', PyBytes ''https://c''),
     (PyStr ''ir_json'', PyStr ''{}''), (PyStr ''shots'', PyStr ''100'')]"

definition demo_consumer :: consumer where
  "demo_consumer = new_consumer sample_client ''qpu-1'' ''worker-0'' 60000 False"

definition demo_hash :: hash where
  "demo_hash = [(''job_id'', ''j1''), (''callback_url'', ''https://c''), (''ir_json'', ''{}''), (''shots'', ''100'')]"

lemma demo_decode:
  "decode_fields demo_fields = Inr demo_hash" "map_of demo_hash ''job_id'' = Some ''j1''"
  "map_of demo_hash ''callback_url'' = Some ''https://c''"
  by code_simp+

end
