(* ===== verification/Pool_Props.thy ===== *)
theory Pool_Props
  imports Pool Samples "HOL-Library.Multiset"
begin

text \<open>
  What every interleaving of the deliveries of a batch keeps. The invariant is per delivery
  (\<open>delivery_ok\<close>): its own steps preserve it by cases on \<open>dstep\<close>, and the steps of the other
  deliveries and of the consume loop do, because they do not touch its job or its message.
\<close>

section \<open>Reachable states\<close>

text \<open>The calls the consume loop may make while the task is pending.\<close>

fun loop_event :: "event \<Rightarrow> bool" where
  "loop_event (Ev_XReadGroup _ _ _ _ _) = True"
| "loop_event (Ev_Sleep _ _) = True"
| "loop_event (Ev_WaitFor _ _) = True"
| "loop_event _ = False"

text \<open>Any interleaving of steps of the deliveries with those calls.\<close>

inductive task_reach :: "env \<Rightarrow> consumer \<Rightarrow> consumer \<Rightarrow> bool" for env :: env and s0 :: consumer where
  start: "task_reach env s0 s0"
| deliver: "task_reach env s0 s \<Longrightarrow> task_step env i s = (r, s') \<Longrightarrow> task_reach env s0 s'"
| loop: "task_reach env s0 s \<Longrightarrow> loop_event ev \<Longrightarrow> trace s' = trace s @ [ev]
    \<Longrightarrow> c_pending_delivery s' = c_pending_delivery s \<Longrightarrow> c_webhook s' = c_webhook s
    \<Longrightarrow> task_reach env s0 s'"


section \<open>One delivery\<close>

fun posts_for :: "string \<Rightarrow> event \<Rightarrow> bool" where
  "posts_for job (Ev_Post _ _ b _) = (map_of b ''job_id'' = Some (PV_Str job))"
| "posts_for job _ = False"

fun own_event :: "parsed_job \<Rightarrow> execution_result \<Rightarrow> event \<Rightarrow> bool" where
  "own_event p x (Ev_Get k _) = (k = cancel_key (p_job_id p))"
| "own_event p x (Ev_HSet k _ _) = (k = status_key (p_job_id p))"
| "own_event p x (Ev_Post u _ b _) = (u = p_callback_url p \<and> b = to_dict (result_payload (p_job_id p) x))"
| "own_event p x (Ev_XAck _ _ m _) = (m = p_message_id p)"
| "own_event p x (Ev_Sign _ _ _) = True"
| "own_event p x (Ev_Sleep _ _) = True"
| "own_event p x _ = False"

lemma delivery_event_own:
  "delivery_event (p_callback_url p) (to_dict (result_payload (p_job_id p) x)) ev \<Longrightarrow> own_event p x ev"
  by (cases ev) auto

lemma dstep_own: "dstep n p x pc evs pc' \<Longrightarrow> list_all (own_event p x) evs"
  by (erule dstep.cases) (auto simp: list_all_iff intro: delivery_event_own)

lemma cancel_key_inj [simp]: "cancel_key a = cancel_key b \<longleftrightarrow> a = b"
  by (simp add: cancel_key_def)

lemma to_dict_job: "map_of (to_dict (result_payload job x)) ''job_id'' = Some (PV_Str job)"
  by (simp add: to_dict_def add_field_def result_payload_def)

lemma own_event_foreign:
  assumes "own_event q y ev" "p_job_id q \<noteq> p_job_id p" "p_message_id q \<noteq> p_message_id p"
  shows "\<not> cancel_seen (p_job_id p) ev" "\<not> posts_for (p_job_id p) ev" "\<not> is_ack (p_message_id p) ev"
  using assms by (cases ev; auto simp: to_dict_job)+

lemma loop_event_foreign:
  "loop_event ev \<Longrightarrow> \<not> cancel_seen job ev \<and> \<not> posts_for job ev \<and> \<not> is_ack m ev"
  by (cases ev) auto

fun acks_due :: "deliver_pc \<Rightarrow> nat \<Rightarrow> bool" where
  "acks_due At_End k = (k = 1)"
| "acks_due (At_Failed e) k = (k \<le> 1)"
| "acks_due _ k = (k = 0)"

fun past_cancel :: "deliver_pc \<Rightarrow> bool" where
  "past_cancel At_Mark = True"
| "past_cancel At_Ack = True"
| "past_cancel At_End = True"
| "past_cancel (At_Failed e) = True"
| "past_cancel _ = False"

definition delivery_ok :: "delivery \<Rightarrow> event list \<Rightarrow> bool" where
  "delivery_ok d evs =
     (let p = d_job d; job = p_job_id p in
      \<not> occurs_before (cancel_seen job) (posts_for job) evs
      \<and> (list_ex (cancel_seen job) evs \<longrightarrow> past_cancel (d_pc d))
      \<and> acks_due (d_pc d) (count_ev (is_ack (p_message_id p)) evs)
      \<and> (\<forall>ev \<in> set evs. posts_for job ev \<longrightarrow>
           (\<exists>hs rep. ev = Ev_Post (p_callback_url p) hs (to_dict (result_payload job (d_result d))) rep)))"

lemma delivery_ok_frame:
  assumes "delivery_ok d evs"
    and "\<And>ev. ev \<in> set evs' \<Longrightarrow> \<not> cancel_seen (p_job_id (d_job d)) ev \<and> \<not> posts_for (p_job_id (d_job d)) ev
           \<and> \<not> is_ack (p_message_id (d_job d)) ev"
  shows "delivery_ok d (evs @ evs')"
proof -
  have none: "\<not> list_ex (cancel_seen (p_job_id (d_job d))) evs'" "\<not> list_ex (posts_for (p_job_id (d_job d))) evs'"
    "count_ev (is_ack (p_message_id (d_job d))) evs' = 0"
    using assms(2) by (auto simp: list_ex_iff count_ev_0_iff)
  show ?thesis
    using assms none no_occurs_before_left [OF none(1)]
    by (auto simp: delivery_ok_def Let_def trace_simps)
qed

lemma delivery_events_of_post:
  assumes "list_all (delivery_event u b) evs"
  shows "\<not> list_ex (cancel_seen job) evs" "count_ev (is_ack m) evs = 0"
    "posts_for job ev \<Longrightarrow> ev \<in> set evs \<Longrightarrow> \<exists>hs rep. ev = Ev_Post u hs b rep"
proof -
  show "\<not> list_ex (cancel_seen job) evs" "count_ev (is_ack m) evs = 0"
    using list_ex_delivery_event [OF assms] by (auto simp: count_ev_0_iff)
  show "posts_for job ev \<Longrightarrow> ev \<in> set evs \<Longrightarrow> \<exists>hs rep. ev = Ev_Post u hs b rep"
    using assms by (cases ev) (auto simp: list_all_iff)
qed

lemma delivery_ok_step:
  assumes ok: "delivery_ok d evs" and step: "dstep n (d_job d) (d_result d) (d_pc d) evs' pc'"
  shows "delivery_ok (d\<lparr>d_pc := pc'\<rparr>) (evs @ evs')"
  using step
proof (cases rule: dstep.cases)
  case (post left k le)
  have "\<not> list_ex (cancel_seen (p_job_id (d_job d))) evs" using ok post by (auto simp: delivery_ok_def Let_def)
  then show ?thesis
    using ok post delivery_events_of_post [OF post(2)]
      no_occurs_before_left [OF delivery_events_of_post(1) [OF post(2), of "p_job_id (d_job d)"]]
    by (auto simp: delivery_ok_def Let_def trace_simps)
qed (use ok in \<open>auto simp: delivery_ok_def Let_def trace_simps\<close>)



section \<open>All deliveries\<close>

definition distinct_jobs :: "parsed_job list \<Rightarrow> bool" where
  "distinct_jobs ps = (distinct (map p_job_id ps) \<and> distinct (map p_message_id ps))"

text \<open>The deliveries \<open>ds\<close> are those of the parsed jobs and results, each in order.\<close>

definition deliveries_ok :: "parsed_job list \<Rightarrow> execution_result list \<Rightarrow> delivery list \<Rightarrow> event list \<Rightarrow> bool" where
  "deliveries_ok ps rs ds evs =
     (map d_job ds = ps \<and> map d_result ds = rs \<and> (\<forall>d \<in> set ds. delivery_ok d evs))"

fun task_ok :: "parsed_job list \<Rightarrow> execution_result list \<Rightarrow> delivery_task option \<Rightarrow> event list \<Rightarrow> bool" where
  "task_ok ps rs (Some (Delivery_Created ps' rs')) evs = (ps' = ps \<and> rs' = rs \<and> list_all loop_event evs)"
| "task_ok ps rs (Some (Delivery_Running now ds)) evs = deliveries_ok ps rs ds evs"
| "task_ok ps rs (Some Delivery_Returned) evs =
     (\<exists>ds. deliveries_ok ps rs ds evs \<and> (\<forall>d \<in> set ds. d_pc d = At_End))"
| "task_ok ps rs (Some (Delivery_Failed e now ds)) evs =
     ((ds = [] \<and> length ps \<noteq> length rs \<and> exn_class_of e = ValueError \<and> list_all loop_event evs)
      \<or> deliveries_ok ps rs ds evs)"
| "task_ok ps rs None evs = False"

lemma deliveries_ok_frame:
  assumes "deliveries_ok ps rs ds evs" "loop_event ev"
  shows "deliveries_ok ps rs ds (evs @ [ev])"
  using assms loop_event_foreign [OF assms(2)]
  by (auto simp: deliveries_ok_def intro!: delivery_ok_frame)

lemma deliveries_ok_step:
  assumes ok: "deliveries_ok ps rs ds evs" and step: "pool_step n i ds evs' ds'" and dist: "distinct_jobs ps"
  shows "deliveries_ok ps rs ds' (evs @ evs')"
proof (cases "i < length ds")
  case True
  with step obtain pc' where st: "dstep n (d_job (ds ! i)) (d_result (ds ! i)) (d_pc (ds ! i)) evs' pc'"
    and ds': "ds' = ds[i := (ds ! i)\<lparr>d_pc := pc'\<rparr>]" by (auto simp: pool_step_def)
  have ps: "ps = map d_job ds" using ok by (auto simp: deliveries_ok_def)
  have "delivery_ok (ds' ! j) (evs @ evs')" if j: "j < length ds" for j
  proof (cases "j = i")
    case True
    then show ?thesis using ok j ds' delivery_ok_step [OF _ st, of evs] by (auto simp: deliveries_ok_def)
  next
    case False
    then have neq: "p_job_id (d_job (ds ! i)) \<noteq> p_job_id (d_job (ds ! j))"
      "p_message_id (d_job (ds ! i)) \<noteq> p_message_id (d_job (ds ! j))"
      using dist j True unfolding distinct_jobs_def ps by (auto simp: distinct_conv_nth)
    have "delivery_ok (ds ! j) (evs @ evs')"
      using ok j own_event_foreign [OF _ neq] dstep_own [OF st]
      by (intro delivery_ok_frame) (auto simp: deliveries_ok_def list_all_iff)
    then show ?thesis using False ds' by simp
  qed
  then have "\<forall>d \<in> set ds'. delivery_ok d (evs @ evs')" using ds' by (auto simp: all_set_conv_all_nth)
  moreover have "map d_job ds' = map d_job ds" "map d_result ds' = map d_result ds"
    using ds' True by (auto simp: map_update list_update_id [of "map f ds" for f, symmetric] intro!: nth_equalityI simp: nth_list_update)
  ultimately show ?thesis using ok by (auto simp: deliveries_ok_def)
qed (use assms in \<open>auto simp: pool_step_def\<close>)

lemma start_deliveries_ok:
  assumes "length ps = length rs" "list_all loop_event evs"
  shows "deliveries_ok ps rs (start_deliveries ps rs) evs"
proof -
  have "delivery_ok \<lparr>d_job = p, d_result = x, d_pc = At_Check\<rparr> ([] @ evs)" for p x
    using assms(2) loop_event_foreign
    by (intro delivery_ok_frame) (auto simp: delivery_ok_def trace_simps list_all_iff)
  then show ?thesis using assms(1)
    by (auto simp: deliveries_ok_def start_deliveries_def intro!: nth_equalityI)
qed

lemma settle_ok:
  assumes "deliveries_ok ps rs ds evs"
  shows "task_ok ps rs (c_pending_delivery (settle now ds s)) evs"
proof (cases "List.map_filter (\<lambda>d. pc_failure (d_pc d)) ds")
  case Nil
  then have nf: "\<forall>d \<in> set ds. pc_failure (d_pc d) = None"
    by (auto simp: List.map_filter_def filter_empty_conv)
  have "d_pc d = At_End" if "d \<in> set ds" "pc_ended (d_pc d)" for d
    using that nf by (cases "d_pc d") auto
  then show ?thesis using Nil assms by (auto simp: settle_def list_all_iff)
qed (use assms in \<open>auto simp: settle_def\<close>)

lemma task_reach_ok:
  assumes "task_reach env s0 s" "c_pending_delivery s0 = Some (Delivery_Created ps rs)" "distinct_jobs ps"
  shows "\<exists>evs. trace s = trace s0 @ evs \<and> task_ok ps rs (c_pending_delivery s) evs"
  using assms(1)
proof (induction rule: task_reach.induct)
  case start
  then show ?case using assms by auto
next
  case (loop s ev s')
  then obtain evs where evs: "trace s = trace s0 @ evs" "task_ok ps rs (c_pending_delivery s) evs" by blast
  have "task_ok ps rs (c_pending_delivery s) (evs @ [ev])"
    using evs(2) deliveries_ok_frame [OF _ loop.hyps(2)] loop.hyps(2)
    by (cases "(ps, rs, c_pending_delivery s, evs)" rule: task_ok.cases) (auto, blast)
  then show ?case using evs loop.hyps by auto
next
  case (deliver s i r s')
  then obtain evs where evs: "trace s = trace s0 @ evs" and ok: "task_ok ps rs (c_pending_delivery s) evs" by blast
  obtain t where t: "c_pending_delivery s = Some t" using ok by (cases "c_pending_delivery s") auto
  show ?case
  proof (cases t)
    case (Delivery_Created ps' rs')
    then obtain now where s': "s' = (case zip_strict_error ps rs of
        Some e \<Rightarrow> s\<lparr>c_pending_delivery := Some (Delivery_Failed e now []), c_idle := True\<rparr>
      | None \<Rightarrow> settle now (start_deliveries ps rs) s)"
      using task_step_cases(3) [of s ps' rs' env i] deliver.hyps(2) t ok by auto
    have l: "list_all loop_event evs" using ok t Delivery_Created by simp
    show ?thesis
    proof (cases "zip_strict_error ps rs")
      case None
      then have "length ps = length rs" by (auto simp: zip_strict_error_def split: if_splits)
      then show ?thesis using None s' evs settle_ok [OF start_deliveries_ok] l by auto
    next
      case (Some e)
      then have "length ps \<noteq> length rs" "exn_class_of e = ValueError" by (auto simp: zip_strict_error_def split: if_splits)
      then show ?thesis using Some s' evs l by auto
    qed
  next
    case (Delivery_Running now ds)
    then obtain ds' evs' where "s' = settle now ds' (emits evs' s)" "pool_step (rounds s) i ds evs' ds'"
      using task_step_cases(4) [of s now ds env i] deliver.hyps(2) t by auto
    then show ?thesis
      using evs ok t Delivery_Running settle_ok deliveries_ok_step [OF _ _ assms(3)] by auto
  next
    case Delivery_Returned
    then show ?thesis using task_step_cases(2) [of s env i] deliver.hyps(2) t ok evs by auto
  next
    case (Delivery_Failed e now ds)
    then obtain ds' evs' where s': "s' = (emits evs' s)\<lparr>c_pending_delivery := Some (Delivery_Failed e now ds')\<rparr>"
      and pool: "pool_step (rounds s) i ds evs' ds'"
      using task_step_cases(5) [of s e now ds env i] deliver.hyps(2) t by auto
    have "task_ok ps rs (Some (Delivery_Failed e now ds')) (evs @ evs')"
      using ok t Delivery_Failed pool deliveries_ok_step [OF _ pool assms(3)] by (auto simp: pool_step_def)
    then show ?thesis using s' evs by auto
  qed
qed


section \<open>Awaiting the task\<close>

lemma task_step_settles:
  assumes "unsettled s" "task_step env i s = (r, s')" "\<not> unsettled s'"
  shows "c_idle s'"
proof -
  have settled: "c_idle (settle now ds t)" if "\<not> unsettled (settle now ds t)" for now ds t
    using that by (auto simp: settle_def unsettled_def split: list.splits if_splits)
  obtain t where t: "c_pending_delivery s = Some t" using assms(1) by (auto simp: unsettled_def split: option.splits)
  show ?thesis
  proof (cases t)
    case (Delivery_Created ps rs)
    then show ?thesis
      using task_step_cases(3) [of s ps rs env i] t assms settled by (auto split: option.splits)
  next
    case (Delivery_Running now ds)
    then show ?thesis
      using task_step_cases(4) [of s now ds env i] t assms settled by auto
  qed (use assms t in \<open>auto simp: unsettled_def\<close>)
qed

lemma await_delivery_run:
  assumes "await_delivery env s = (r, s')"
  shows "(task_reach env s0 s \<longrightarrow> task_reach env s0 s') \<and> \<not> unsettled s' \<and> (unsettled s \<longrightarrow> c_idle s')
    \<and> r = (case c_pending_delivery s' of Some (Delivery_Failed e _ _) \<Rightarrow> Raise e | _ \<Rightarrow> Ret ())"
  using assms
proof (induction env s rule: await_delivery.induct)
  case (1 env s)
  show ?case
  proof (cases "unsettled s")
    case True
    obtain u s1 where step: "task_step env (pick env s) s = (u, s1)" by force
    have aw: "await_delivery env s1 = (r, s')"
      using 1(2) True step by (subst (asm) await_delivery.simps) simp
    note IH = 1(1) [OF True]
    have "unsettled s1 \<or> s1 = s' \<and> c_idle s1"
      using task_step_settles [OF True step] aw
      by (subst (asm) await_delivery.simps) (auto split: option.splits delivery_task.splits if_splits)
    moreover have "task_reach env s0 s1" if "task_reach env s0 s" using task_reach.deliver [OF that step] .
    ultimately show ?thesis using IH aw step by auto
  next
    case False
    then show ?thesis using 1(2)
      by (subst (asm) await_delivery.simps) (auto split: option.splits delivery_task.splits)
  qed
qed

text \<open>After the await: returned, or failed with the exception that was raised.\<close>

lemma await_delivery_pending:
  assumes "await_delivery env s = (r, s')" "unsettled s"
  shows "c_pending_delivery s' = Some Delivery_Returned \<and> r = Ret ()
    \<or> (\<exists>e now ds. c_pending_delivery s' = Some (Delivery_Failed e now ds) \<and> r = Raise e)"
proof -
  have some: "c_pending_delivery (snd (task_step env i t)) \<noteq> None" if "c_pending_delivery t \<noteq> None" for env i t
  proof -
    obtain x where x: "c_pending_delivery t = Some x" using \<open>c_pending_delivery t \<noteq> None\<close> by blast
    have se: "c_pending_delivery (settle now ds u) \<noteq> None" for now ds u
      by (auto simp: settle_def split: list.splits)
    show ?thesis
    proof (cases x)
      case (Delivery_Created ps rs)
      then show ?thesis using x se task_step_cases(3) [of t ps rs env i] by (auto split: option.splits)
    next
      case (Delivery_Running now ds)
      then show ?thesis using x se task_step_cases(4) [of t now ds env i] by auto
    next
      case Delivery_Returned
      then show ?thesis using x task_step_cases(2) [of t env i] by auto
    next
      case (Delivery_Failed e now ds)
      then show ?thesis using x task_step_cases(5) [of t e now ds env i] by auto
    qed
  qed
  have "c_pending_delivery s \<noteq> None \<longrightarrow> c_pending_delivery s' \<noteq> None"
    using assms(1)
  proof (induction env s rule: await_delivery.induct)
    case (1 env s)
    show ?case
    proof (cases "unsettled s")
      case True
      then show ?thesis using 1 some [of s env "pick env s"] by (subst (asm) (2) await_delivery.simps) auto
    next
      case False
      then show ?thesis using 1(2)
        by (subst (asm) await_delivery.simps) (auto split: option.splits delivery_task.splits)
    qed
  qed
  moreover have "c_pending_delivery s \<noteq> None" using assms(2) by (auto simp: unsettled_def split: option.splits)
  ultimately show ?thesis
    using await_delivery_run [OF assms(1)] by (auto simp: unsettled_def split: option.splits delivery_task.splits)
qed

lemma mismatch_await:
  assumes p: "c_pending_delivery s = Some (Delivery_Created ps rs)" and len: "length ps \<noteq> length rs"
  shows "\<exists>e s'. await_delivery env s = (Raise e, s') \<and> exn_class_of e = ValueError
    \<and> trace s' = trace s \<and> c_idle s'"
proof -
  obtain e where e: "zip_strict_error ps rs = Some e" "exn_class_of e = ValueError"
    using len by (cases "length rs < length ps") (auto simp: zip_strict_error_def)
  obtain now where "task_step env (pick env s) s =
      (Ret (), s\<lparr>c_pending_delivery := Some (Delivery_Failed e now []), c_idle := True\<rparr>)"
    using task_step_cases(3) [OF p, of env "pick env s"] e by auto
  then have "await_delivery env s = (Raise e, s\<lparr>c_pending_delivery := Some (Delivery_Failed e now []), c_idle := True\<rparr>)"
    using p by (subst await_delivery.simps) (simp add: unsettled_def await_delivery.simps)
  then show ?thesis using e by auto
qed


section \<open>The parse phase accounts for every message\<close>

fun ack_id :: "event \<Rightarrow> message_id option" where
  "ack_id (Ev_XAck _ _ m _) = Some m"
| "ack_id _ = None"

definition acked :: "event list \<Rightarrow> message_id list" where
  "acked evs = List.map_filter ack_id evs"

lemma acked_append [trace_simps]: "acked (xs @ ys) = acked xs @ acked ys"
  by (induction xs) (auto simp: acked_def map_filter_simps split: option.splits)

lemma acked_simps [trace_simps]:
  "acked [] = []"
  "acked (ev # evs) = (case ack_id ev of Some m \<Rightarrow> m # acked evs | None \<Rightarrow> acked evs)"
  by (auto simp: acked_def map_filter_simps split: option.splits)

definition parse_shape :: "message_id \<Rightarrow> parsed_job option outcome \<Rightarrow> event list \<Rightarrow> bool" where
  "parse_shape m r evs =
     (r \<noteq> Hang \<and> \<not> list_ex is_post evs \<and> (r = Ret None \<longrightarrow> acked evs = [m])
      \<and> (\<forall>p. r = Ret (Some p) \<longrightarrow> acked evs = [] \<and> p_message_id p = m))"

lemma batch_skip_emits: "only_emits (batch_skip env m) (parse_shape m)"
  unfolding only_emits_def safe_xack_def parse_shape_def batch_skip_def
  by (auto simp: wp_rules trace_simps split: sum.splits option.splits)

lemma batch_mark_emits:
  "only_emits (then_p (mark_job_cancelled env job m) (batch_skip env m)) (parse_shape m)"
  unfolding then_p_def [of "mark_job_cancelled env job m"]
  by (rule only_emits_bind [OF mark_job_cancelled_emits batch_skip_emits])
    (auto simp: parse_shape_def trace_simps)

lemma batch_parse_ir_emits: "only_emits (batch_parse_ir env m d job url) (parse_shape m)"
  unfolding batch_parse_ir_def
  by (auto simp: parse_shape_def trace_simps intro!: only_emits_raise only_emits_ret batch_skip_emits
      split: sum.splits prod.splits)

lemma batch_parse_job_emits: "only_emits (batch_parse_job env m d job url) (parse_shape m)"
  unfolding batch_parse_job_def
proof (rule only_emits_bind [OF get_job_status_emits])
  fix st
  have branch: "only_emits (if c then then_p (mark_job_cancelled env job m) (batch_skip env m)
      else batch_parse_ir env m d job url) (parse_shape m)" for c
    using batch_mark_emits batch_parse_ir_emits by (cases c) auto
  have "only_emits (bind_p (has_cancel_signal env job) (\<lambda>c.
      if c then then_p (mark_job_cancelled env job m) (batch_skip env m)
      else batch_parse_ir env m d job url)) (parse_shape m)"
    by (rule only_emits_bind [OF has_cancel_signal_emits branch]) (auto simp: parse_shape_def trace_simps)
  then show "only_emits (if st \<in> {Some ''completed'', Some ''cancelled''} then batch_skip env m
      else bind_p (has_cancel_signal env job) (\<lambda>c.
        if c then then_p (mark_job_cancelled env job m) (batch_skip env m)
        else batch_parse_ir env m d job url)) (parse_shape m)"
    using batch_skip_emits by simp
qed (auto simp: parse_shape_def trace_simps)

lemma batch_parse_one_emits: "only_emits (batch_parse_one env msg) (parse_shape (fst msg))"
proof -
  obtain m flds where msg: "msg = (m, flds)" by force
  show ?thesis
  proof (cases "decode_fields flds")
    case (Inl e)
    then show ?thesis unfolding msg batch_parse_one_def
      by (auto simp: from_sum_def bind_p_def raise_def only_emits_def wp_def parse_shape_def trace_simps intro!: exI [of _ "[]"])
  next
    case (Inr d)
    then show ?thesis unfolding msg batch_parse_one_def
      using batch_skip_emits batch_parse_job_emits by (auto simp: from_sum_def bind_p_ret split: option.splits)
  qed
qed

lemma batch_parse_emits:
  "only_emits (batch_parse env parsed msgs)
     (\<lambda>r evs. r \<noteq> Hang \<and> \<not> list_ex is_post evs \<and>
        (\<forall>ps. r = Ret ps \<longrightarrow> mset (acked evs) + mset (map p_message_id ps)
            = mset (map fst msgs) + mset (map p_message_id parsed)))"
proof (induction msgs arbitrary: parsed)
  case Nil
  then show ?case by (auto intro!: only_emits_ret simp: trace_simps)
next
  case (Cons msg msgs)
  show ?case unfolding batch_parse.simps
    by (rule only_emits_bind [OF batch_parse_one_emits Cons.IH])
      (auto simp: parse_shape_def trace_simps split: option.splits)
qed


lemma for_hset_emits:
  assumes "\<And>x. x \<in> set xs \<Longrightarrow> only_emits (f x) (\<lambda>r evs. r \<noteq> Hang \<and> \<not> list_ex is_post evs \<and> acked evs = [])"
  shows "only_emits (for_p xs f) (\<lambda>r evs. r \<noteq> Hang \<and> \<not> list_ex is_post evs \<and> acked evs = [])"
  using assms
proof (induction xs)
  case Nil
  then show ?case by (auto intro!: only_emits_ret simp: trace_simps)
next
  case (Cons x xs)
  show ?case unfolding for_p.simps then_p_def
    by (rule only_emits_bind [OF Cons.prems [of x] Cons.IH]) (use Cons.prems in \<open>auto simp: trace_simps\<close>)
qed

lemma batch_executing_emits:
  "only_emits (batch_executing env p) (\<lambda>r evs. r \<noteq> Hang \<and> \<not> list_ex is_post evs \<and> acked evs = [])"
  unfolding only_emits_def batch_executing_def now_iso_def safe_hset_def
  by (auto simp: wp_rules trace_simps split: sum.splits option.splits)

text \<open>A batch that was handed to the executor: what its background task was created with.\<close>

definition batch_started :: "message list \<Rightarrow> delivery_task option outcome \<Rightarrow> consumer \<Rightarrow> consumer \<Rightarrow> bool" where
  "batch_started msgs r s s' =
     (\<forall>ps rs. r = Ret (Some (Delivery_Created ps rs)) \<longrightarrow>
        (\<exists>evs. trace s' = trace s @ evs \<and> ps \<noteq> [] \<and> \<not> c_idle s' \<and> c_webhook s' = c_webhook s
           \<and> Ev_BatchRun (map (\<lambda>p. (p_ir p, p_shots p)) ps) (Inr rs) \<in> set evs
           \<and> \<not> list_ex is_post evs \<and> mset (acked evs) + mset (map p_message_id ps) = mset (map fst msgs)))"

lemma batch_fallback_None: "wp (batch_fallback fuel env msgs) (\<lambda>r s'. \<forall>t. r \<noteq> Ret (Some t)) s"
  unfolding batch_fallback_def wp_then
  by (rule wpI) (auto simp: wp_ret split: outcome.splits)

lemma process_batch_started: "wp (process_batch fuel env msgs) (\<lambda>r s'. batch_started msgs r s s') s"
proof -
  have fallback: "wp (batch_fallback fuel env msgs) (\<lambda>r s'. batch_started msgs r s s') t" for t
    by (rule wp_mono [OF batch_fallback_None]) (auto simp: batch_started_def)
  have dispatch: "wp (batch_dispatch fuel env msgs ps) (\<lambda>r s'. batch_started msgs r s s') t"
    if t: "trace t = trace s @ evs" "\<not> list_ex is_post evs" "\<not> c_idle t" "c_webhook t = c_webhook s" "ps \<noteq> []"
      "mset (acked evs) + mset (map p_message_id ps) = mset (map fst msgs)" for ps t evs
    using t fallback unfolding batch_dispatch_def Let_def
    by (auto simp: wp_rules batch_started_def trace_simps intro!: fallback split: sum.splits option.splits)
  show ?thesis unfolding process_batch_def wp_bind
  proof (rule only_emits_wp [OF batch_parse_emits])
    fix r :: "parsed_job list outcome" and evs
    assume a: "r \<noteq> Hang \<and> \<not> list_ex is_post evs \<and>
        (\<forall>ps. r = Ret ps \<longrightarrow> mset (acked evs) + mset (map p_message_id ps)
            = mset (map fst msgs) + mset (map p_message_id []))"
    have run: "wp (then_p (for_p ps (batch_executing env)) (batch_dispatch fuel env msgs ps))
        (\<lambda>r s'. batch_started msgs r s s') ((emits evs s)\<lparr>c_idle := False\<rparr>)" if "r = Ret ps" "ps \<noteq> []" for ps
      unfolding wp_then
    proof (rule only_emits_wp [OF for_hset_emits [OF batch_executing_emits]])
      fix q :: "unit outcome" and evs'
      assume b: "q \<noteq> Hang \<and> \<not> list_ex is_post evs' \<and> acked evs' = []"
      show "case q of Ret x \<Rightarrow> wp (batch_dispatch fuel env msgs ps) (\<lambda>r s'. batch_started msgs r s s')
            (emits evs' ((emits evs s)\<lparr>c_idle := False\<rparr>))
          | Raise e \<Rightarrow> batch_started msgs (Raise e) s (emits evs' ((emits evs s)\<lparr>c_idle := False\<rparr>))
          | Hang \<Rightarrow> batch_started msgs Hang s (emits evs' ((emits evs s)\<lparr>c_idle := False\<rparr>))"
      proof (cases q)
        case (Ret u)
        then show ?thesis
          using a b that dispatch [of "emits evs' ((emits evs s)\<lparr>c_idle := False\<rparr>)" "evs @ evs'" ps]
          by (simp add: trace_simps)
      qed (auto simp: batch_started_def)
    qed
    show "case r of Ret x \<Rightarrow> wp (if x = [] then ret None else then_p (modify_p (\<lambda>s. s\<lparr>c_idle := False\<rparr>))
            (then_p (for_p x (batch_executing env)) (batch_dispatch fuel env msgs x)))
            (\<lambda>r s'. batch_started msgs r s s') (emits evs s)
        | Raise e \<Rightarrow> batch_started msgs (Raise e) s (emits evs s)
        | Hang \<Rightarrow> batch_started msgs Hang s (emits evs s)"
    proof (cases r)
      case (Ret ps)
      then show ?thesis
        using run [OF Ret] by (cases "ps = []") (auto simp: wp_ret wp_then [of "modify_p f" for f] wp_modify_p batch_started_def [of msgs "Ret None"])
    qed (auto simp: batch_started_def)
  qed
qed


section \<open>A concrete batch\<close>

definition batch_fields :: "string \<Rightarrow> fields" where
  "batch_fields job = [(PyStr ''job_id'', PyStr job), (PyStr ''callback_url'', PyStr (''https://c/'' @ job)),
     (PyStr ''ir_json'', PyStr ''{}''), (PyStr ''shots'', PyStr ''10'')]"

definition demo_batch :: "message list" where
  "demo_batch = [(''1-0'', batch_fields ''j1''), (''2-0'', [(PyStr ''job_id'', PyStr ''j2'')]), (''3-0'', batch_fields ''j3'')]"

definition batch_env :: env where
  "batch_env = demo_env\<lparr>e_batch_run := Some (\<lambda>_ jobs. Inr (map (\<lambda>(ir, n). noop_run ir n) jobs)), e_schedule := length\<rparr>"

definition demo_parsed :: "string \<Rightarrow> message_id \<Rightarrow> parsed_job" where
  "demo_parsed job m = \<lparr>p_message_id = m, p_job_id = job, p_callback_url = ''https://c/'' @ job, p_ir = demo_ir, p_shots = 10\<rparr>"

definition demo_task :: "delivery_task" where
  "demo_task = Delivery_Created [demo_parsed ''j1'' ''1-0'', demo_parsed ''j3'' ''3-0'']
     [noop_run demo_ir 10, noop_run demo_ir 10]"

definition waiting_consumer :: consumer where
  "waiting_consumer = demo_consumer\<lparr>c_idle := False, c_pending_delivery := Some demo_task\<rparr>"

definition short_consumer :: consumer where
  "short_consumer = demo_consumer\<lparr>c_idle := False,
     c_pending_delivery := Some (Delivery_Created [demo_parsed ''j1'' ''1-0''] [])\<rparr>"

lemma demo_batch_run:
  "fst (process_batch 1 batch_env demo_batch demo_consumer) = Ret (Some demo_task)"
  by code_simp

lemma demo_distinct: "distinct_jobs [demo_parsed ''j1'' ''1-0'', demo_parsed ''j3'' ''3-0'']"
  by (simp add: distinct_jobs_def demo_parsed_def)

lemma waiting_pending:
  "c_pending_delivery waiting_consumer = Some (Delivery_Created
     [demo_parsed ''j1'' ''1-0'', demo_parsed ''j3'' ''3-0''] [noop_run demo_ir 10, noop_run demo_ir 10])"
  "unsettled waiting_consumer"
  by (simp_all add: waiting_consumer_def demo_task_def unsettled_def)

lemma waiting_done: "fst (await_delivery batch_env waiting_consumer) = Ret ()"
  by code_simp


section \<open>Properties\<close>

lemma task_reach_delivery:
  assumes "task_reach env s0 s" "c_pending_delivery s0 = Some (Delivery_Created ps rs)" "distinct_jobs ps"
    and i: "i < length ps"
  shows "list_all loop_event (new_events s0 s)
    \<or> (\<exists>d. delivery_ok d (new_events s0 s) \<and> d_job d = ps ! i \<and> d_result d = rs ! i
          \<and> (c_pending_delivery s = Some Delivery_Returned \<longrightarrow> d_pc d = At_End))"
proof -
  obtain evs where evs: "trace s = trace s0 @ evs" and ok: "task_ok ps rs (c_pending_delivery s) evs"
    using task_reach_ok [OF assms(1-3)] by blast
  have "\<exists>d \<in> set ds. delivery_ok d evs \<and> d_job d = ps ! i \<and> d_result d = rs ! i" if "deliveries_ok ps rs ds evs" for ds
    using that i by (intro bexI [of _ "ds ! i"]) (auto simp: deliveries_ok_def)
  then show ?thesis using ok unfolding new_events_append [OF evs]
    by (cases "(ps, rs, c_pending_delivery s, evs)" rule: task_ok.cases) fastforce+
qed

text \<open>
  C10: in a batch whose jobs and messages are distinct, whatever the order in which the event
  loop runs the concurrent deliveries: once the cancellation flag of a job has been seen no
  webhook for that job follows; every webhook for a job goes to the callback URL of that job
  and carries the result the executor returned at the position of that job; and no message
  is acknowledged twice.
\<close>

theorem batch_delivery_safe:
  assumes "task_reach env s0 s" "c_pending_delivery s0 = Some (Delivery_Created ps rs)" "distinct_jobs ps"
    and "i < length ps"
  shows "\<not> occurs_before (cancel_seen (p_job_id (ps ! i))) (posts_for (p_job_id (ps ! i))) (new_events s0 s)
    \<and> (\<forall>ev \<in> set (new_events s0 s). posts_for (p_job_id (ps ! i)) ev \<longrightarrow>
         (\<exists>hs rep. ev = Ev_Post (p_callback_url (ps ! i)) hs
            (to_dict (result_payload (p_job_id (ps ! i)) (rs ! i))) rep))
    \<and> count_ev (is_ack (p_message_id (ps ! i))) (new_events s0 s) \<le> 1"
  using task_reach_delivery [OF assms]
proof
  assume l: "list_all loop_event (new_events s0 s)"
  have n: "\<not> list_ex (cancel_seen j) (new_events s0 s)" "\<not> list_ex (posts_for j) (new_events s0 s)"
    "count_ev (is_ack m) (new_events s0 s) = 0" for j m
    using l loop_event_foreign by (auto simp: list_all_iff list_ex_iff count_ev_0_iff)
  then show ?thesis using no_occurs_before_left [OF n(1)] by (auto simp: list_ex_iff)
next
  assume "\<exists>d. delivery_ok d (new_events s0 s) \<and> d_job d = ps ! i \<and> d_result d = rs ! i
          \<and> (c_pending_delivery s = Some Delivery_Returned \<longrightarrow> d_pc d = At_End)"
  then obtain d where d: "delivery_ok d (new_events s0 s)" "d_job d = ps ! i" "d_result d = rs ! i" by blast
  then have "acks_due (d_pc d) (count_ev (is_ack (p_message_id (ps ! i))) (new_events s0 s))"
    by (simp add: delivery_ok_def Let_def)
  then have "count_ev (is_ack (p_message_id (ps ! i))) (new_events s0 s) \<le> 1" by (cases "d_pc d") auto
  with d show ?thesis by (simp add: delivery_ok_def Let_def)
qed

theorem batch_delivery_safe_witness:
  "task_reach batch_env waiting_consumer (snd (await_delivery batch_env waiting_consumer))
   \<and> count_ev (is_ack ''3-0'') (new_events waiting_consumer (snd (await_delivery batch_env waiting_consumer))) \<le> 1"
proof -
  have r: "task_reach batch_env waiting_consumer (snd (await_delivery batch_env waiting_consumer))"
    using await_delivery_run [of batch_env waiting_consumer] task_reach.start by (metis prod.collapse)
  show ?thesis
    using r batch_delivery_safe [OF r waiting_pending(1) demo_distinct, of 1] by (simp add: demo_parsed_def)
qed

text \<open>
  C19: when the background task of a batch has returned, every message of the batch that was
  handed to the executor has been acknowledged exactly once.
\<close>

theorem batch_delivery_acknowledges:
  assumes "task_reach env s0 s" "c_pending_delivery s0 = Some (Delivery_Created ps rs)" "distinct_jobs ps"
    and "i < length ps" and ret: "c_pending_delivery s = Some Delivery_Returned"
  shows "count_ev (is_ack (p_message_id (ps ! i))) (new_events s0 s) = 1"
proof -
  obtain evs ds where evs: "trace s = trace s0 @ evs" and ds: "deliveries_ok ps rs ds evs" "\<forall>d \<in> set ds. d_pc d = At_End"
    using task_reach_ok [OF assms(1-3)] ret by auto
  then have "ds ! i \<in> set ds" "d_job (ds ! i) = ps ! i" using assms(4) by (auto simp: deliveries_ok_def)
  then have "acks_due At_End (count_ev (is_ack (p_message_id (ps ! i))) evs)"
    using ds by (metis (no_types, lifting) delivery_ok_def deliveries_ok_def)
  then show ?thesis by (simp add: new_events_append [OF evs])
qed

theorem batch_delivery_acknowledges_witness:
  "c_pending_delivery (snd (await_delivery batch_env waiting_consumer)) = Some Delivery_Returned
   \<and> count_ev (is_ack ''3-0'') (new_events waiting_consumer (snd (await_delivery batch_env waiting_consumer))) = 1"
proof -
  let ?s = "snd (await_delivery batch_env waiting_consumer)"
  have run: "await_delivery batch_env waiting_consumer = (Ret (), ?s)"
    using waiting_done by (metis prod.collapse)
  have r: "task_reach batch_env waiting_consumer ?s"
    using await_delivery_run [OF run] task_reach.start by blast
  have p: "c_pending_delivery ?s = Some Delivery_Returned"
    using await_delivery_pending [OF run waiting_pending(2)] by auto
  show ?thesis
    using p batch_delivery_acknowledges [OF r waiting_pending(1) demo_distinct _ p, of 1] by (simp add: demo_parsed_def)
qed

text \<open>
  C37: the consume loop's wait for a background task ends under every schedule of the event
  loop, and then the consumer is idle; it returns exactly when the task has returned, and
  otherwise raises the exception with which the task failed.
\<close>

theorem await_delivery_ends:
  assumes "unsettled s"
  shows "\<exists>s'. c_idle s' \<and>
    (await_delivery env s = (Ret (), s') \<and> c_pending_delivery s' = Some Delivery_Returned
     \<or> (\<exists>e now ds. await_delivery env s = (Raise e, s')
          \<and> c_pending_delivery s' = Some (Delivery_Failed e now ds)))"
proof -
  obtain r s' where run: "await_delivery env s = (r, s')" by force
  show ?thesis
    using await_delivery_run [OF run] await_delivery_pending [OF run assms] assms run by auto
qed

theorem await_delivery_ends_witness:
  "unsettled waiting_consumer \<and> (\<exists>s'. c_idle s' \<and> await_delivery batch_env waiting_consumer = (Ret (), s'))"
  using waiting_pending(2) waiting_done await_delivery_ends [OF waiting_pending(2), of batch_env] by auto

text \<open>
  When the executor returns a number of results different from the number of jobs, the
  background task fails with a \<open>ValueError\<close> before any delivery has started: nothing is
  posted, and no message of the batch is acknowledged.
\<close>

theorem result_count_mismatch:
  assumes "c_pending_delivery s = Some (Delivery_Created ps rs)" "length ps \<noteq> length rs"
  shows "\<exists>e s'. await_delivery env s = (Raise e, s') \<and> exn_class_of e = ValueError
    \<and> trace s' = trace s \<and> c_idle s'"
  by (rule mismatch_await [OF assms])

theorem result_count_mismatch_witness:
  "\<exists>e s'. await_delivery batch_env short_consumer = (Raise e, s') \<and> exn_class_of e = ValueError
    \<and> trace s' = []"
proof -
  have p: "c_pending_delivery short_consumer = Some (Delivery_Created [demo_parsed ''j1'' ''1-0''] [])"
    "length [demo_parsed ''j1'' ''1-0''] \<noteq> length ([] :: execution_result list)" "trace short_consumer = []"
    by (simp_all add: short_consumer_def demo_consumer_def new_consumer_def)
  show ?thesis using result_count_mismatch [OF p(1,2), of batch_env] p(3) by auto
qed


text \<open>
  C24: a batch that is handed to the executor loses no message: every message read is either
  acknowledged in the parse phase or among the parsed jobs, and exactly as often as it was
  read; the executor is called with the circuits and shots of the parsed jobs in their order;
  and nothing has been posted yet.
\<close>

theorem process_batch_accounts:
  assumes run: "process_batch fuel env msgs s = (Ret (Some (Delivery_Created ps rs)), s')"
  shows "mset (acked (new_events s s')) + mset (map p_message_id ps) = mset (map fst msgs)
    \<and> Ev_BatchRun (map (\<lambda>p. (p_ir p, p_shots p)) ps) (Inr rs) \<in> set (new_events s s')
    \<and> \<not> list_ex is_post (new_events s s')"
  using wp_run [OF process_batch_started run] by (auto simp: batch_started_def new_events_append)

theorem process_batch_accounts_witness:
  "\<exists>s'. process_batch 1 batch_env demo_batch demo_consumer = (Ret (Some demo_task), s')
     \<and> mset (acked (new_events demo_consumer s')) + {#''1-0'', ''3-0''#} = {#''1-0'', ''2-0'', ''3-0''#}"
proof -
  obtain s' where run: "process_batch 1 batch_env demo_batch demo_consumer = (Ret (Some demo_task), s')"
    using demo_batch_run by (metis prod.collapse)
  show ?thesis
    using run process_batch_accounts [OF run [unfolded demo_task_def]]
    by (auto simp: demo_batch_def demo_parsed_def)
qed

end
