(* ===== verification/Consumer_Props.thy ===== *)
theory Consumer_Props
  imports Samples
begin

text \<open>
  The properties of \<open>_process_message\<close>, for every behaviour of Redis, of the executor, of the
  cloud and of the event loop, and the concrete runs that witness them.
\<close>

section \<open>Reading the events of an executed message\<close>

definition post_origin :: "env \<Rightarrow> hash \<Rightarrow> string \<Rightarrow> string \<Rightarrow> event list \<Rightarrow> event \<Rightarrow> bool" where
  "post_origin env d job url evs ev =
     (\<exists>hs b rep. ev = Ev_Post url hs b rep \<and>
        ((\<exists>ir shots x. parse_job env d = Inr (ir, shots) \<and> Ev_RunAwait ir shots (Inr x) \<in> set evs
            \<and> b = to_dict (result_payload job x))
         \<or> (\<exists>txt. code_points txt \<le> 500 \<and> b = to_dict (error_payload job txt))))"

definition posts_accounted :: "env \<Rightarrow> hash \<Rightarrow> string \<Rightarrow> string \<Rightarrow> event list \<Rightarrow> bool" where
  "posts_accounted env d job url evs = (\<forall>ev \<in> set evs. is_post ev \<longrightarrow> post_origin env d job url evs ev)"

lemma delivery_event_post: "delivery_event url b ev \<Longrightarrow> is_post ev \<Longrightarrow> \<exists>hs rep. ev = Ev_Post url hs b rep"
  by (cases ev) auto

lemma posts_accounted_silent: "\<not> list_ex is_post evs \<Longrightarrow> posts_accounted env d job url evs"
  by (auto simp: posts_accounted_def list_ex_iff)

lemma post_origin_mono: "post_origin env d job url evs ev \<Longrightarrow> set evs \<subseteq> set evs' \<Longrightarrow> post_origin env d job url evs' ev"
  unfolding post_origin_def by blast

lemma posts_accounted_append:
  "posts_accounted env d job url xs \<Longrightarrow> posts_accounted env d job url ys \<Longrightarrow> posts_accounted env d job url (xs @ ys)"
  unfolding posts_accounted_def using post_origin_mono by (metis Un_iff Un_upper1 Un_upper2 set_append)

lemma posts_accounted_Cons:
  "\<not> is_post ev \<Longrightarrow> posts_accounted env d job url evs \<Longrightarrow> posts_accounted env d job url (ev # evs)"
  using posts_accounted_append [of env d job url "[ev]" evs] posts_accounted_silent [of "[ev]"] by simp

lemma body_shape_accounted: "body_shape env wc d job url r evs \<Longrightarrow> posts_accounted env d job url evs"
  unfolding body_shape_def
proof (elim disjE)
  assume "silent_shape job r evs"
  then show ?thesis by (auto simp: silent_shape_def intro: posts_accounted_silent dest: silent_no_post(1))
next
  assume "reported_shape env wc d job url r evs"
  then obtain ir shots x pre now rep ps where
    p: "parse_job env d = Inr (ir, shots)"
    and evs: "evs = pre @ [Ev_HSet (status_key job) [(''state'', ''completed''), (''completed_at'', now)] rep,
                   Ev_Get (cancel_key job) (Inr None)] @ ps"
    and pre: "list_all (poll_event job ir shots) pre" "Ev_RunAwait ir shots (Inr x) \<in> set pre"
    and ps: "list_all (delivery_event url (to_dict (result_payload job x))) ps"
    unfolding reported_shape_def by blast
  have np: "\<not> list_ex is_post pre" using pre(1) list_ex_poll_event(1) by blast
  show ?thesis unfolding posts_accounted_def
  proof (intro ballI impI)
    fix ev
    assume ev: "ev \<in> set evs" "is_post ev"
    then have "ev \<in> set ps" using evs np by (auto simp: list_ex_iff)
    then obtain hs rp where "ev = Ev_Post url hs (to_dict (result_payload job x)) rp"
      using ps ev(2) delivery_event_post by (metis list_all_iff)
    then show "post_origin env d job url evs ev"
      unfolding post_origin_def using p pre(2) evs by fastforce
  qed
qed

lemma handler_shape_accounted: "handler_shape wc mid job url e r evs \<Longrightarrow> posts_accounted env d job url evs"
  unfolding handler_shape_def
proof (elim conjE disjE exE)
  fix fs
  assume fs: "evs = Ev_Get (cancel_key job) (Inr None) # fs" "failed_shape wc job url e r fs"
  then obtain now rep ps where ps: "fs = Ev_HSet (status_key job)
        [(''state'', ''failed''), (''error'', str_take 500 (exn_text e)), (''failed_at'', now)] rep # ps"
    "list_all (delivery_event url (to_dict (error_payload job (str_take 500 (exn_text e))))) ps"
    by (auto simp: failed_shape_def)
  show ?thesis unfolding posts_accounted_def
  proof (intro ballI impI)
    fix ev
    assume ev: "ev \<in> set evs" "is_post ev"
    then have "ev \<in> set ps" using fs ps by auto
    then obtain hs rp where "ev = Ev_Post url hs (to_dict (error_payload job (str_take 500 (exn_text e)))) rp"
      using ps ev(2) delivery_event_post by (metis list_all_iff)
    moreover have "code_points (str_take 500 (exn_text e)) \<le> 500" by (rule code_points_str_take)
    ultimately show "post_origin env d job url evs ev"
      unfolding post_origin_def by (intro exI conjI disjI2) (assumption | rule refl)+
  qed
qed (auto intro!: posts_accounted_silent)

lemma job_events_accounted: "job_events env wc mid d job url r evs \<Longrightarrow> posts_accounted env d job url evs"
  unfolding job_events_def
  using body_shape_accounted handler_shape_accounted posts_accounted_append by metis

subsection \<open>The states a job is written to\<close>

text \<open>
  The life of a job as its status record shows it: it starts executing or is found cancelled;
  from \<open>executing\<close> it completes, fails or is cancelled; a completed job may still be cancelled
  before the webhook, or fail because the webhook did.
\<close>

inductive status_step :: "string option \<Rightarrow> string \<Rightarrow> bool" where
  begin_job: "status_step None ''executing''"
| cancel_new: "status_step None ''cancelled''"
| complete: "status_step (Some ''executing'') ''completed''"
| fail_job: "status_step (Some ''executing'') ''failed''"
| cancel_running: "status_step (Some ''executing'') ''cancelled''"
| cancel_completed: "status_step (Some ''completed'') ''cancelled''"
| fail_completed: "status_step (Some ''completed'') ''failed''"

code_pred status_step .

inductive_simps status_step_iff: "status_step st w"

text \<open>
  \<open>status_path job st ws\<close>: the writes \<open>ws\<close> go to the record of \<open>job\<close> and lead it from \<open>st\<close>
  along the steps above.
\<close>

fun status_path :: "string \<Rightarrow> string option \<Rightarrow> (string \<times> string option) list \<Rightarrow> bool" where
  "status_path job st [] = True"
| "status_path job st ((k, None) # ws) = False"
| "status_path job st ((k, Some w) # ws) = (k = status_key job \<and> status_step st w \<and> status_path job (Some w) ws)"

lemma body_shape_writes:
  "body_shape env wc d job url r evs \<Longrightarrow> status_writes evs \<in> {[], [(status_key job, Some ''completed'')]}"
  unfolding body_shape_def silent_shape_def reported_shape_def
  by (auto simp: trace_simps poll_events_no_status delivery_events_no_status)

lemma handler_shape_writes:
  "handler_shape wc mid job url e r evs \<Longrightarrow>
   status_writes evs \<in> {[], [(status_key job, Some ''cancelled'')], [(status_key job, Some ''failed'')]}"
  unfolding handler_shape_def failed_shape_def
  by (auto simp: trace_simps delivery_events_no_status)

lemma job_events_writes:
  assumes "job_events env wc mid d job url r evs"
  shows "status_path job (Some ''executing'') (status_writes evs)"
  using assms unfolding job_events_def
proof (elim disjE conjE exE)
  assume "body_shape env wc d job url r evs"
  then show ?thesis using body_shape_writes by (fastforce simp: status_step_iff)
next
  fix e b h
  assume "evs = b @ h" and b: "body_shape env wc d job url (Raise e) b"
    and h: "handler_shape wc mid job url e r h"
  then show ?thesis using body_shape_writes [OF b] handler_shape_writes [OF h]
    by (auto simp: trace_simps status_step_iff)
qed


subsection \<open>What holds of every message\<close>

definition message_facts ::
    "env \<Rightarrow> message_id \<Rightarrow> hash \<Rightarrow> string \<Rightarrow> string \<Rightarrow> consumer \<Rightarrow> unit outcome \<Rightarrow> consumer \<Rightarrow> event list \<Rightarrow> bool" where
  "message_facts env mid d job url s r s' evs =
     (trace s' = trace s @ evs
      \<and> status_path job None (status_writes evs)
      \<and> \<not> occurs_before (cancel_seen job) is_post evs
      \<and> count_ev is_delivery evs \<le> 1
      \<and> posts_accounted env d job url evs
      \<and> count_ev (is_ack mid) evs \<le> 1
      \<and> (r = Ret () \<longrightarrow> evs \<noteq> [] \<and> is_ack mid (last evs) \<and> count_ev (is_ack mid) evs = 1))"

lemma is_ack_is_xack: "is_ack m ev \<Longrightarrow> is_xack ev"
  by (cases ev) auto

lemma no_xack_no_ack: "list_all (\<lambda>ev. \<not> is_xack ev) evs \<Longrightarrow> count_ev (is_ack m) evs = 0"
  using is_ack_is_xack by (auto simp: count_ev_0_iff list_all_iff list_ex_iff)

lemma is_ack_others: "is_ack m ev \<Longrightarrow> \<not> is_post ev \<and> \<not> is_delivery ev \<and> \<not> cancel_seen job ev"
  by (cases ev) auto

lemma executing_write_others:
  "executing_write mid job ev \<Longrightarrow> \<not> is_post ev \<and> \<not> is_delivery ev \<and> \<not> cancel_seen j ev \<and> \<not> is_ack m ev"
  by (auto simp: executing_write_def)

lemma is_ack_writes: "is_ack m ev \<Longrightarrow> status_write ev = None"
  by (cases ev) auto

lemma executing_write_writes:
  "executing_write mid job ev \<Longrightarrow> status_write ev = Some (status_key job, Some ''executing'')"
  by (auto simp: executing_write_def)

lemma skip_shape_facts:
  assumes "skip_shape mid job r evs" "trace s' = trace s @ evs"
  shows "message_facts env mid d job url s r s' evs"
proof -
  have "is_delivery ev \<Longrightarrow> is_post ev" for ev by (cases ev) auto
  then have "count_ev is_delivery evs = 0"
    using assms by (auto simp: skip_shape_def count_ev_0_iff list_ex_iff)
  moreover have "status_path job None (status_writes evs)"
    using assms by (auto simp: skip_shape_def status_step_iff)
  ultimately show ?thesis using assms posts_accounted_silent no_occurs_before_right [of is_post evs "cancel_seen job"]
    by (auto simp: skip_shape_def message_facts_def)
qed

lemma job_events_message_facts:
  assumes ev: "executing_write mid job ev" and je: "job_events env wc mid d job url r0 evs"
    and ack: "acks = [] \<and> r \<noteq> Ret () \<or> (\<exists>ack. acks = [ack] \<and> is_ack mid ack)"
    and tr: "trace s' = trace s @ [Ev_HGet k f rep, Ev_Get (cancel_key job) (Inr None)] @ ev # evs @ acks"
  shows "\<exists>all. message_facts env mid d job url s r s' all"
proof -
  let ?all = "[Ev_HGet k f rep, Ev_Get (cancel_key job) (Inr None)] @ ev # evs @ acks"
  have jf: "list_all (\<lambda>ev. \<not> is_xack ev) evs" "\<not> occurs_before (cancel_seen job) is_post evs"
    "count_ev is_delivery evs \<le> 1" using job_events_facts [OF je] by (auto simp: job_facts_def)
  have a: "\<not> list_ex is_post acks \<and> \<not> list_ex (cancel_seen job) acks \<and> count_ev is_delivery acks = 0
      \<and> count_ev (is_ack mid) acks = length acks" using ack is_ack_others by (auto simp: trace_simps)
  have "posts_accounted env d job url ?all"
    using a executing_write_others [OF ev] job_events_accounted [OF je]
    by (auto intro!: posts_accounted_Cons posts_accounted_append posts_accounted_silent [of acks])
  moreover have "\<not> occurs_before (cancel_seen job) is_post ?all"
    using a jf(2) executing_write_others [OF ev] no_occurs_before_right [of is_post acks]
    by (simp add: trace_simps)
  moreover have "count_ev is_delivery ?all \<le> 1"
    using a jf(3) executing_write_others [OF ev] by (simp add: trace_simps)
  moreover have "count_ev (is_ack mid) ?all = length acks"
    using a no_xack_no_ack [OF jf(1)] executing_write_others [OF ev] by (simp add: trace_simps)
  moreover have "status_path job None (status_writes ?all)"
    using job_events_writes [OF je] executing_write_writes [OF ev] ack is_ack_writes
    by (auto simp: trace_simps status_step_iff)
  ultimately have "message_facts env mid d job url s r s' ?all"
    unfolding message_facts_def using tr ack by auto
  then show ?thesis ..
qed

lemma executed_facts:
  assumes "executed env mid d job url s r s'"
  shows "\<exists>evs. message_facts env mid d job url s r s' evs"
proof -
  obtain rep where "let s1 = emits [Ev_HGet (status_key job) ''state'' rep, Ev_Get (cancel_key job) (Inr None)] s in
        stuck_write mid job s1 r s' \<or> still_running env mid d job url s1 r s' \<or> cleaned_up env mid d job url s1 r s'"
    using assms by (auto simp: executed_def)
  then show ?thesis unfolding Let_def
  proof (elim disjE)
    assume "stuck_write mid job (emits [Ev_HGet (status_key job) ''state'' rep, Ev_Get (cancel_key job) (Inr None)] s) r s'"
    then obtain ev e where w: "executing_write mid job ev" "r = Raise e"
      "trace s' = trace s @ [Ev_HGet (status_key job) ''state'' rep, Ev_Get (cancel_key job) (Inr None), ev]"
      by (auto simp: stuck_write_def)
    then show ?thesis
      using executing_write_others [OF w(1)] executing_write_writes [OF w(1)]
      by (intro exI [of _ "[Ev_HGet (status_key job) ''state'' rep, Ev_Get (cancel_key job) (Inr None), ev]"])
        (auto simp: message_facts_def trace_simps posts_accounted_def status_step_iff)
  next
    assume "still_running env mid d job url (emits [Ev_HGet (status_key job) ''state'' rep, Ev_Get (cancel_key job) (Inr None)] s) r s'"
    then show ?thesis
      by (auto simp: still_running_def intro!: job_events_message_facts [where acks = "[]"])
  next
    assume "cleaned_up env mid d job url (emits [Ev_HGet (status_key job) ''state'' rep, Ev_Get (cancel_key job) (Inr None)] s) r s'"
    then obtain ev evs ack r0 where
      "executing_write mid job ev" "job_events env (c_webhook s) mid d job url r0 evs" "is_ack mid ack"
      "trace s' = trace s @ [Ev_HGet (status_key job) ''state'' rep, Ev_Get (cancel_key job) (Inr None)] @ ev # evs @ [ack]"
      by (auto simp: cleaned_up_def split: if_splits)
    then show ?thesis by (intro job_events_message_facts [where acks = "[ack]"]) auto
  qed
qed


section \<open>What one call of process_message adds\<close>

lemma process_message_facts:
  assumes run: "process_message fuel env mid flds s = (r, s')"
    and d: "decode_fields flds = Inr d" and job: "map_of d ''job_id'' = Some job"
    and url: "map_of d ''callback_url'' = Some url"
  shows "message_facts env mid d job url s r s' (new_events s s')"
proof -
  have "\<exists>evs. message_facts env mid d job url s r s' evs"
    using process_message_processed [OF run] unfolding processed_def
  proof (elim disjE exE conjE)
    fix evs j
    assume *: "s' = emits evs s" "skip_shape mid j r evs"
      "status_writes evs \<noteq> [] \<longrightarrow> (\<exists>d. decode_fields flds = Inr d \<and> map_of d ''job_id'' = Some j)"
    then have "skip_shape mid job r evs" using d job by (auto simp: skip_shape_def)
    then show ?thesis using skip_shape_facts [of mid job r evs s' s] * by auto
  qed (use d job url executed_facts in auto)
  then show ?thesis by (metis message_facts_def new_events_append)
qed

lemma process_message_skipped:
  assumes run: "process_message fuel env mid flds s = (r, s')"
    and "\<not> (\<exists>d job url. decode_fields flds = Inr d \<and> map_of d ''job_id'' = Some job \<and> map_of d ''callback_url'' = Some url)"
  shows "trace s' = trace s @ new_events s s' \<and> (\<exists>job. skip_shape mid job r (new_events s s'))"
  using process_message_processed [OF run] assms(2)
  by (auto simp: processed_def new_events_append)


lemma returned_acks:
  assumes run: "process_message fuel env mid flds s = (Ret (), s')"
  shows "new_events s s' \<noteq> [] \<and> is_ack mid (last (new_events s s'))
    \<and> count_ev (is_ack mid) (new_events s s') = 1"
proof (cases "\<exists>d job url. decode_fields flds = Inr d \<and> map_of d ''job_id'' = Some job \<and> map_of d ''callback_url'' = Some url")
  case True
  then show ?thesis using process_message_facts [OF run] by (auto simp: message_facts_def)
next
  case False
  then show ?thesis using process_message_skipped [OF run] by (auto simp: skip_shape_def)
qed



section \<open>Processing ends\<close>

fun is_poll :: "event \<Rightarrow> bool" where
  "is_poll (Ev_RunPoll _) = True"
| "is_poll _ = False"

text \<open>
  \<open>poll_budget n fuel s\<close>: the fuel covers the polls that remain when a run is never found
  running after its \<open>n\<close>-th poll.
\<close>

definition poll_budget :: "nat \<Rightarrow> nat \<Rightarrow> consumer \<Rightarrow> bool" where
  "poll_budget n fuel s = (0 < fuel \<and> n < fuel + count_ev is_poll (trace s))"

lemma poll_budget_trace: "poll_budget n fuel s \<Longrightarrow> trace s' = trace s @ evs \<Longrightarrow> poll_budget n fuel s'"
  by (simp add: poll_budget_def trace_simps)

lemma cancel_running_job_returns: "wp (cancel_running_job env job) (\<lambda>r s'. r \<noteq> Hang) s"
  by (rule only_emits_wp [OF cancel_running_job_emits]) auto

lemma run_polling_returns:
  assumes bound: "\<And>h. n \<le> count_ev is_poll h \<Longrightarrow> e_run_poll env h \<noteq> Inr False"
  shows "poll_budget n fuel s \<Longrightarrow> wp (run_polling fuel env job ir shots) (\<lambda>r s'. r \<noteq> Hang) s"
proof (induction fuel arbitrary: s)
  case 0
  then show ?case by (simp add: poll_budget_def)
next
  case (Suc fuel)
  have more: "wp (run_polling fuel env job ir shots) (\<lambda>r s'. r \<noteq> Hang)
      (emits [Ev_RunPoll (Inr False), Ev_Get k rep] s)" if "e_run_poll env (trace s) = Inr False" for k rep
  proof (rule Suc.IH)
    have "\<not> n \<le> count_ev is_poll (trace s)" using bound [of "trace s"] that by blast
    then show "poll_budget n fuel (emits [Ev_RunPoll (Inr False), Ev_Get k rep] s)"
      using Suc.prems by (simp add: poll_budget_def trace_simps)
  qed
  show ?case
    using more cancel_running_job_returns
    by (auto simp: has_cancel_signal_def wp_rules split: sum.splits option.splits)
qed

lemma run_job_returns:
  assumes bound: "\<And>h. n \<le> count_ev is_poll h \<Longrightarrow> e_run_poll env h \<noteq> Inr False"
  shows "returns (poll_budget n fuel) (run_job_with_cancellation fuel env job ir shots)"
  unfolding returns_def
proof (intro allI impI)
  fix s
  assume s: "poll_budget n fuel s"
  have "wp (run_polling fuel env job ir shots) (\<lambda>r s'. r \<noteq> Hang) (emits [Ev_RunStart ir shots] s)"
    by (rule run_polling_returns [OF bound]) (auto intro: poll_budget_trace [OF s])
  then have "wp (run_job_with_cancellation fuel env job ir shots) (\<lambda>r s'. r \<noteq> Hang) s"
    unfolding run_job_with_cancellation_def wp_then wp_log_event outcome.case wp_try_finally
    by (rule wp_mono) (auto simp: cancel_unless_done_def wp_rules split: outcome.splits)
  moreover have "wp (run_job_with_cancellation fuel env job ir shots) (\<lambda>r s'. poll_budget n fuel s') s"
    by (rule only_emits_wp [OF run_job_emits]) (auto intro: poll_budget_trace [OF s])
  ultimately show "wp (run_job_with_cancellation fuel env job ir shots) (\<lambda>r s'. r \<noteq> Hang \<and> poll_budget n fuel s') s"
    by (rule wp_conj)
qed

lemma process_message_returns:
  assumes bound: "\<And>h. n \<le> count_ev is_poll h \<Longrightarrow> e_run_poll env h \<noteq> Inr False"
  shows "returns (poll_budget n fuel) (process_message fuel env mid flds)"
proof -
  have keep: "poll_budget n fuel s \<Longrightarrow> poll_budget n fuel (emits evs s)" for s evs
    by (simp add: poll_budget_trace)
  have fld: "poll_budget n fuel (s\<lparr>c_idle := i, c_current_job := j\<rparr>) = poll_budget n fuel s"
    "poll_budget n fuel (s\<lparr>c_current_job := j, c_idle := i\<rparr>) = poll_budget n fuel s"
    "poll_budget n fuel (s\<lparr>c_last_job_at := l\<rparr>) = poll_budget n fuel s" for s i j l
    by (simp_all add: poll_budget_def)
  have simple: "returns (poll_budget n fuel) (safe_xack env mid)" "returns (poll_budget n fuel) (safe_hset env k h)"
    "returns (poll_budget n fuel) (has_cancel_signal env job)" "returns (poll_budget n fuel) (get_job_status env job)"
    "returns (poll_budget n fuel) (mark_job_cancelled env job mid)"
    "returns (poll_budget n fuel) (send_result env wc url p)" for k h job wc url p
    by (rule only_emits_returns [OF safe_xack_emits] only_emits_returns [OF safe_hset_emits]
        only_emits_returns [OF has_cancel_signal_emits] only_emits_returns [OF get_job_status_emits]
        only_emits_returns [OF mark_job_cancelled_emits] only_emits_returns [OF send_result_emits]; auto intro: keep)+
  have handler: "returns (poll_budget n fuel) k" if "job_handler env mid job url e = Some k" for job url e k
    using that unfolding job_handler_def job_failed_def send_error_def now_iso_def
    by (auto split: if_splits intro!: returns_intros simple)
  have report: "returns (poll_budget n fuel) (job_report env job url x)" for job url x
    unfolding job_report_def now_iso_def
    by (intro returns_intros simple) (auto simp: fld)
  have body: "returns (poll_budget n fuel) (job_body fuel env d job url)" for d job url
    unfolding job_body_def by (auto intro!: returns_intros run_job_returns [OF bound] report)
  have exec: "returns (poll_budget n fuel) (execute_job fuel env mid d job url)" for d job url
    unfolding execute_job_def job_cleanup_def now_iso_def
    by (intro returns_intros simple body) (auto simp: fld intro: handler)
  show ?thesis
    unfolding process_message_def process_job_def ack_and_return_def
    by (auto split: option.splits intro!: returns_intros simple exec)
qed


section \<open>Concrete runs\<close>


definition cancelling_env :: env where
  "cancelling_env = demo_env\<lparr>e_get := (\<lambda>h k. Inr (if list_ex starts_run h then Some (PyStr ''1'') else None))\<rparr>"

definition shutdown_env :: env where
  "shutdown_env = demo_env\<lparr>e_run_poll := (\<lambda>h. Inl (Exn CancelledError []))\<rparr>"

lemma demo_runs:
  "\<exists>s'. process_message 1 demo_env ''1-0'' demo_fields demo_consumer = (Ret (), s')"
  "\<exists>s'. process_message 1 cancelling_env ''1-0'' demo_fields demo_consumer = (Ret (), s')
     \<and> list_ex (cancel_seen ''j1'') (new_events demo_consumer s')"
  "\<exists>s'. process_message 1 shutdown_env ''1-0'' demo_fields demo_consumer = (Raise (Exn CancelledError []), s')
     \<and> list_ex starts_run (new_events demo_consumer s')"
proof -
  have "fst (process_message 1 demo_env ''1-0'' demo_fields demo_consumer) = Ret ()" by code_simp
  then show "\<exists>s'. process_message 1 demo_env ''1-0'' demo_fields demo_consumer = (Ret (), s')"
    by (metis prod.collapse)
  have "fst (process_message 1 cancelling_env ''1-0'' demo_fields demo_consumer) = Ret ()"
    "list_ex (cancel_seen ''j1'') (new_events demo_consumer
       (snd (process_message 1 cancelling_env ''1-0'' demo_fields demo_consumer)))" by code_simp+
  then show "\<exists>s'. process_message 1 cancelling_env ''1-0'' demo_fields demo_consumer = (Ret (), s')
     \<and> list_ex (cancel_seen ''j1'') (new_events demo_consumer s')" by (metis prod.collapse)
  have "fst (process_message 1 shutdown_env ''1-0'' demo_fields demo_consumer) = Raise (Exn CancelledError [])"
    "list_ex starts_run (new_events demo_consumer
       (snd (process_message 1 shutdown_env ''1-0'' demo_fields demo_consumer)))" by code_simp+
  then show "\<exists>s'. process_message 1 shutdown_env ''1-0'' demo_fields demo_consumer = (Raise (Exn CancelledError []), s')
     \<and> list_ex starts_run (new_events demo_consumer s')" by (metis prod.collapse)
qed



section \<open>Properties\<close>

text \<open>
  C1: when processing a stream message returns, the message has been acknowledged: exactly
  one \<^verbatim>\<open>XACK\<close> for it was issued, and it was the last call made.
\<close>

theorem process_message_acknowledges:
  assumes "process_message fuel env mid flds s = (Ret (), s')"
  shows "new_events s s' \<noteq> [] \<and> is_ack mid (last (new_events s s'))
    \<and> count_ev (is_ack mid) (new_events s s') = 1"
  by (rule returned_acks [OF assms])

theorem process_message_acknowledges_witness:
  "\<exists>s'. process_message 1 demo_env ''1-0'' demo_fields demo_consumer = (Ret (), s')
     \<and> count_ev (is_ack ''1-0'') (new_events demo_consumer s') = 1"
  using demo_runs(1) process_message_acknowledges by blast

text \<open>
  C2: whenever the cloud's cancellation flag has been seen set for a job, no webhook is
  posted afterwards, neither a result nor an error.
\<close>

theorem no_webhook_after_cancellation:
  assumes run: "process_message fuel env mid flds s = (r, s')"
    and d: "decode_fields flds = Inr d" and job: "map_of d ''job_id'' = Some job"
  shows "trace s' = trace s @ new_events s s'
    \<and> \<not> occurs_before (cancel_seen job) is_post (new_events s s')"
proof (cases "map_of d ''callback_url''")
  case None
  then show ?thesis
    using process_message_skipped [OF run] d no_occurs_before_right by (auto simp: skip_shape_def)
next
  case (Some url)
  then show ?thesis using process_message_facts [OF run d job] by (auto simp: message_facts_def)
qed

theorem no_webhook_after_cancellation_witness:
  "\<exists>s'. process_message 1 cancelling_env ''1-0'' demo_fields demo_consumer = (Ret (), s')
     \<and> list_ex (cancel_seen ''j1'') (new_events demo_consumer s')
     \<and> \<not> occurs_before (cancel_seen ''j1'') is_post (new_events demo_consumer s')"
  using demo_runs(2) no_webhook_after_cancellation [OF _ demo_decode(1,2)] by blast

text \<open>
  C6: every webhook of a message goes to the callback URL of that message; it carries
  either the result that the executor returned for the circuit and shots of that message,
  or a failure report with an error text of at most 500 characters; and at most one of them
  is accepted by the cloud.
\<close>

theorem webhooks_accounted_for:
  assumes run: "process_message fuel env mid flds s = (r, s')"
    and d: "decode_fields flds = Inr d" and job: "map_of d ''job_id'' = Some job"
    and url: "map_of d ''callback_url'' = Some url"
  shows "(\<forall>ev \<in> set (new_events s s'). is_post ev \<longrightarrow> post_origin env d job url (new_events s s') ev)
    \<and> count_ev is_delivery (new_events s s') \<le> 1"
  using process_message_facts [OF run d job url] by (simp add: message_facts_def posts_accounted_def)

theorem webhooks_accounted_for_witness:
  "\<exists>s'. process_message 1 demo_env ''1-0'' demo_fields demo_consumer = (Ret (), s')
     \<and> posts_accounted demo_env demo_hash ''j1'' ''https://c'' (new_events demo_consumer s')
     \<and> count_ev is_delivery (new_events demo_consumer s') \<le> 1"
  using demo_runs(1) webhooks_accounted_for [OF _ demo_decode] unfolding posts_accounted_def by blast

text \<open>
  C11: the states written to the status record of a job follow its life cycle: \<open>executing\<close>
  first (or \<open>cancelled\<close> at once), then \<open>completed\<close>, \<open>failed\<close> or \<open>cancelled\<close>, and after
  \<open>completed\<close> only \<open>cancelled\<close> or \<open>failed\<close>; and no other record is written.
\<close>

theorem status_follows_life_cycle:
  assumes run: "process_message fuel env mid flds s = (r, s')"
    and d: "decode_fields flds = Inr d" and job: "map_of d ''job_id'' = Some job"
    and url: "map_of d ''callback_url'' = Some url"
  shows "status_path job None (status_writes (new_events s s'))"
  using process_message_facts [OF run d job url] by (simp add: message_facts_def)

theorem status_follows_life_cycle_witness:
  "\<exists>s'. process_message 1 demo_env ''1-0'' demo_fields demo_consumer = (Ret (), s')
     \<and> status_path ''j1'' None (status_writes (new_events demo_consumer s'))"
  using demo_runs(1) status_follows_life_cycle [OF _ demo_decode] by blast

text \<open>The three ways of \<open>executed\<close>, read for the last event and for what is restored.\<close>

lemma executed_last:
  assumes "executed env mid d job url s r s'" "r \<noteq> Hang" "list_ex starts_run (new_events s s')"
  shows "is_ack mid (last (new_events s s'))"
proof -
  obtain rep where e: "let s1 = emits [Ev_HGet (status_key job) ''state'' rep, Ev_Get (cancel_key job) (Inr None)] s in
        stuck_write mid job s1 r s' \<or> still_running env mid d job url s1 r s' \<or> cleaned_up env mid d job url s1 r s'"
    using assms by (auto simp: executed_def)
  have no: "\<not> starts_run ev" if "executing_write mid job ev" for ev
    using that by (auto simp: executing_write_def)
  show ?thesis
    using e assms(2,3) no
    by (auto simp: stuck_write_def still_running_def cleaned_up_def Let_def new_events_def split: if_splits)
qed

text \<open>
  C15: once the executor has been started for a message, the message is acknowledged by the
  last call before processing ends, however it ends, even when the task that processes it is
  itself cancelled (as at a shutdown whose drain timed out).
\<close>

theorem started_job_is_acknowledged:
  assumes run: "process_message fuel env mid flds s = (r, s')"
    and ends: "r \<noteq> Hang" and started: "list_ex starts_run (new_events s s')"
  shows "is_ack mid (last (new_events s s'))"
  using process_message_processed [OF run] started
  using ends executed_last by (auto simp: processed_def skip_shape_def new_events_append)

theorem started_job_is_acknowledged_witness:
  "\<exists>s'. process_message 1 shutdown_env ''1-0'' demo_fields demo_consumer = (Raise (Exn CancelledError []), s')
     \<and> list_ex starts_run (new_events demo_consumer s') \<and> is_ack ''1-0'' (last (new_events demo_consumer s'))"
  using demo_runs(3) started_job_is_acknowledged by blast

text \<open>
  A call that returns, made while the consumer is idle, leaves the consumer as it found
  it: idle again, with no current job, and only the trace and the time of the last job changed.
\<close>

theorem process_message_restores_idle:
  assumes run: "process_message fuel env mid flds s = (Ret (), s')"
    and idle: "c_idle s" "c_current_job s = None"
  shows "s' = s\<lparr>trace := trace s @ new_events s s', c_last_job_at := c_last_job_at s'\<rparr>"
proof -
  have frame: "t = s\<lparr>trace := trace s @ new_events s t, c_last_job_at := c_last_job_at t\<rparr>"
    if "t = job_state evs True None l s" for t evs l
    using that idle by (cases s) (simp add: job_state_def new_events_def)
  have skip: "emits evs s = job_state evs True None (c_last_job_at s) s" for evs
    using idle job_state_emits [of evs s] by simp
  show ?thesis
    using process_message_processed [OF run] frame skip
    unfolding processed_def executed_def Let_def stuck_write_def still_running_def cleaned_up_def
    by (auto split: if_splits)
qed

theorem process_message_restores_idle_witness:
  "c_idle demo_consumer \<and> c_current_job demo_consumer = None \<and>
   (\<exists>s'. process_message 1 demo_env ''1-0'' demo_fields demo_consumer = (Ret (), s')
     \<and> s' = demo_consumer\<lparr>trace := trace demo_consumer @ new_events demo_consumer s',
         c_last_job_at := c_last_job_at s'\<rparr>)"
proof -
  have idle: "c_idle demo_consumer" "c_current_job demo_consumer = None"
    by (simp_all add: demo_consumer_def new_consumer_def)
  then show ?thesis using demo_runs(1) process_message_restores_idle [OF _ idle] by blast
qed

text \<open>
  C29: processing a message ends. If the executor's run is never found still running after
  its \<open>n\<close>-th poll, fuel for one poll more is enough: the call returns or raises.
\<close>

theorem process_message_ends:
  assumes "\<And>h. n \<le> count_ev is_poll h \<Longrightarrow> e_run_poll env h \<noteq> Inr False"
    and "n < fuel"
  shows "fst (process_message fuel env mid flds s) \<noteq> Hang"
proof -
  have "poll_budget n fuel s" using assms(2) by (simp add: poll_budget_def)
  then show ?thesis using returnsD [OF process_message_returns [OF assms(1)], where s = s] by (metis prod.collapse)
qed

text \<open>A run that is found running twice and then done.\<close>

definition slow_env :: env where
  "slow_env = demo_env\<lparr>e_run_poll := (\<lambda>h. Inr (2 \<le> count_ev is_poll h))\<rparr>"

theorem process_message_ends_witness:
  "e_run_poll slow_env [] = Inr False
   \<and> fst (process_message 3 slow_env ''1-0'' demo_fields demo_consumer) \<noteq> Hang"
proof -
  have b: "2 \<le> count_ev is_poll h \<Longrightarrow> e_run_poll slow_env h \<noteq> Inr False" for h
    by (simp add: slow_env_def)
  show ?thesis using b process_message_ends [OF b, where fuel = 3] by (simp add: slow_env_def trace_simps)
qed

end
