(* ===== verification/Loop_Props.thy ===== *)
theory Loop_Props
  imports Loop Pool_Props Consumer_Props
begin

text \<open>
  The consume loop: what an iteration does with the messages it read, how it reacts to lost
  connections, that it ends once it is stopped, and the states from which it cannot recover.
  The contract between the loop and the processing of one message is the locale
  \<open>message_processor\<close>, interpreted on \<open>process_message\<close>.
\<close>

section \<open>The contract of message processing\<close>

locale message_processor =
  fixes process :: "message_id \<Rightarrow> fields \<Rightarrow> unit cprog"
  assumes process_acks: "process m flds s = (Ret (), s') \<Longrightarrow> acked (new_events s s') = [m]"
    and process_extends: "process m flds s = (r, s') \<Longrightarrow> trace s' = trace s @ new_events s s'"
    and process_frame: "process m flds s = (r, s') \<Longrightarrow> c_can_batch s' = c_can_batch s"
begin

text \<open>A stream that is processed to its end is acknowledged message by message, in order.\<close>

lemma for_process_acks:
  assumes "for_p msgs (\<lambda>(m, flds). process m flds) s = (Ret (), s')"
  shows "trace s' = trace s @ new_events s s' \<and> acked (new_events s s') = map fst msgs"
  using assms
proof (induction msgs arbitrary: s)
  case Nil
  then show ?case by (simp add: ret_def new_events_def trace_simps)
next
  case (Cons msg msgs)
  obtain m flds where msg: "msg = (m, flds)" by force
  obtain s1 where s1: "process m flds s = (Ret (), s1)"
    and rest: "for_p msgs (\<lambda>(m, flds). process m flds) s1 = (Ret (), s')"
    using Cons.prems msg by (auto simp: then_p_def bind_p_def split: outcome.splits prod.splits)
  have t1: "trace s1 = trace s @ new_events s s1" using process_extends [OF s1] .
  have t2: "trace s' = trace s1 @ new_events s1 s'" and a2: "acked (new_events s1 s') = map fst msgs"
    using Cons.IH [OF rest] by auto
  have "trace s' = trace s @ (new_events s s1 @ new_events s1 s')" using t1 t2 by simp
  then have "new_events s s' = new_events s s1 @ new_events s1 s'" by (rule new_events_append)
  then show ?case using process_acks [OF s1] a2 t1 t2 msg by (simp add: trace_simps)
qed

lemma for_streams_ack:
  assumes "for_p streams (\<lambda>(_, msgs). for_p msgs (\<lambda>(m, flds). process m flds)) s = (Ret (), s')"
  shows "trace s' = trace s @ new_events s s'
    \<and> acked (new_events s s') = concat (map (\<lambda>(_, msgs). map fst msgs) streams)"
  using assms
proof (induction streams arbitrary: s)
  case Nil
  then show ?case by (simp add: ret_def new_events_def trace_simps)
next
  case (Cons st streams)
  obtain k msgs where st: "st = (k, msgs)" by force
  obtain s1 where s1: "for_p msgs (\<lambda>(m, flds). process m flds) s = (Ret (), s1)"
    and rest: "for_p streams (\<lambda>(_, msgs). for_p msgs (\<lambda>(m, flds). process m flds)) s1 = (Ret (), s')"
    using Cons.prems st by (auto simp: then_p_def bind_p_def split: outcome.splits prod.splits)
  note a = for_process_acks [OF s1] and b = Cons.IH [OF rest]
  have "trace s' = trace s @ (new_events s s1 @ new_events s1 s')" using a b by auto
  then have "new_events s s' = new_events s s1 @ new_events s1 s'" by (rule new_events_append)
  then show ?case using a b st by (simp add: trace_simps)
qed

lemma for_process_frame:
  "for_p msgs (\<lambda>(m, flds). process m flds) s = (r, s') \<Longrightarrow> c_can_batch s' = c_can_batch s"
proof (induction msgs arbitrary: s)
  case (Cons msg msgs)
  obtain m flds where msg: "msg = (m, flds)" by force
  obtain r1 s1 where s1: "process m flds s = (r1, s1)" by force
  show ?case using Cons.prems Cons.IH [of s1] process_frame [OF s1] s1 msg
    by (cases r1) (auto simp: then_p_def bind_p_def)
qed (simp add: ret_def)

end

text \<open>Processing a message acknowledges no other message.\<close>

definition own_ack :: "message_id \<Rightarrow> event \<Rightarrow> bool" where
  "own_ack m ev = (ack_id ev = None \<or> ack_id ev = Some m)"

lemma delivery_event_no_ack: "delivery_event url b ev \<Longrightarrow> ack_id ev = None"
  by (cases ev) auto

lemma poll_event_no_ack: "poll_event job ir shots ev \<Longrightarrow> ack_id ev = None"
  by (cases ev) auto

lemma send_result_own_ack: "emits_all (own_ack m) (send_result env wc url p)"
  by (rule only_emits_all [OF send_result_emits]) (auto simp: own_ack_def list_all_iff delivery_event_no_ack)

lemma run_job_own_ack: "emits_all (own_ack m) (run_job_with_cancellation fuel env job ir shots)"
  by (rule only_emits_all [OF run_job_emits]) (auto simp: own_ack_def run_shape_def list_all_iff poll_event_no_ack)

lemma redis_own_ack:
  "emits_all (own_ack m) (safe_xack env m)" "emits_all (own_ack m) (safe_hset env k h)"
  "emits_all (own_ack m) (has_cancel_signal env job)" "emits_all (own_ack m) (get_job_status env job)"
  "emits_all (own_ack m) (mark_job_cancelled env job mid)"
  by (rule only_emits_all [OF safe_xack_emits] only_emits_all [OF safe_hset_emits]
      only_emits_all [OF has_cancel_signal_emits] only_emits_all [OF get_job_status_emits]
      only_emits_all [OF mark_job_cancelled_emits]; auto simp: own_ack_def)+

lemma now_iso_emits [emits_intros]: "emits_all P (now_iso env)"
  unfolding now_iso_def by (rule emits_all_get_p)

lemma job_handler_own_ack: "job_handler env m job url e = Some k \<Longrightarrow> emits_all (own_ack m) k"
  unfolding job_handler_def job_failed_def send_error_def
  by (auto split: if_splits intro!: emits_intros redis_own_ack send_result_own_ack)

lemma execute_job_own_ack: "emits_all (own_ack m) (execute_job fuel env m d job url)"
proof -
  have "emits_all (own_ack m) (job_report env job url x)" for x
    unfolding job_report_def by (intro emits_intros redis_own_ack send_result_own_ack) auto
  then have "emits_all (own_ack m) (job_body fuel env d job url)"
    unfolding job_body_def by (auto intro!: emits_intros run_job_own_ack)
  then show ?thesis unfolding execute_job_def job_cleanup_def
    by (intro emits_intros redis_own_ack) (auto intro: job_handler_own_ack)
qed

lemma process_message_own_ack: "emits_all (own_ack m) (process_message fuel env m flds)"
  unfolding process_message_def process_job_def ack_and_return_def
  by (auto split: option.splits intro!: emits_intros redis_own_ack execute_job_own_ack)

lemma acked_own: "list_all (own_ack m) evs \<Longrightarrow> acked evs = replicate (count_ev (is_ack m) evs) m"
proof (induction evs)
  case (Cons ev evs)
  have "ack_id ev = Some m \<longleftrightarrow> is_ack m ev" by (cases ev) auto
  with Cons show ?case by (auto simp: trace_simps own_ack_def split: option.splits)
qed (simp add: trace_simps)

interpretation consumer_messages: message_processor "process_message fuel env" for fuel env
proof unfold_locales
  fix m flds s r s'
  have ext: "\<exists>evs. trace s' = trace s @ evs \<and> list_all (own_ack m) evs" if "process_message fuel env m flds s = (r, s')" for r s'
    using emits_allD [OF process_message_own_ack that] .
  show "trace s' = trace s @ new_events s s'" if "process_message fuel env m flds s = (r, s')"
    using ext [OF that] by (auto simp: new_events_append)
  show "c_can_batch s' = c_can_batch s" if "process_message fuel env m flds s = (r, s')"
    using process_message_processed [OF that]
    by (auto simp: processed_def executed_def Let_def stuck_write_def still_running_def cleaned_up_def split: if_splits)
  show "acked (new_events s s') = [m]" if run: "process_message fuel env m flds s = (Ret (), s')"
    using ext [OF run] returned_acks [OF run] acked_own [of m "new_events s s'"] by (auto simp: new_events_append)
qed


text \<open>Without batching, dispatching the streams of a read is processing their messages.\<close>

lemma dispatch_unbatched:
  assumes "for_p streams (dispatch_stream fuel env) s = (r, s')" "\<not> c_can_batch s"
  shows "for_p streams (\<lambda>(_, msgs). for_p msgs (\<lambda>(m, flds). process_message fuel env m flds)) s = (r, s')"
  using assms
proof (induction streams arbitrary: s)
  case (Cons st streams)
  obtain k msgs where st: "st = (k, msgs)" by force
  obtain r1 s1 where s1: "for_p msgs (\<lambda>(m, flds). process_message fuel env m flds) s = (r1, s1)" by force
  have d: "dispatch_stream fuel env st s = (r1, s1)"
    using s1 st Cons.prems(2) by (simp add: dispatch_stream_def bind_get_p)
  have "\<not> c_can_batch s1" using consumer_messages.for_process_frame [OF s1] Cons.prems(2) by simp
  then show ?case using Cons.prems(1) Cons.IH [of s1] d s1 st
    by (cases r1) (auto simp: then_p_def bind_p_def)
qed simp


section \<open>Background steps\<close>

text \<open>A pending task with nothing left to run.\<close>

definition quiescent :: "consumer \<Rightarrow> bool" where
  "quiescent s = (c_pending_delivery s = None \<or> (\<exists>e now. c_pending_delivery s = Some (Delivery_Failed e now [])))"

lemma task_step_quiescent: "quiescent s \<Longrightarrow> task_step env i s = (Ret (), s)"
  by (cases s) (auto simp: quiescent_def task_step_def step_delivery_def bind_p_def get_p_def ret_def modify_p_def)

lemma background_quiescent: "quiescent s \<Longrightarrow> background env s = (Ret (), s)"
proof -
  assume q: "quiescent s"
  have "background_steps n env s = (Ret (), s)" for n
    by (induction n) (auto simp: get_p_def then_p_def bind_p_def task_step_quiescent [OF q] ret_def)
  then show ?thesis by (simp add: background_def bind_get_p)
qed

section \<open>Lost connections\<close>



definition read_event :: "consumer \<Rightarrow> (exn + (string \<times> message list) list) \<Rightarrow> event" where
  "read_event s = Ev_XReadGroup (c_group s) (c_consumer_name s) (c_stream s) (read_count s)"

lemma read_group_quiescent:
  "quiescent s \<Longrightarrow> read_group env s =
     (case e_xreadgroup env (trace s) of Inl e \<Rightarrow> Raise e | Inr m \<Rightarrow> Ret m,
      emits [read_event s (e_xreadgroup env (trace s))] s)"
  by (simp add: read_group_def then_p_def bind_p_def [of "background env"] background_quiescent bind_get_p
      call_def read_event_def Let_def)

lemma connection_error_is_exception: "connection_error e \<Longrightarrow> is_exception e"
  by (cases "exn_class_of e") (auto simp: connection_error_def is_exception_iff catches_def mro.simps)

lemma lost_iteration:
  assumes "quiescent s" "e_xreadgroup env (trace s) = Inl e" "connection_error e"
  shows "consume_iteration fuel env s = connection_lost env (emits [read_event s (Inl e)] s)"
  using assms by (simp add: consume_iteration_def try_except_def iteration_body_def bind_p_def [of "read_group env"]
      read_group_quiescent iteration_handler_def)

lemma connection_lost_run:
  assumes "quiescent s"
  shows "connection_lost env s =
    (let s1 = s\<lparr>c_redis_healthy := False, l_failures := l_failures s + 1\<rparr> in
     case reconnect_delay (l_failures s + 1) of
       Inl e \<Rightarrow> (Raise e, s1) | Inr d \<Rightarrow> sleep_p env d s1)"
proof -
  have "quiescent (s\<lparr>c_redis_healthy := False, l_failures := l_failures s + 1\<rparr>)"
    using assms by (simp add: quiescent_def)
  then show ?thesis
    by (simp add: connection_lost_def then_p_def bind_p_def modify_p_def get_p_def from_sum_def ret_def raise_def
        background_quiescent Let_def split: sum.splits)
qed

text \<open>
  When a read fails because the connection is lost and no background task is pending,
  the iteration marks Redis unhealthy, counts the failure and sleeps for the capped
  exponential delay, and does nothing else.
\<close>

theorem lost_connection_backs_off:
  assumes "c_pending_delivery s = None" "e_xreadgroup env (trace s) = Inl e" "connection_error e"
    and "l_failures s < 1024"
  shows "\<exists>rep. consume_iteration fuel env s =
      (case rep of Inl e' \<Rightarrow> Raise e' | Inr u \<Rightarrow> Ret u,
       s\<lparr>c_redis_healthy := False, l_failures := l_failures s + 1,
         trace := trace s @ [read_event s (Inl e), Ev_Sleep (min (2 ^ l_failures s) 60) rep]\<rparr>)"
proof -
  let ?t = "emits [read_event s (Inl e)] s"
  have q: "quiescent s" "quiescent ?t" using assms(1) by (simp_all add: quiescent_def)
  have d: "reconnect_delay (l_failures s + 1) = Inr (min (2 ^ l_failures s) 60)"
    using assms(4) by (simp add: reconnect_delay_def BACKOFF_MAX_def)
  have "consume_iteration fuel env s =
      sleep_p env (min (2 ^ l_failures s) 60) (?t\<lparr>c_redis_healthy := False, l_failures := l_failures s + 1\<rparr>)"
    using lost_iteration [OF q(1) assms(2,3)] connection_lost_run [OF q(2)] d by (simp add: Let_def)
  then show ?thesis
    by (cases s) (auto simp: sleep_p_def call_def Let_def emits_def split: sum.splits)
qed

definition down_env :: env where
  "down_env = demo_env\<lparr>e_xreadgroup := (\<lambda>_. Inl (Exn RedisConnectionError ''down''))\<rparr>"

theorem lost_connection_backs_off_witness:
  "c_pending_delivery demo_consumer = None \<and> connection_error (Exn RedisConnectionError ''down'') \<and>
   (\<exists>rep. consume_iteration 1 down_env demo_consumer =
      (case rep of Inl e' \<Rightarrow> Raise e' | Inr u \<Rightarrow> Ret u,
       demo_consumer\<lparr>c_redis_healthy := False, l_failures := 1,
         trace := [read_event demo_consumer (Inl (Exn RedisConnectionError ''down'')), Ev_Sleep 1 rep]\<rparr>))"
proof -
  have h: "c_pending_delivery demo_consumer = None"
    "e_xreadgroup down_env (trace demo_consumer) = Inl (Exn RedisConnectionError ''down'')"
    "connection_error (Exn RedisConnectionError ''down'')" "l_failures demo_consumer < 1024"
    by (simp_all add: demo_consumer_def new_consumer_def down_env_def connection_error_def)
  show ?thesis using h lost_connection_backs_off [OF h, of 1] by (simp add: demo_consumer_def new_consumer_def)
qed

text \<open>
  After 1024 consecutive lost connections the next one ends the consume loop: the delay
  cannot be computed, and the \<open>OverflowError\<close> leaves the loop.
\<close>

theorem consume_loop_dies_of_overflow:
  assumes "c_running s" "\<not> e_stop_requested env (trace s)" "c_pending_delivery s = None"
    and "e_xreadgroup env (trace s) = Inl e" "connection_error e" "1024 \<le> l_failures s"
  shows "\<exists>t s'. consume_while (Suc n) fuel env s = (Raise (Exn OverflowError t), s')"
proof -
  let ?t = "emits [read_event s (Inl e)] s"
  have q: "quiescent s" "quiescent ?t" using assms(3) by (simp_all add: quiescent_def)
  obtain t where "reconnect_delay (l_failures s + 1) = Inl (Exn OverflowError t)"
    using assms(6) by (auto simp: reconnect_delay_def)
  then have "\<exists>s'. consume_iteration fuel env s = (Raise (Exn OverflowError t), s')"
    using lost_iteration [OF q(1) assms(4,5)] connection_lost_run [OF q(2)] by (simp add: Let_def)
  then show ?thesis
    using assms(1,2) by (auto simp: notice_stop_def stop_def then_p_def bind_p_def get_p_def ret_def modify_p_def)
qed

definition exhausted_consumer :: consumer where
  "exhausted_consumer = demo_consumer\<lparr>c_running := True, l_failures := 1024\<rparr>"

theorem consume_loop_dies_of_overflow_witness:
  "\<exists>t s'. consume_while 5 1 down_env exhausted_consumer = (Raise (Exn OverflowError t), s')"
proof -
  have h: "c_running exhausted_consumer" "\<not> e_stop_requested down_env (trace exhausted_consumer)"
    "c_pending_delivery exhausted_consumer = None"
    "e_xreadgroup down_env (trace exhausted_consumer) = Inl (Exn RedisConnectionError ''down'')"
    "connection_error (Exn RedisConnectionError ''down'')" "1024 \<le> l_failures exhausted_consumer"
    by (simp_all add: exhausted_consumer_def demo_consumer_def new_consumer_def down_env_def demo_env_def quiet_env_def connection_error_def)
  show ?thesis using consume_loop_dies_of_overflow [OF h, of 4 1] by simp
qed


section \<open>A failed background task\<close>

text \<open>The pending task has failed and has nothing left to run.\<close>

definition wedged :: "exn \<Rightarrow> consumer \<Rightarrow> bool" where
  "wedged e s = (is_exception e \<and> (\<exists>now. c_pending_delivery s = Some (Delivery_Failed e now [])))"

definition wedge_post :: "exn \<Rightarrow> consumer \<Rightarrow> consumer \<Rightarrow> bool" where
  "wedge_post e s s' = (wedged e s' \<and> (\<exists>evs. trace s' = trace s @ evs \<and> list_all loop_event evs))"

lemma wedge_post_trans: "wedge_post e s t \<Longrightarrow> wedge_post e t u \<Longrightarrow> wedge_post e s u"
  by (auto simp: wedge_post_def)

lemma sleep_wedged: "wedged e s \<Longrightarrow> wedge_post e s (snd (sleep_p env d s))"
  by (auto simp: wedge_post_def wedged_def sleep_p_def call_def Let_def)

lemma handler_wedged:
  assumes "wedged e s" "iteration_handler env e' = Some k"
  shows "wedge_post e s (snd (k s))"
proof -
  have q: "quiescent t" if "wedged e t" for t using that by (auto simp: wedged_def quiescent_def)
  have w: "wedged e (s\<lparr>c_redis_healthy := False, l_failures := l_failures s + 1\<rparr>)" using assms(1) by (simp add: wedged_def)
  have lost: "wedge_post e s (snd (connection_lost env s))"
    using connection_lost_run [OF q [OF assms(1)], of env] w sleep_wedged [OF w]
    by (auto simp: Let_def wedge_post_def wedged_def split: sum.splits)
  have other: "wedge_post e s (snd (then_p (background env) (sleep_p env 1) s))"
    using background_quiescent [OF q [OF assms(1)]] sleep_wedged [OF assms(1)] by (simp add: then_p_def bind_p_def)
  show ?thesis using assms(2) lost other by (auto simp: iteration_handler_def split: if_splits)
qed

lemma iteration_wedged:
  assumes "wedged e s"
  shows "wedge_post e s (snd (consume_iteration fuel env s))"
proof -
  have q: "quiescent s" using assms by (auto simp: wedged_def quiescent_def)
  let ?rep = "e_xreadgroup env (trace s)"
  let ?t = "emits [read_event s ?rep] s"
  have t: "wedge_post e s ?t" "wedge_post e s (?t\<lparr>c_redis_healthy := True, l_failures := 0\<rparr>)"
    using assms by (auto simp: wedge_post_def wedged_def read_event_def)
  have body: "\<exists>e' t'. iteration_body fuel env s = (Raise e', t') \<and> wedge_post e s t'"
  proof (cases ?rep)
    case (Inl e')
    then show ?thesis using t(1) read_group_quiescent [OF q, of env] by (simp add: iteration_body_def bind_p_def)
  next
    case (Inr m)
    obtain now where now: "c_pending_delivery s = Some (Delivery_Failed e now [])" using assms by (auto simp: wedged_def)
    have "await_delivery env (?t\<lparr>c_redis_healthy := True, l_failures := 0\<rparr>) =
        (Raise e, ?t\<lparr>c_redis_healthy := True, l_failures := 0\<rparr>)"
      using now by (simp add: await_delivery.simps unsettled_def)
    then show ?thesis using t(2) read_group_quiescent [OF q, of env] Inr now
      by (simp add: iteration_body_def bind_p_def then_p_def modify_p_def finish_delivery_def get_p_def)
  qed
  then obtain e' t' where b: "iteration_body fuel env s = (Raise e', t')" "wedge_post e s t'" by blast
  show ?thesis
  proof (cases "iteration_handler env e'")
    case None
    then show ?thesis using b by (simp add: consume_iteration_def try_except_def)
  next
    case (Some k)
    have "wedge_post e t' (snd (k t'))"
      using b(2) handler_wedged [OF _ Some, of e t'] by (auto simp: wedge_post_def)
    then show ?thesis using b Some wedge_post_trans by (auto simp: consume_iteration_def try_except_def)
  qed
qed


definition busy_env :: env where
  "busy_env = batch_env\<lparr>e_xreadgroup := (\<lambda>_. Inr [(''qpu:qpu-1:jobs'', demo_batch)])\<rparr>"

definition wedged_consumer :: consumer where
  "wedged_consumer = demo_consumer\<lparr>c_running := True, c_can_batch := True,
     c_pending_delivery := Some (Delivery_Failed (Exn ValueError ''zip'') ''t'' [])\<rparr>"




section \<open>Messages in order\<close>

text \<open>
  C34: an iteration of a consumer without batching that reads messages and runs through has
  acknowledged exactly the messages it read, each once and in the order they were read.
\<close>

theorem iteration_acknowledges_in_order:
  assumes run: "iteration_body fuel env s = (Ret (), s')"
    and "c_pending_delivery s = None" "\<not> c_can_batch s"
    and read: "e_xreadgroup env (trace s) = Inr messages" "messages \<noteq> []"
  shows "acked (new_events s s') = concat (map (\<lambda>(_, msgs). map fst msgs) messages)"
proof -
  let ?t = "(emits [read_event s (Inr messages)] s)\<lparr>c_redis_healthy := True, l_failures := 0\<rparr>"
  have q: "quiescent s" using assms(2) by (simp add: quiescent_def)
  have "for_p messages (dispatch_stream fuel env) ?t = (Ret (), s')"
    using run read_group_quiescent [OF q, of env] read assms(2)
    by (simp add: iteration_body_def bind_p_def then_p_def modify_p_def finish_delivery_def get_p_def ret_def)
  moreover have "\<not> c_can_batch ?t" using assms(3) by simp
  ultimately have "for_p messages (\<lambda>(_, msgs). for_p msgs (\<lambda>(m, flds). process_message fuel env m flds)) ?t = (Ret (), s')"
    by (rule dispatch_unbatched)
  from consumer_messages.for_streams_ack [OF this]
  have "trace s' = trace ?t @ new_events ?t s'" "acked (new_events ?t s') = concat (map (\<lambda>(_, msgs). map fst msgs) messages)"
    by auto
  moreover from this have "new_events s s' = read_event s (Inr messages) # new_events ?t s'"
    by (intro new_events_append) simp
  ultimately show ?thesis by (simp add: trace_simps read_event_def)
qed

definition two_messages :: "(string \<times> message list) list" where
  "two_messages = [(''s'', [(''1-0'', demo_fields), (''2-0'', [])])]"

definition reading_env :: env where
  "reading_env = demo_env\<lparr>e_xreadgroup := (\<lambda>_. Inr two_messages)\<rparr>"

theorem iteration_acknowledges_in_order_witness:
  "\<exists>s'. iteration_body 1 reading_env demo_consumer = (Ret (), s') \<and> acked (new_events demo_consumer s') = [''1-0'', ''2-0'']"
proof -
  have "fst (iteration_body 1 reading_env demo_consumer) = Ret ()" by code_simp
  then obtain s' where run: "iteration_body 1 reading_env demo_consumer = (Ret (), s')" by (metis prod.collapse)
  have h: "c_pending_delivery demo_consumer = None" "\<not> c_can_batch demo_consumer"
    "e_xreadgroup reading_env (trace demo_consumer) = Inr two_messages" "two_messages \<noteq> []"
    by (simp_all add: demo_consumer_def new_consumer_def reading_env_def two_messages_def)
  show ?thesis using run iteration_acknowledges_in_order [OF run h] by (simp add: two_messages_def)
qed


section \<open>Stopping\<close>

lemma emits_all_mono:
  assumes "emits_all P m"
  shows "emits_all (\<lambda>_. True) m"
  unfolding emits_all_def [of "\<lambda>_. True"]
proof (intro allI wpI)
  fix s r s'
  assume "m s = (r, s')"
  then show "\<exists>evs. trace s' = trace s @ evs \<and> list_all (\<lambda>_. True) evs"
    using emits_allD [OF assms] by (fastforce simp: list_all_iff)
qed

lemma emits_all_returns:
  assumes "emits_all P m" "\<And>s. fst (m s) \<noteq> Hang"
  shows "returns (poll_budget n fuel) m"
  unfolding returns_def
proof (intro allI impI wpI)
  fix s r s'
  assume "poll_budget n fuel s" "m s = (r, s')"
  then show "r \<noteq> Hang \<and> poll_budget n fuel s'"
    using emits_allD [OF assms(1)] assms(2) [of s] poll_budget_trace by fastforce
qed

lemma task_step_emits: "emits_all (\<lambda>_. True) (task_step env i)"
  unfolding emits_all_def
proof (intro allI wpI)
  fix s r s'
  assume run: "task_step env i s = (r, s')"
  show "\<exists>evs. trace s' = trace s @ evs \<and> list_all (\<lambda>_. True) evs"
  proof (cases "c_pending_delivery s")
    case (Some t)
    then show ?thesis
    proof (cases t)
      case (Delivery_Created ps rs)
      then show ?thesis using Some run task_step_cases(3) [of s ps rs env i] by (auto split: option.splits)
    next
      case (Delivery_Running now ds)
      then show ?thesis using Some run task_step_cases(4) [of s now ds env i] by (auto simp: list_all_iff)
    next
      case Delivery_Returned
      then show ?thesis using Some run task_step_cases(2) [of s env i] by auto
    next
      case (Delivery_Failed e now ds)
      then show ?thesis using Some run task_step_cases(5) [of s e now ds env i] by (auto simp: list_all_iff)
    qed
  qed (use run task_step_cases(1) [of s env i] in auto)
qed

lemma background_steps_emits: "emits_all (\<lambda>_. True) (background_steps k env)"
  by (induction k) (auto intro!: emits_intros task_step_emits)

lemma background_emits [emits_intros]: "emits_all (\<lambda>_. True) (background env)"
  unfolding background_def by (intro emits_intros background_steps_emits)

lemma await_delivery_emits [emits_intros]: "emits_all (\<lambda>_. True) (await_delivery env)"
  unfolding emits_all_def
proof (intro allI wpI)
  fix s r s'
  assume "await_delivery env s = (r, s')"
  then show "\<exists>evs. trace s' = trace s @ evs \<and> list_all (\<lambda>_. True) evs"
  proof (induction env s rule: await_delivery.induct)
    case (1 env s)
    obtain u s1 where st: "task_step env (pick env s) s = (u, s1)" by force
    show ?case
    proof (cases "unsettled s")
      case True
      then have "await_delivery env s1 = (r, s')" using 1(2) st by (subst (asm) await_delivery.simps) simp
      then show ?thesis using 1(1) [OF True] st emits_allD [OF task_step_emits st] by (auto simp: list_all_iff)
    next
      case False
      then have "s' = s" using 1(2) by (subst (asm) await_delivery.simps) (auto split: option.splits delivery_task.splits)
      then show ?thesis by simp
    qed
  qed
qed

lemma background_Ret: "fst (background env s) = Ret ()"
proof -
  have "fst (background_steps k env s) = Ret ()" for k s
  proof (induction k arbitrary: s)
    case (Suc k)
    then show ?case using task_step_Ret [of env "pick env s" s] by (auto simp: then_p_def bind_p_def get_p_def)
  qed (simp add: ret_def)
  then show ?thesis by (simp add: background_def bind_get_p)
qed

lemma task_returns:
  "returns (poll_budget n fuel) (background env)" "returns (poll_budget n fuel) (await_delivery env)"
proof -
  show "returns (poll_budget n fuel) (background env)"
    by (intro emits_all_returns [OF background_emits]) (simp add: background_Ret)
  have "fst (await_delivery env s) \<noteq> Hang" for s
  proof -
    obtain r s' where "await_delivery env s = (r, s')" by force
    then show ?thesis using await_delivery_run [of env s r s'] by (auto split: option.splits delivery_task.splits)
  qed
  then show "returns (poll_budget n fuel) (await_delivery env)"
    by (intro emits_all_returns [OF await_delivery_emits])
qed


lemma process_message_emits [emits_intros]: "emits_all (\<lambda>_. True) (process_message fuel env m flds)"
  by (rule emits_all_mono [OF process_message_own_ack])

lemma process_batch_emits [emits_intros]: "emits_all (\<lambda>_. True) (process_batch fuel env msgs)"
proof -
  have "emits_all (\<lambda>_. True) (batch_parse env [] msgs)"
    by (rule only_emits_all [OF batch_parse_emits]) (simp add: list_all_iff)
  moreover have "emits_all (\<lambda>_. True) (batch_executing env p)" for p
    by (rule only_emits_all [OF batch_executing_emits]) (simp add: list_all_iff)
  moreover have "emits_all (\<lambda>_. True) (batch_fallback fuel env msgs)"
    unfolding batch_fallback_def by (auto intro!: emits_intros)
  ultimately show ?thesis
    unfolding process_batch_def batch_dispatch_def Let_def
    by (auto intro!: emits_intros split: option.splits if_splits)
qed

lemma recover_pending_emits [emits_intros]: "emits_all (\<lambda>_. True) (recover_pending fuel env)"
proof -
  have "emits_all (\<lambda>_. True) (recover_entry fuel env m)" for m
    unfolding recover_entry_def by (auto intro!: emits_intros split: list.splits)
  then have "emits_all (\<lambda>_. True) (recover_entries fuel env ms k)" for ms k
    by (induction ms arbitrary: k) (auto intro!: emits_intros)
  then show ?thesis unfolding recover_pending_def by (auto intro!: emits_intros)
qed

text \<open>Everything after the read of an iteration, which may also be nothing.\<close>

definition after_read :: "nat \<Rightarrow> env \<Rightarrow> (string \<times> message list) list \<Rightarrow> unit cprog" where
  "after_read fuel env messages =
     then_p (modify_p (\<lambda>s. s\<lparr>c_redis_healthy := True, l_failures := 0\<rparr>))
      (then_p (finish_delivery env)
        (if messages = [] then recheck_pending fuel env
         else for_p messages (dispatch_stream fuel env)))"

lemma dispatch_emits: "emits_all (\<lambda>_. True) (dispatch_stream fuel env entry)"
  unfolding dispatch_stream_def by (auto intro!: emits_intros split: prod.splits option.splits)

lemma after_read_emits: "emits_all (\<lambda>_. True) (after_read fuel env messages)"
  unfolding after_read_def finish_delivery_def recheck_pending_def
  by (auto intro!: emits_intros dispatch_emits)

lemma sleep_emits [emits_intros]: "emits_all (\<lambda>_. True) (sleep_p env d)"
  unfolding sleep_p_def by (intro emits_intros) simp

lemma handler_emits: "iteration_handler env e = Some k \<Longrightarrow> emits_all (\<lambda>_. True) k"
  unfolding iteration_handler_def connection_lost_def
  by (auto intro!: emits_intros split: if_splits)

text \<open>Every iteration makes at least one call.\<close>

lemma iteration_extends:
  assumes "consume_iteration fuel env s = (r, s')"
  shows "length (trace s) < length (trace s')"
proof -
  obtain r1 s1 where rd: "read_group env s = (r1, s1)" by force
  have "wp (read_group env) (\<lambda>r s'. length (trace s) < length (trace s')) s"
  proof -
    obtain b where b: "background env s = (Ret (), b) \<or> (\<exists>e. background env s = (Raise e, b)) \<or> background env s = (Hang, b)"
      by (metis outcome.exhaust old.unit.exhaust prod.collapse)
    have "fst (background env s) = Ret ()"
      using background_Ret by simp
    with b have bg: "background env s = (Ret (), b)" by auto
    then obtain evs where "trace b = trace s @ evs" using emits_allD [OF background_emits bg] by blast
    then show ?thesis using bg
      by (auto simp: read_group_def wp_def then_p_def bind_p_def get_p_def call_def Let_def split: sum.splits)
  qed
  then have lt: "length (trace s) < length (trace s1)" using rd by (simp add: wp_def)
  obtain r2 s2 where body: "iteration_body fuel env s = (r2, s2)" by force
  have le: "length (trace s1) \<le> length (trace s2)"
    using body rd emits_allD [OF after_read_emits, of fuel env _ s1]
    by (cases r1) (auto simp: iteration_body_def after_read_def bind_p_def, metis length_append le_add1)
  have "length (trace s2) \<le> length (trace s')"
    using assms body handler_emits
    by (auto simp: consume_iteration_def try_except_def split: outcome.splits option.splits dest!: emits_allD [OF handler_emits])
  then show ?thesis using lt le by linarith
qed


lemma iteration_returns:
  assumes bound: "\<And>h. n \<le> count_ev is_poll h \<Longrightarrow> e_run_poll env h \<noteq> Inr False"
  shows "returns (poll_budget n fuel) (consume_iteration fuel env)"
proof -
  have keep: "poll_budget n fuel s \<Longrightarrow> poll_budget n fuel (emits evs s)" for s evs
    by (simp add: poll_budget_trace)
  have fld: "poll_budget n fuel (s\<lparr>c_redis_healthy := a, l_failures := b\<rparr>) = poll_budget n fuel s"
    "poll_budget n fuel (s\<lparr>c_pending_delivery := p\<rparr>) = poll_budget n fuel s"
    "poll_budget n fuel (s\<lparr>l_last_check := l\<rparr>) = poll_budget n fuel s"
    "poll_budget n fuel (s\<lparr>c_idle := i\<rparr>) = poll_budget n fuel s" for s a b p l i
    by (simp_all add: poll_budget_def)
  have msg: "returns (poll_budget n fuel) (process_message fuel env m flds)" for m flds
    by (rule process_message_returns [OF bound])
  have fall: "returns (poll_budget n fuel) (batch_fallback fuel env msgs)" for msgs
    unfolding batch_fallback_def by (auto intro!: returns_intros msg)
  have batch: "returns (poll_budget n fuel) (process_batch fuel env msgs)" for msgs
  proof -
    have "returns (poll_budget n fuel) (batch_parse env [] msgs)"
      by (rule only_emits_returns [OF batch_parse_emits]) (auto intro: keep)
    moreover have "returns (poll_budget n fuel) (batch_executing env p)" for p
      by (rule only_emits_returns [OF batch_executing_emits]) (auto intro: keep)
    ultimately show ?thesis unfolding process_batch_def batch_dispatch_def Let_def
      by (auto intro!: returns_intros fall keep simp: fld split: option.splits if_splits)
  qed
  have recover: "returns (poll_budget n fuel) (recover_pending fuel env)"
  proof -
    have "returns (poll_budget n fuel) (recover_entry fuel env m)" for m
      unfolding recover_entry_def by (auto intro!: returns_intros msg keep split: list.splits)
    then have "returns (poll_budget n fuel) (recover_entries fuel env ms k)" for ms k
      by (induction ms arbitrary: k) (auto intro!: returns_intros)
    then show ?thesis unfolding recover_pending_def by (auto intro!: returns_intros keep)
  qed
  have dispatch: "returns (poll_budget n fuel) (dispatch_stream fuel env entry)" for entry
    unfolding dispatch_stream_def by (auto intro!: returns_intros batch msg simp: fld split: prod.splits option.splits)
  have sleep: "returns (poll_budget n fuel) (sleep_p env d)" for d
    unfolding sleep_p_def by (auto intro!: returns_intros keep)
  have handler: "returns (poll_budget n fuel) k" if "iteration_handler env e = Some k" for e k
    using that unfolding iteration_handler_def connection_lost_def
    by (auto intro!: returns_intros sleep task_returns simp: fld split: if_splits)
  have body: "returns (poll_budget n fuel) (iteration_body fuel env)"
    unfolding iteration_body_def read_group_def finish_delivery_def recheck_pending_def
    by (auto intro!: returns_intros dispatch recover task_returns keep simp: fld)
  show ?thesis unfolding consume_iteration_def by (rule returns_try_except [OF body handler])
qed

text \<open>
  C28: the consume loop stops. If the executor's runs end (none is found running after \<open>n\<close>
  polls) and a stop has been requested once \<open>K\<close> calls have been made, then the loop ends
  after at most \<open>K\<close> more iterations, whatever the services answer.
\<close>

theorem consume_while_stops:
  assumes polls: "\<And>h. n \<le> count_ev is_poll h \<Longrightarrow> e_run_poll env h \<noteq> Inr False" and fuel: "n < fuel"
    and stop: "\<And>h. K \<le> length h \<Longrightarrow> e_stop_requested env h"
    and rounds: "K < N"
  shows "fst (consume_while N fuel env s) \<noteq> Hang"
proof -
  have "fst (consume_while N fuel env s) \<noteq> Hang"
    if "0 < N" "K < N + length (trace s)" "poll_budget n fuel s" for N s
    using that
  proof (induction N arbitrary: s)
    case (Suc N)
    let ?s1 = "if e_stop_requested env (trace s) then s\<lparr>c_running := False\<rparr> else s"
    obtain r2 s2 where it: "consume_iteration fuel env ?s1 = (r2, s2)" by force
    have b1: "poll_budget n fuel ?s1" using Suc.prems(3) by (simp add: poll_budget_def)
    have ok: "r2 \<noteq> Hang \<and> poll_budget n fuel s2" using returnsD [OF iteration_returns [OF polls] b1 it] by blast
    have run: "consume_while (Suc N) fuel env s = (if c_running ?s1 then
        (case r2 of Ret u \<Rightarrow> consume_while N fuel env s2 | Raise e \<Rightarrow> (Raise e, s2) | Hang \<Rightarrow> (Hang, s2)) else (Ret (), ?s1))"
      using it by (auto simp: notice_stop_def stop_def then_p_def bind_p_def get_p_def ret_def modify_p_def split: outcome.splits)
    show ?case
    proof (cases "K \<le> length (trace s)")
      case True
      then show ?thesis using run stop by simp
    next
      case False
      have "length (trace ?s1) < length (trace s2)" by (rule iteration_extends [OF it])
      then have "0 < N" "K < N + length (trace s2)" using Suc.prems(2) False by (auto split: if_splits)
      then have "fst (consume_while N fuel env s2) \<noteq> Hang" using Suc.IH ok by blast
      then show ?thesis using run ok by (auto split: outcome.splits)
    qed
  qed simp
  then show ?thesis using fuel rounds by (simp add: poll_budget_def)
qed

definition stopping_env :: env where
  "stopping_env = reading_env\<lparr>e_stop_requested := (\<lambda>h. 10 \<le> length h)\<rparr>"

theorem consume_while_stops_witness:
  "fst (consume_while 11 1 stopping_env demo_consumer) \<noteq> Hang"
proof -
  have p: "0 \<le> count_ev is_poll h \<Longrightarrow> e_run_poll stopping_env h \<noteq> Inr False" for h
    by (simp add: stopping_env_def reading_env_def demo_env_def quiet_env_def)
  have s: "10 \<le> length h \<Longrightarrow> e_stop_requested stopping_env h" for h by (simp add: stopping_env_def)
  show ?thesis by (rule consume_while_stops [OF p _ s]) auto
qed


section \<open>Draining\<close>

text \<open>
  Whatever a drain finds, the consume loop has been told to stop; and a drain that reports
  success leaves no background task pending.
\<close>

theorem drain_stops:
  assumes "drain env timeout s = (r, s')"
  shows "\<not> c_running s' \<and> (r = Ret True \<longrightarrow> c_pending_delivery s' = None)"
proof -
  have aw: "c_running u = c_running t" if "await_delivery env t = (q, u)" for t q u
    using that
  proof (induction env t rule: await_delivery.induct)
    case (1 env t)
    have st: "c_running (snd (task_step env i t)) = c_running t" for i
    proof (cases "c_pending_delivery t")
      case (Some x)
      have se: "c_running (settle now ds v) = c_running v" for now ds v by (auto simp: settle_def split: list.splits)
      show ?thesis
      proof (cases x)
        case (Delivery_Created ps rs)
        then show ?thesis using Some se task_step_cases(3) [of t ps rs env i] by (auto split: option.splits)
      next
        case (Delivery_Running now ds)
        then show ?thesis using Some se task_step_cases(4) [of t now ds env i] by auto
      next
        case Delivery_Returned
        then show ?thesis using Some task_step_cases(2) [of t env i] by auto
      next
        case (Delivery_Failed e now ds)
        then show ?thesis using Some task_step_cases(5) [of t e now ds env i] by auto
      qed
    qed (use task_step_cases(1) [of t env i] in auto)
    show ?case
    proof (cases "unsettled t")
      case True
      then show ?thesis using 1(1) [OF True] 1(2) st by (subst (asm) (2) await_delivery.simps) simp
    next
      case False
      then show ?thesis using 1(2) by (subst (asm) await_delivery.simps) (auto split: option.splits delivery_task.splits)
    qed
  qed
  have w: "wp (await_delivery env) (\<lambda>q u. c_running u = c_running t) t" for t
    using aw by (intro wpI) blast
  have "wp (drain env timeout) (\<lambda>r s'. \<not> c_running s' \<and> (r = Ret True \<longrightarrow> c_pending_delivery s' = None)) s"
    unfolding drain_def stop_def wait_idle_def wait_for_def
    by (auto simp: wp_rules split: sum.splits option.splits outcome.splits intro!: wp_mono [OF w])
  then show ?thesis using assms by (simp add: wp_def)
qed

theorem drain_stops_witness:
  "fst (drain batch_env 30 waiting_consumer) = Ret True
   \<and> c_pending_delivery (snd (drain batch_env 30 waiting_consumer)) = None"
proof -
  have r: "fst (drain batch_env 30 waiting_consumer) = Ret True" by code_simp
  then have "drain batch_env 30 waiting_consumer = (Ret True, snd (drain batch_env 30 waiting_consumer))"
    by (metis prod.collapse)
  from drain_stops [OF this] r show ?thesis by simp
qed

end
