(* ===== verification/Json.thy ===== *)
theory Json
  imports PyText Complex_Main
begin

text \<open>
  The part of Python's \<^verbatim>\<open>json\<close> module that the sources use: \<^verbatim>\<open>json.dumps(value, indent=2)\<close>
  and \<^verbatim>\<open>json.loads(text)\<close>, with the rounding of numbers. The parser runs with fuel (one unit per value, element or member);
  \<open>json_loads\<close> gives it more than the length of the text, which is enough: every unit that is
  spent consumes at least one character. The round trip \<open>loads (dumps v) = v\<close> is proved for
  ASCII text.
\<close>

section \<open>Rounding\<close>

text \<open>Python rounds a tie to the even neighbour.\<close>

definition round_half_even :: "rat \<Rightarrow> int" where
  "round_half_even x =
     (let f = \<lfloor>x\<rfloor>; d = x - of_int f
      in if d < 1 / 2 then f else if 1 / 2 < d then f + 1 else if even f then f else f + 1)"


section \<open>Values\<close>

text \<open>\<open>JSpecial\<close> is one of the literals \<^verbatim>\<open>NaN\<close>, \<^verbatim>\<open>Infinity\<close> and \<^verbatim>\<open>-Infinity\<close>, which Python accepts.\<close>

datatype json =
    JNull | JBool bool | JInt int | JFloat rat | JSpecial string | JStr string
  | JArr "json list" | JObj "(string \<times> json) list"


section \<open>Printing\<close>

text \<open>The code points of a text in UTF-8, and back.\<close>

fun text_points :: "string \<Rightarrow> nat list" where
  "text_points [] = []"
| "text_points (a # r) =
     (if byte a < 0x80 then byte a # text_points r
      else if byte a < 0xE0 then
        (case r of b # r2 \<Rightarrow> ((byte a - 0xC0) * 64 + (byte b - 0x80)) # text_points r2 | _ \<Rightarrow> [])
      else if byte a < 0xF0 then
        (case r of b # c # r3 \<Rightarrow>
           ((byte a - 0xE0) * 4096 + (byte b - 0x80) * 64 + (byte c - 0x80)) # text_points r3 | _ \<Rightarrow> [])
      else
        (case r of b # c # d # r4 \<Rightarrow>
           ((byte a - 0xF0) * 262144 + (byte b - 0x80) * 4096 + (byte c - 0x80) * 64 + (byte d - 0x80))
             # text_points r4 | _ \<Rightarrow> []))"

definition utf8_encode :: "nat \<Rightarrow> string" where
  "utf8_encode p = map char_of
     (if p < 0x80 then [p]
      else if p < 0x800 then [0xC0 + p div 64, 0x80 + p mod 64]
      else if p < 0x10000 then [0xE0 + p div 4096, 0x80 + p div 64 mod 64, 0x80 + p mod 64]
      else [0xF0 + p div 262144, 0x80 + p div 4096 mod 64, 0x80 + p div 64 mod 64, 0x80 + p mod 64])"

definition hex4 :: "nat \<Rightarrow> string" where
  "hex4 n = [hex_char (n div 4096 mod 16), hex_char (n div 256 mod 16), hex_char (n div 16 mod 16), hex_char (n mod 16)]"

definition u_escape :: "nat \<Rightarrow> string" where
  "u_escape n = CHR 0x5C # CHR ''u'' # hex4 n"

text \<open>\<^verbatim>\<open>ensure_ascii\<close>: everything outside the printable ASCII range is escaped.\<close>

definition escape_point :: "nat \<Rightarrow> string" where
  "escape_point p =
     (if p = 34 then [CHR 0x5C, CHR 0x22]
      else if p = 92 then [CHR 0x5C, CHR 0x5C]
      else if p = 10 then [CHR 0x5C, CHR ''n'']
      else if p = 13 then [CHR 0x5C, CHR ''r'']
      else if p = 9 then [CHR 0x5C, CHR ''t'']
      else if p = 12 then [CHR 0x5C, CHR ''f'']
      else if p = 8 then [CHR 0x5C, CHR ''b'']
      else if 32 \<le> p \<and> p < 127 then [char_of p]
      else if p < 0x10000 then u_escape p
      else u_escape (0xD800 + (p - 0x10000) div 1024) @ u_escape (0xDC00 + (p - 0x10000) mod 1024))"

definition dump_string :: "string \<Rightarrow> string" where
  "dump_string s = [CHR 0x22] @ concat (map escape_point (text_points s)) @ [CHR 0x22]"

definition pad :: "nat \<Rightarrow> string" where
  "pad level = newline @ replicate (2 * level) (CHR '' '')"

text \<open>
  \<open>dump level v\<close> with \<^verbatim>\<open>indent=2\<close>; \<open>None\<close> for a value that contains a float, whose text is not
  modelled.
\<close>

fun dump :: "nat \<Rightarrow> json \<Rightarrow> string option"
  and dump_items :: "nat \<Rightarrow> json list \<Rightarrow> string option"
  and dump_members :: "nat \<Rightarrow> (string \<times> json) list \<Rightarrow> string option" where
  "dump l JNull = Some ''null''"
| "dump l (JBool b) = Some (if b then ''true'' else ''false'')"
| "dump l (JInt i) = Some (show_int i)"
| "dump l (JFloat q) = None"
| "dump l (JSpecial s) = Some s"
| "dump l (JStr s) = Some (dump_string s)"
| "dump l (JArr vs) =
     (if vs = [] then Some ''[]''
      else map_option (\<lambda>t. ''['' @ pad (Suc l) @ t @ pad l @ '']'') (dump_items (Suc l) vs))"
| "dump l (JObj kvs) =
     (if kvs = [] then Some ''{}''
      else map_option (\<lambda>t. ''{'' @ pad (Suc l) @ t @ pad l @ ''}'') (dump_members (Suc l) kvs))"
| "dump_items l [] = Some []"
| "dump_items l (v # vs) =
     (case (dump l v, dump_items l vs) of
        (Some a, Some b) \<Rightarrow> Some (if vs = [] then a else a @ '','' @ pad l @ b)
      | _ \<Rightarrow> None)"
| "dump_members l [] = Some []"
| "dump_members l ((k, v) # kvs) =
     (case (dump l v, dump_members l kvs) of
        (Some a, Some b) \<Rightarrow>
          Some (dump_string k @ '': '' @ (if kvs = [] then a else a @ '','' @ pad l @ b))
      | _ \<Rightarrow> None)"

definition json_dumps :: "json \<Rightarrow> string option" where
  "json_dumps v = dump 0 v"


section \<open>Parsing\<close>

definition json_space :: "char \<Rightarrow> bool" where
  "json_space c = (byte c = 32 \<or> byte c = 9 \<or> byte c = 10 \<or> byte c = 13)"

definition skip_ws :: "string \<Rightarrow> string" where
  "skip_ws s = dropWhile json_space s"

definition hex_val :: "char \<Rightarrow> nat option" where
  "hex_val c =
     (if is_digit c then Some (byte c - 48)
      else if in_range 97 102 c then Some (byte c - 87)
      else if in_range 65 70 c then Some (byte c - 55)
      else None)"

fun read_hex4 :: "string \<Rightarrow> (nat \<times> string) option" where
  "read_hex4 (a # b # c # d # r) =
     (case (hex_val a, hex_val b, hex_val c, hex_val d) of
        (Some w, Some x, Some y, Some z) \<Rightarrow> Some (w * 4096 + x * 256 + y * 16 + z, r)
      | _ \<Rightarrow> None)"
| "read_hex4 _ = None"

definition simple_escape :: "char \<Rightarrow> char option" where
  "simple_escape c =
     (if c = CHR 0x22 \<or> c = CHR 0x5C \<or> c = CHR ''/'' then Some c
      else if c = CHR ''b'' then Some (char_of (8::nat))
      else if c = CHR ''f'' then Some (char_of (12::nat))
      else if c = CHR ''n'' then Some (char_of (10::nat))
      else if c = CHR ''r'' then Some (char_of (13::nat))
      else if c = CHR ''t'' then Some (char_of (9::nat))
      else None)"

text \<open>The code point of an escape after its \<^verbatim>\<open>\u\<close>: a surrogate pair is joined.\<close>

definition read_u_escape :: "string \<Rightarrow> (nat \<times> string) option" where
  "read_u_escape s =
     (case read_hex4 s of
        None \<Rightarrow> None
      | Some (u, r) \<Rightarrow>
          if 0xD800 \<le> u \<and> u \<le> 0xDBFF \<and> take 2 r = [CHR 0x5C, CHR ''u'']
          then (case read_hex4 (drop 2 r) of
                  Some (v, r') \<Rightarrow>
                    if 0xDC00 \<le> v \<and> v \<le> 0xDFFF
                    then Some (0x10000 + (u - 0xD800) * 1024 + (v - 0xDC00), r') else Some (u, r)
                | None \<Rightarrow> None)
          else Some (u, r))"

lemma read_hex4_length: "read_hex4 s = Some (u, r) \<Longrightarrow> length r < length s"
  by (cases s rule: read_hex4.cases) (auto split: option.splits)

lemma read_u_escape_length: "read_u_escape s = Some (u, r) \<Longrightarrow> length r < length s"
  by (auto simp: read_u_escape_def split: option.splits if_splits dest!: read_hex4_length)

text \<open>A string after its opening quote.\<close>

function parse_string :: "string \<Rightarrow> (string \<times> string) option" where
  "parse_string [] = None"
| "parse_string (c # s) =
     (if c = CHR 0x22 then Some ([], s)
      else if c = CHR 0x5C then
        (case s of
           [] \<Rightarrow> None
         | e # s' \<Rightarrow>
             if e = CHR ''u'' then
               (case read_u_escape s' of
                  None \<Rightarrow> None
                | Some (u, r) \<Rightarrow> map_option (\<lambda>(x, q). (utf8_encode u @ x, q)) (parse_string r))
             else (case simple_escape e of
                  None \<Rightarrow> None
                | Some d \<Rightarrow> map_option (\<lambda>(x, q). (d # x, q)) (parse_string s')))
      else if byte c < 32 then None
      else map_option (\<lambda>(x, q). (c # x, q)) (parse_string s))"
  by pat_completeness auto
termination
  by (relation "measure length") (auto dest!: read_u_escape_length)

definition span_digits :: "string \<Rightarrow> string \<times> string" where
  "span_digits s = (takeWhile is_digit s, dropWhile is_digit s)"

definition digits_val :: "string \<Rightarrow> nat" where
  "digits_val ds = foldl (\<lambda>n c. 10 * n + digit_val c) 0 ds"

text \<open>The fraction and the exponent of a number, if any: digits and what follows.\<close>

definition read_fraction :: "string \<Rightarrow> string \<times> string" where
  "read_fraction s =
     (case s of
        c # r \<Rightarrow> if c = CHR ''.'' \<and> fst (span_digits r) \<noteq> [] then span_digits r else ([], s)
      | [] \<Rightarrow> ([], s))"

definition read_exponent :: "string \<Rightarrow> int option \<times> string" where
  "read_exponent s =
     (case s of
        c # r \<Rightarrow>
          if c = CHR ''e'' \<or> c = CHR ''E'' then
            (let neg = (r \<noteq> [] \<and> hd r = CHR ''-'');
                 r' = (if r \<noteq> [] \<and> (hd r = CHR ''-'' \<or> hd r = CHR ''+'') then tl r else r);
                 (ds, q) = span_digits r'
             in if ds = [] then (None, s)
                else (Some (if neg then - int (digits_val ds) else int (digits_val ds)), q))
          else (None, s)
      | [] \<Rightarrow> (None, s))"

definition power10 :: "int \<Rightarrow> rat" where
  "power10 e = (if 0 \<le> e then 10 ^ nat e else 1 / 10 ^ nat (- e))"

definition parse_number :: "string \<Rightarrow> (json \<times> string) option" where
  "parse_number s =
     (let neg = (s \<noteq> [] \<and> hd s = CHR ''-'');
          t = (if neg then tl s else s);
          (ds, r) = (if t \<noteq> [] \<and> hd t = CHR ''0'' then ([CHR ''0''], tl t) else span_digits t);
          sign = (\<lambda>x. if neg then - x else x);
          (fs, r1) = read_fraction r;
          (ex, r2) = read_exponent r1
      in if ds = [] then None
         else if fs = [] \<and> ex = None then Some (JInt (sign (int (digits_val ds))), r2)
         else Some (JFloat ((if neg then -1 else 1) *
                (of_nat (digits_val ds) + of_nat (digits_val fs) / 10 ^ length fs)
                * power10 (case ex of Some e \<Rightarrow> e | None \<Rightarrow> 0)), r2))"

definition json_literals :: "(string \<times> json) list" where
  "json_literals = [(''null'', JNull), (''true'', JBool True), (''false'', JBool False),
     (''NaN'', JSpecial ''NaN''), (''Infinity'', JSpecial ''Infinity''), (''-Infinity'', JSpecial ''-Infinity'')]"

definition parse_literal :: "string \<Rightarrow> (json \<times> string) option" where
  "parse_literal s =
     (case find (\<lambda>(t, v). startswith s t) json_literals of
        Some (t, v) \<Rightarrow> Some (v, drop (length t) s)
      | None \<Rightarrow> parse_number s)"

fun parse_value :: "nat \<Rightarrow> string \<Rightarrow> (json \<times> string) option"
  and parse_items :: "nat \<Rightarrow> json list \<Rightarrow> string \<Rightarrow> (json \<times> string) option"
  and parse_members :: "nat \<Rightarrow> (string \<times> json) list \<Rightarrow> string \<Rightarrow> (json \<times> string) option" where
  "parse_value 0 s = None"
| "parse_value (Suc n) s =
     (case s of
        [] \<Rightarrow> None
      | c # t \<Rightarrow>
          if c = CHR 0x22 then map_option (\<lambda>(x, r). (JStr x, r)) (parse_string t)
          else if c = CHR ''['' then
            (case skip_ws t of
               [] \<Rightarrow> None
             | d # r \<Rightarrow> if d = CHR '']'' then Some (JArr [], r) else parse_items n [] (d # r))
          else if c = CHR ''{'' then
            (case skip_ws t of
               [] \<Rightarrow> None
             | d # r \<Rightarrow> if d = CHR ''}'' then Some (JObj [], r) else parse_members n [] (d # r))
          else parse_literal s)"
| "parse_items 0 acc s = None"
| "parse_items (Suc n) acc s =
     (case parse_value n s of
        None \<Rightarrow> None
      | Some (v, r) \<Rightarrow>
          (case skip_ws r of
             [] \<Rightarrow> None
           | d # q \<Rightarrow>
               if d = CHR '','' then parse_items n (acc @ [v]) (skip_ws q)
               else if d = CHR '']'' then Some (JArr (acc @ [v]), q)
               else None))"
| "parse_members 0 acc s = None"
| "parse_members (Suc n) acc s =
     (case s of
        [] \<Rightarrow> None
      | c # t \<Rightarrow>
          if c \<noteq> CHR 0x22 then None
          else (case parse_string t of
              None \<Rightarrow> None
            | Some (k, r) \<Rightarrow>
                (case skip_ws r of
                   [] \<Rightarrow> None
                 | d # q \<Rightarrow>
                     if d \<noteq> CHR '':'' then None
                     else (case parse_value n (skip_ws q) of
                         None \<Rightarrow> None
                       | Some (v, r2) \<Rightarrow>
                           (case skip_ws r2 of
                              [] \<Rightarrow> None
                            | e # q2 \<Rightarrow>
                                if e = CHR '','' then parse_members n (dict_set acc k v) (skip_ws q2)
                                else if e = CHR ''}'' then Some (JObj (dict_set acc k v), q2)
                                else None)))))"

definition json_loads :: "string \<Rightarrow> exn + json" where
  "json_loads s =
     (case parse_value (Suc (length s)) (skip_ws s) of
        Some (v, r) \<Rightarrow> if skip_ws r = [] then Inr v else Inl (Exn JSONDecodeError ''Extra data'')
      | None \<Rightarrow> Inl (Exn JSONDecodeError ''Expecting value''))"


section \<open>The round trip\<close>

definition ascii :: "string \<Rightarrow> bool" where
  "ascii s = list_all (\<lambda>c. byte c < 128) s"

lemma byte_char_of [simp]: "n < 256 \<Longrightarrow> byte (char_of n) = n"
  by (simp add: byte_def)

lemma char_of_byte [simp]: "char_of (byte c) = c"
  by (simp add: byte_def)

lemma byte_eq_iff: "byte c = byte d \<longleftrightarrow> c = d"
  by (metis char_of_byte)

lemma byte_less: "byte c < 256"
  by (simp add: byte_def)

lemma text_points_ascii: "ascii s \<Longrightarrow> text_points s = map byte s"
  by (induction s) (auto simp: ascii_def)

subsection \<open>Strings\<close>

lemma hex_val_hex_char: "d < 16 \<Longrightarrow> hex_val (hex_char d) = Some d"
  by (auto simp: hex_val_def hex_char_def is_digit_def in_range_def digit_char_def)

lemma read_hex4_hex4: "p < 128 \<Longrightarrow> read_hex4 (hex4 p @ rest) = Some (p, rest)"
proof -
  assume "p < 128"
  then have "p div 4096 = 0" "p div 256 = 0" "p div 16 mod 16 = p div 16" by simp_all
  then show ?thesis by (simp add: hex4_def hex_val_hex_char)
qed

lemma char_of_literals:
  "char_of (34::nat) = CHR 0x22" "char_of (92::nat) = CHR 0x5C" "char_of (48::nat) = CHR ''0''"
  "char_of (10::nat) = CHR 0x0A"
  by code_simp+

lemma parse_string_escape:
  assumes "byte c < 128"
  shows "parse_string (escape_point (byte c) @ rest) = map_option (\<lambda>(x, q). (c # x, q)) (parse_string rest)"
proof -
  have simple: "parse_string ([CHR 0x5C, e] @ rest) = map_option (\<lambda>(x, q). (c # x, q)) (parse_string rest)"
    if "simple_escape e = Some c" "e \<noteq> CHR ''u''" for e
    using that by simp
  have uni: "parse_string (u_escape (byte c) @ rest) = map_option (\<lambda>(x, q). (c # x, q)) (parse_string rest)"
  proof -
    have "read_u_escape (hex4 (byte c) @ rest) = Some (byte c, rest)"
      using assms by (simp add: read_u_escape_def read_hex4_hex4)
    moreover have "utf8_encode (byte c) = [c]" using assms by (simp add: utf8_encode_def)
    ultimately show ?thesis by (simp add: u_escape_def)
  qed
  have pc: "c = char_of (byte c)" by simp
  consider "byte c \<in> {34, 92, 10, 13, 9, 12, 8}" | "32 \<le> byte c \<and> byte c < 127 \<and> byte c \<notin> {34, 92}"
    | "byte c \<notin> {34, 92, 10, 13, 9, 12, 8}" "\<not> (32 \<le> byte c \<and> byte c < 127)" by auto
  then show ?thesis
  proof cases
    case 1
    have lits: "byte (CHR 0x22) = 34" "byte (CHR 0x5C) = 92" by (simp_all add: byte_def)
    have "simple_escape (escape_point (byte c) ! 1) = Some c \<and> escape_point (byte c) ! 1 \<noteq> CHR ''u''
        \<and> escape_point (byte c) = [CHR 0x5C, escape_point (byte c) ! 1]"
      using 1 pc by (elim insertE emptyE) (auto simp: escape_point_def simple_escape_def char_of_literals)
    then show ?thesis using simple by metis
  next
    case 2
    have "c \<noteq> CHR 0x22" "c \<noteq> CHR 0x5C" using 2 by (auto simp: byte_def)
    then show ?thesis using 2 by (auto simp: escape_point_def)
  next
    case 3
    then show ?thesis using uni assms by (auto simp: escape_point_def)
  qed
qed

lemma parse_string_body:
  "ascii s \<Longrightarrow> parse_string (concat (map escape_point (map byte s)) @ CHR 0x22 # rest) = Some (s, rest)"
proof (induction s)
  case (Cons c s)
  then have "byte c < 128" by (simp add: ascii_def)
  then show ?case using Cons parse_string_escape [of c] by (simp add: ascii_def)
qed simp

lemma parse_dump_string:
  "ascii s \<Longrightarrow> \<exists>t. dump_string s = CHR 0x22 # t \<and> parse_string (t @ rest) = Some (s, rest)"
  using parse_string_body [of s rest] by (simp add: dump_string_def text_points_ascii)


subsection \<open>Integers\<close>

definition value_end :: "string \<Rightarrow> bool" where
  "value_end rest = (rest = [] \<or> (\<not> is_digit (hd rest) \<and> hd rest \<notin> {CHR ''.'', CHR ''e'', CHR ''E''}))"

lemma digits_val_append: "digits_val (ds @ [c]) = 10 * digits_val ds + digit_val c"
  by (simp add: digits_val_def)

lemma digits_val_show_nat: "digits_val (show_nat n) = n"
proof (induction n rule: show_nat.induct)
  case (1 n)
  then show ?case
    by (subst show_nat.simps) (auto simp: digits_val_append, simp add: digits_val_def)
qed

lemma show_nat_zero: "hd (show_nat n) = CHR ''0'' \<Longrightarrow> n = 0"
proof (induction n rule: show_nat.induct)
  case (1 n)
  show ?case
  proof (cases "n < 10")
    case True
    then have "digit_char n = CHR ''0''" using 1(2) by (subst (asm) show_nat.simps) simp
    then have "digit_val (digit_char n) = digit_val (CHR ''0'')" by simp
    moreover have "digit_val (CHR ''0'') = 0" by code_simp
    ultimately show ?thesis using True by simp
  next
    case False
    then have "hd (show_nat (n div 10)) = CHR ''0''" using 1(2) by (subst (asm) show_nat.simps) simp
    then show ?thesis using 1(1) [OF False] False by simp
  qed
qed

lemma span_show_nat:
  "value_end rest \<Longrightarrow> span_digits (show_nat n @ rest) = (show_nat n, rest)"
proof -
  assume r: "value_end rest"
  have "\<forall>c \<in> set (show_nat n). is_digit c" using show_nat_digits [of n] by (simp add: list_all_iff)
  then have "takeWhile is_digit (show_nat n @ rest) = show_nat n @ takeWhile is_digit rest"
    "dropWhile is_digit (show_nat n @ rest) = dropWhile is_digit rest" by auto
  moreover have "takeWhile is_digit rest = []" "dropWhile is_digit rest = rest"
    using r by (cases rest; auto simp: value_end_def)+
  ultimately show ?thesis by (simp add: span_digits_def)
qed

lemma value_end_tail:
  "value_end rest \<Longrightarrow> read_fraction rest = ([], rest) \<and> read_exponent rest = (None, rest)"
  by (cases rest) (auto simp: value_end_def read_fraction_def read_exponent_def)

lemma show_nat_starting_zero: "hd (show_nat n) = CHR ''0'' \<Longrightarrow> n = 0 \<and> show_nat n = ''0''"
  using show_nat_zero [of n] by (auto simp: show_nat.simps [of 0] digit_char_def char_of_literals)

lemma show_nat_hd_digit: "is_digit (hd (show_nat n))"
  using show_nat_digits [of n] by (cases "show_nat n") auto

lemma parse_number_show_nat:
  assumes "value_end rest"
  shows "parse_number (show_nat n @ rest) = Some (JInt (int n), rest)"
    and "parse_number (CHR ''-'' # show_nat n @ rest) = Some (JInt (- int n), rest)"
proof -
  have nd: "hd (show_nat n) \<noteq> CHR ''-''"
    using show_nat_hd_digit [of n] by (auto simp: is_digit_def in_range_def byte_def)
  have z: "digits_val ''0'' = 0" by code_simp
  show "parse_number (show_nat n @ rest) = Some (JInt (int n), rest)"
    using nd span_show_nat [OF assms, of n] value_end_tail [OF assms] show_nat_starting_zero [of n]
    by (cases "hd (show_nat n) = CHR ''0''") (auto simp: parse_number_def digits_val_show_nat z)
  show "parse_number (CHR ''-'' # show_nat n @ rest) = Some (JInt (- int n), rest)"
    using span_show_nat [OF assms, of n] value_end_tail [OF assms] show_nat_starting_zero [of n]
    by (cases "hd (show_nat n) = CHR ''0''") (auto simp: parse_number_def digits_val_show_nat z)
qed

lemma parse_number_show_int:
  "value_end rest \<Longrightarrow> parse_number (show_int i @ rest) = Some (JInt i, rest)"
  using parse_number_show_nat [of rest "nat i"] parse_number_show_nat [of rest "nat (- i)"]
  by (simp add: show_int_def)

lemma show_int_hd: "show_int i \<noteq> [] \<and> (is_digit (hd (show_int i)) \<or>
    hd (show_int i) = CHR ''-'' \<and> tl (show_int i) \<noteq> [] \<and> is_digit (hd (tl (show_int i))))"
  using show_nat_hd_digit by (simp add: show_int_def)

lemma find_literal_none:
  assumes "c \<noteq> CHR ''n''" "c \<noteq> CHR ''t''" "c \<noteq> CHR ''f''" "c \<noteq> CHR ''N''" "c \<noteq> CHR ''I''"
    and "c \<noteq> CHR ''-'' \<or> (\<exists>e u. t = e # u \<and> e \<noteq> CHR ''I'')"
  shows "find (\<lambda>(l, v). startswith (c # t) l) json_literals = None"
proof -
  have "\<not> startswith (c # t) l" if "l \<in> fst ` set json_literals" for l
    using that assms
    by (auto simp only: json_literals_def startswith_def list.set image_insert image_empty fst_conv insert_iff empty_iff
        list.size take_Suc_Cons list.inject take_0 list.simps add_0 add_Suc One_nat_def)
  then show ?thesis by (force simp: find_None_iff)
qed

lemma parse_literal_show_int:
  assumes "value_end rest"
  shows "parse_literal (show_int i @ rest) = Some (JInt i, rest)"
proof -
  obtain c t where s: "show_int i = c # t"
    "is_digit c \<or> c = CHR ''-'' \<and> t \<noteq> [] \<and> is_digit (hd t)"
    using show_int_hd [of i] by (cases "show_int i") auto
  have d: "\<not> is_digit (CHR ''n'')" "\<not> is_digit (CHR ''t'')" "\<not> is_digit (CHR ''f'')"
    "\<not> is_digit (CHR ''N'')" "\<not> is_digit (CHR ''I'')" by code_simp+
  have c: "c \<noteq> CHR ''n''" "c \<noteq> CHR ''t''" "c \<noteq> CHR ''f''" "c \<noteq> CHR ''N''" "c \<noteq> CHR ''I''"
    using s(2) d by auto
  have "c \<noteq> CHR ''-'' \<or> (\<exists>e u. t @ rest = e # u \<and> e \<noteq> CHR ''I'')"
    using s(2) d(5) by (cases t) (auto simp: is_digit_def in_range_def byte_def)
  from find_literal_none [OF c this] have "find (\<lambda>(t, v). startswith (show_int i @ rest) t) json_literals = None"
    using s(1) by simp
  then show ?thesis using parse_number_show_int [OF assms] by (simp add: parse_literal_def)
qed

subsection \<open>Values\<close>

text \<open>The values whose text is modelled: no float, ASCII text, and the distinct keys of a dict.\<close>

fun plain_json :: "json \<Rightarrow> bool" where
  "plain_json (JFloat q) = False"
| "plain_json (JSpecial s) = False"
| "plain_json (JStr s) = ascii s"
| "plain_json (JArr vs) = list_all plain_json vs"
| "plain_json (JObj kvs) = (distinct (map fst kvs) \<and> list_all (\<lambda>(k, v). ascii k \<and> plain_json v) kvs)"
| "plain_json v = True"

lemma json_space_pad: "list_all json_space (pad l)"
  by (simp add: pad_def newline_def json_space_def byte_def list_all_iff)

lemma skip_ws_pad: "\<not> json_space c \<Longrightarrow> skip_ws (pad l @ c # s) = c # s"
  using json_space_pad [of l] by (simp add: skip_ws_def list_all_iff dropWhile_append)

lemma skip_ws_stop: "\<not> json_space c \<Longrightarrow> skip_ws (c # s) = c # s"
  by (simp add: skip_ws_def)

lemma punctuation [simp]:
  "\<not> json_space (CHR '','')" "\<not> json_space (CHR '']'')" "\<not> json_space (CHR ''}'')"
  "\<not> json_space (CHR '':'')" "\<not> json_space (CHR 0x22)" "json_space (CHR '' '')"
  by code_simp+

lemma value_end_pad: "value_end (pad l @ s)"
  by (simp add: value_end_def pad_def newline_def char_of_literals is_digit_def in_range_def byte_def)

lemma value_end_comma: "value_end (CHR '','' # s)"
  by (simp add: value_end_def is_digit_def in_range_def byte_def)

definition starts_value :: "string \<Rightarrow> bool" where
  "starts_value t = (t \<noteq> [] \<and> \<not> json_space (hd t) \<and> hd t \<noteq> CHR '']'' \<and> hd t \<noteq> CHR ''}'')"

definition reads_value :: "string \<Rightarrow> json \<Rightarrow> bool" where
  "reads_value t v = (starts_value t \<and>
     (\<forall>n rest. length t < n \<longrightarrow> value_end rest \<longrightarrow> parse_value n (t @ rest) = Some (v, rest)))"

definition reads_items :: "string \<Rightarrow> json list \<Rightarrow> bool" where
  "reads_items t vs = (starts_value t \<and>
     (\<forall>n acc l rest. length t + 1 < n \<longrightarrow>
        parse_items n acc (t @ pad l @ CHR '']'' # rest) = Some (JArr (acc @ vs), rest)))"

definition reads_members :: "string \<Rightarrow> (string \<times> json) list \<Rightarrow> bool" where
  "reads_members t kvs = (starts_value t \<and>
     (\<forall>n acc l rest. length t + 1 < n \<longrightarrow> distinct (map fst (acc @ kvs)) \<longrightarrow>
        parse_members n acc (t @ pad l @ CHR ''}'' # rest) = Some (JObj (acc @ kvs), rest)))"

lemma starts_value_cons: "starts_value t \<Longrightarrow> \<exists>c u. t = c # u \<and> \<not> json_space c \<and> c \<noteq> CHR '']'' \<and> c \<noteq> CHR ''}''"
  by (cases t) (auto simp: starts_value_def)

lemma skip_ws_pad_value: "starts_value t \<Longrightarrow> skip_ws (pad l @ t @ s) = t @ s"
  using skip_ws_pad by (auto dest!: starts_value_cons)

lemma reads_atom:
  "reads_value ''null'' JNull" "reads_value ''true'' (JBool True)" "reads_value ''false'' (JBool False)"
  by (auto simp: reads_value_def starts_value_def json_space_def byte_def parse_literal_def
      json_literals_def startswith_def gr0_conv_Suc less_eq_Suc_le dest!: Suc_le_D)

lemma reads_int: "reads_value (show_int i) (JInt i)"
proof -
  obtain c t where s: "show_int i = c # t" "is_digit c \<or> c = CHR ''-''"
    using show_int_hd [of i] by (cases "show_int i") auto
  have c: "byte c < 58 \<and> 45 \<le> byte c"
    using s(2) by (auto simp: is_digit_def in_range_def byte_def)
  then have "c \<noteq> CHR 0x22" "c \<noteq> CHR ''[''" "c \<noteq> CHR ''{''" "c \<noteq> CHR '']''" "c \<noteq> CHR ''}''" "\<not> json_space c"
    by (auto simp: json_space_def byte_def)
  moreover have "parse_literal (c # t @ rest) = Some (JInt i, rest)" if "value_end rest" for rest
    using parse_literal_show_int [OF that, of i] s(1) by simp
  ultimately show ?thesis
    by (auto simp: reads_value_def starts_value_def s(1) dest!: Suc_le_D simp flip: Suc_le_eq)
qed

lemma reads_string:
  assumes "ascii s"
  shows "reads_value (dump_string s) (JStr s)"
proof -
  have "parse_value (Suc n) (dump_string s @ rest) = Some (JStr s, rest)" for n rest
    using parse_string_body [OF assms, of rest] by (simp add: dump_string_def text_points_ascii assms)
  then show ?thesis
    by (auto simp: reads_value_def starts_value_def dump_string_def dest!: Suc_le_D simp flip: Suc_le_eq)
qed

lemma reads_items_single:
  assumes "reads_value t v"
  shows "reads_items t [v]"
proof -
  have "parse_items n acc (t @ pad l @ CHR '']'' # rest) = Some (JArr (acc @ [v]), rest)"
    if fuel: "length t + 1 < n" for n acc l rest
  proof -
    obtain m where n: "n = Suc m" "length t < m" using fuel by (cases n) auto
    show ?thesis using assms n by (simp add: reads_value_def value_end_pad skip_ws_pad)
  qed
  then show ?thesis using assms by (simp add: reads_items_def reads_value_def)
qed

lemma reads_items_cons:
  assumes "reads_value a v" and "reads_items b vs"
  shows "reads_items (a @ '','' @ pad k @ b) (v # vs)"
proof -
  have "parse_items n acc ((a @ '','' @ pad k @ b) @ pad l @ CHR '']'' # rest) = Some (JArr (acc @ v # vs), rest)"
    if fuel: "length (a @ '','' @ pad k @ b) + 1 < n" for n acc l rest
  proof -
    obtain m where n: "n = Suc m" "length a < m" "length b + 1 < m" using fuel by (cases n) auto
    have "starts_value b" using assms(2) by (simp add: reads_items_def)
    then show ?thesis using assms n
      by (simp add: reads_value_def reads_items_def value_end_comma skip_ws_stop skip_ws_pad_value)
  qed
  then show ?thesis using assms by (simp add: reads_items_def reads_value_def starts_value_def)
qed

lemma reads_array:
  assumes "reads_items t vs"
  shows "reads_value (''['' @ pad k @ t @ pad l @ '']'') (JArr vs)"
proof -
  obtain c u where t: "t = c # u" "\<not> json_space c" "c \<noteq> CHR '']''"
    using assms starts_value_cons [of t] by (auto simp: reads_items_def)
  have "parse_value n ((''['' @ pad k @ t @ pad l @ '']'') @ rest) = Some (JArr vs, rest)"
    if fuel: "length (''['' @ pad k @ t @ pad l @ '']'') < n" for n rest
  proof -
    obtain m where n: "n = Suc m" "length t + 1 < m" using fuel by (cases n) (auto simp: pad_def newline_def)
    then have "parse_items m [] (t @ pad l @ CHR '']'' # rest) = Some (JArr vs, rest)"
      using assms by (simp add: reads_items_def)
    then show ?thesis using n(1) t by (simp add: skip_ws_pad)
  qed
  then show ?thesis by (simp add: reads_value_def starts_value_def json_space_def byte_def)
qed

lemma dict_set_fresh: "k \<notin> fst ` set d \<Longrightarrow> dict_set d k v = d @ [(k, v)]"
  by (induction d k v rule: dict_set.induct) auto

lemma parse_members_step:
  assumes "ascii k" and "reads_value a v" and "length a < m" and "value_end s"
  shows "parse_members (Suc m) acc (dump_string k @ '': '' @ a @ s) =
    (case skip_ws s of
       [] \<Rightarrow> None
     | e # q2 \<Rightarrow>
         if e = CHR '','' then parse_members m (dict_set acc k v) (skip_ws q2)
         else if e = CHR ''}'' then Some (JObj (dict_set acc k v), q2)
         else None)"
proof -
  have "parse_string (concat (map escape_point (map byte k)) @ CHR 0x22 # '': '' @ a @ s) = Some (k, '': '' @ a @ s)"
    by (rule parse_string_body [OF assms(1)])
  moreover have "skip_ws ('' '' @ a @ s) = a @ s"
    using assms(2) by (auto simp: reads_value_def skip_ws_def dest!: starts_value_cons)
  moreover have "parse_value m (a @ s) = Some (v, s)" using assms by (simp add: reads_value_def)
  ultimately show ?thesis using assms(1)
    by (simp add: dump_string_def text_points_ascii skip_ws_stop cong: list.case_cong)
qed

lemma starts_member: "starts_value (dump_string k @ s)"
  by (simp add: starts_value_def dump_string_def)

lemma reads_members_single:
  assumes "ascii k" and "reads_value a v"
  shows "reads_members (dump_string k @ '': '' @ a) [(k, v)]"
proof -
  have "parse_members n acc ((dump_string k @ '': '' @ a) @ pad l @ CHR ''}'' # rest) = Some (JObj (acc @ [(k, v)]), rest)"
    if fuel: "length (dump_string k @ '': '' @ a) + 1 < n" and fresh: "k \<notin> fst ` set acc" for n acc l rest
  proof -
    obtain m where n: "n = Suc m" "length a < m" using fuel by (cases n) auto
    show ?thesis
      using parse_members_step [OF assms n(2) value_end_pad, of acc l "CHR ''}'' # rest"] fresh
      by (simp add: n(1) skip_ws_pad dict_set_fresh)
  qed
  then show ?thesis using starts_member by (simp add: reads_members_def)
qed

lemma reads_members_cons:
  assumes "ascii k" and "reads_value a v" and "reads_members b kvs"
  shows "reads_members (dump_string k @ '': '' @ a @ '','' @ pad i @ b) ((k, v) # kvs)"
proof -
  have "parse_members n acc ((dump_string k @ '': '' @ a @ '','' @ pad i @ b) @ pad l @ CHR ''}'' # rest)
      = Some (JObj (acc @ (k, v) # kvs), rest)"
    if fuel: "length (dump_string k @ '': '' @ a @ '','' @ pad i @ b) + 1 < n" and fresh: "distinct (map fst (acc @ (k, v) # kvs))"
    for n acc l rest
  proof -
    obtain m where n: "n = Suc m" "length a < m" "length b + 1 < m" using fuel by (cases n) auto
    have b: "starts_value b" using assms(3) by (simp add: reads_members_def)
    have "parse_members m (acc @ [(k, v)]) (b @ pad l @ CHR ''}'' # rest) = Some (JObj (acc @ (k, v) # kvs), rest)"
      using assms(3) n(3) fresh by (simp add: reads_members_def)
    then show ?thesis
      using parse_members_step [OF assms(1,2) n(2) value_end_comma, of acc "pad i @ b @ pad l @ CHR ''}'' # rest"] fresh
      by (simp add: n(1) skip_ws_stop skip_ws_pad_value [OF b] dict_set_fresh)
  qed
  then show ?thesis using starts_member by (simp add: reads_members_def)
qed

lemma reads_object:
  assumes "reads_members t kvs" and "distinct (map fst kvs)"
  shows "reads_value (''{'' @ pad k @ t @ pad l @ ''}'') (JObj kvs)"
proof -
  obtain c u where t: "t = c # u" "\<not> json_space c" "c \<noteq> CHR ''}''"
    using assms starts_value_cons [of t] by (auto simp: reads_members_def)
  have "parse_value n ((''{'' @ pad k @ t @ pad l @ ''}'') @ rest) = Some (JObj kvs, rest)"
    if fuel: "length (''{'' @ pad k @ t @ pad l @ ''}'') < n" for n rest
  proof -
    obtain m where n: "n = Suc m" "length t + 1 < m" using fuel by (cases n) (auto simp: pad_def newline_def)
    then have "parse_members m [] (t @ pad l @ CHR ''}'' # rest) = Some (JObj kvs, rest)"
      using assms by (simp add: reads_members_def)
    then show ?thesis using n(1) t by (simp add: skip_ws_pad)
  qed
  then show ?thesis by (simp add: reads_value_def starts_value_def json_space_def byte_def)
qed

lemma reads_empty: "reads_value ''[]'' (JArr [])" "reads_value ''{}'' (JObj [])"
  by (auto simp: reads_value_def starts_value_def json_space_def byte_def skip_ws_stop
      gr0_conv_Suc dest!: Suc_le_D simp flip: Suc_le_eq)

lemma dump_reads:
  "plain_json v \<Longrightarrow> \<exists>t. dump l v = Some t \<and> reads_value t v"
  "list_all plain_json vs \<Longrightarrow> vs \<noteq> [] \<Longrightarrow> \<exists>t. dump_items l vs = Some t \<and> reads_items t vs"
  "list_all (\<lambda>(k, v). ascii k \<and> plain_json v) kvs \<Longrightarrow> kvs \<noteq> [] \<Longrightarrow>
     \<exists>t. dump_members l kvs = Some t \<and> reads_members t kvs"
proof (induction l v and l vs and l kvs rule: dump_dump_items_dump_members.induct)
  case (7 l vs)
  then show ?case using reads_array reads_empty by fastforce
next
  case (8 l kvs)
  then show ?case using reads_object reads_empty by fastforce
next
  case (10 l v vs)
  then obtain a where a: "dump l v = Some a" "reads_value a v" by auto
  show ?case
  proof (cases "vs = []")
    case True
    then show ?thesis using a reads_items_single by simp
  next
    case False
    then obtain b where "dump_items l vs = Some b" "reads_items b vs" using 10 by auto
    then show ?thesis using False a reads_items_cons by simp
  qed
next
  case (12 l k v kvs)
  then obtain a where a: "dump l v = Some a" "reads_value a v" by auto
  have k: "ascii k" using 12 by simp
  show ?case
  proof (cases "kvs = []")
    case True
    then show ?thesis using a k reads_members_single by simp
  next
    case False
    then obtain b where "dump_members l kvs = Some b" "reads_members b kvs" using 12 by auto
    then show ?thesis using False a k reads_members_cons by simp
  qed
qed (use reads_atom reads_int reads_string in auto)

text \<open>Every value in range has a text, and reading that text gives the value back.\<close>

lemma json_round_trip:
  assumes "plain_json v"
  shows "\<exists>t. json_dumps v = Some t \<and> json_loads t = Inr v"
proof -
  obtain t where t: "dump 0 v = Some t" "reads_value t v" using dump_reads(1) [OF assms] by blast
  have "skip_ws t = t" using t(2) by (auto simp: reads_value_def skip_ws_stop dest!: starts_value_cons)
  moreover have "parse_value (Suc (length t)) (t @ []) = Some (v, [])"
    using t(2) by (simp add: reads_value_def value_end_def del: parse_value.simps)
  ultimately show ?thesis using t(1) by (simp add: json_dumps_def json_loads_def skip_ws_def del: parse_value.simps)
qed


subsection \<open>The alphabet of the printer\<close>

definition printed :: "string \<Rightarrow> bool" where
  "printed t = list_all (\<lambda>c. byte c = 10 \<or> (32 \<le> byte c \<and> byte c < 127)) t"

lemma printed_append [simp]: "printed (s @ t) \<longleftrightarrow> printed s \<and> printed t"
  by (simp add: printed_def)

lemma printed_pad [simp]: "printed (pad l)"
  by (simp add: printed_def pad_def newline_def list_all_iff byte_def)

lemma byte_hex_char: "d < 16 \<Longrightarrow> 32 \<le> byte (hex_char d) \<and> byte (hex_char d) < 127"
  by (auto simp: hex_char_def byte_digit_char)

lemma printed_u_escape: "printed (u_escape p)"
  by (simp add: printed_def u_escape_def hex4_def byte_hex_char) (simp add: byte_def)

lemma printed_escape: "printed (escape_point p)"
proof -
  have "printed [CHR 0x5C, c]" if "c \<in> {CHR 0x22, CHR 0x5C, CHR ''n'', CHR ''r'', CHR ''t'', CHR ''f'', CHR ''b''}" for c
    using that by (auto simp: printed_def byte_def)
  moreover have "32 \<le> p \<and> p < 127 \<Longrightarrow> printed [char_of p]" by (simp add: printed_def)
  ultimately show ?thesis by (simp add: escape_point_def printed_u_escape)
qed

lemma printed_dump_string: "printed (dump_string s)"
proof -
  have "printed (concat (map escape_point ps))" for ps
    by (induction ps) (simp_all add: printed_escape, simp add: printed_def)
  moreover have "printed [CHR 0x22]" by (simp add: printed_def byte_def)
  ultimately show ?thesis unfolding dump_string_def by (simp only: printed_append)
qed

lemma printed_show_int: "printed (show_int i)"
proof -
  have "printed (show_nat n)" for n
    using show_nat_digits [of n] by (auto simp: printed_def list_all_iff is_digit_def in_range_def)
  then show ?thesis by (simp add: show_int_def printed_def byte_def)
qed

lemma printed_words:
  "printed ''null''" "printed ''true''" "printed ''false''" "printed ''[]''" "printed ''{}''" "printed ''[''"
  "printed '']''" "printed ''{''" "printed ''}''" "printed '',''" "printed '': ''" "printed []"
  by code_simp+

lemma dump_printed:
  "plain_json v \<Longrightarrow> dump l v = Some t \<Longrightarrow> printed t"
  "list_all plain_json vs \<Longrightarrow> dump_items l vs = Some t \<Longrightarrow> printed t"
  "list_all (\<lambda>(k, v). ascii k \<and> plain_json v) kvs \<Longrightarrow> dump_members l kvs = Some t \<Longrightarrow> printed t"
proof (induction l v and l vs and l kvs arbitrary: t and t and t rule: dump_dump_items_dump_members.induct)
  case (7 l vs)
  then show ?case unfolding dump.simps plain_json.simps
    by (auto simp only: printed_append printed_pad printed_words map_option_eq_Some option.inject simp_thms split: if_splits)
next
  case (8 l kvs)
  then show ?case unfolding dump.simps plain_json.simps
    by (auto simp only: printed_append printed_pad printed_words map_option_eq_Some option.inject simp_thms split: if_splits)
next
  case (10 l v vs)
  then show ?case unfolding dump_items.simps list.pred_inject
    by (auto simp only: printed_append printed_pad printed_words option.inject prod.case option.case split: if_splits option.splits)
next
  case (12 l k v kvs)
  then show ?case unfolding dump_members.simps list.pred_inject
    by (auto simp only: printed_append printed_pad printed_words printed_dump_string option.inject prod.case option.case split: if_splits option.splits)
qed (auto simp: printed_words printed_show_int printed_dump_string simp del: printed_append split: if_splits)

lemma json_round_trip_blanks:
  assumes "plain_json v" and "json_dumps v = Some t"
  shows "json_loads (t @ newline) = Inr v"
proof -
  have t: "reads_value t v" using dump_reads(1) [OF assms(1), of 0] assms(2) by (auto simp: json_dumps_def)
  have nl: "newline = pad 0" by (simp add: pad_def)
  have "skip_ws (t @ newline) = t @ newline"
    using t by (auto simp: reads_value_def skip_ws_stop dest!: starts_value_cons)
  moreover have "parse_value (Suc (length (t @ newline))) (t @ newline) = Some (v, newline)"
    using t value_end_pad [of 0 "[]"] by (simp add: reads_value_def nl del: parse_value.simps)
  moreover have "skip_ws newline = []" by code_simp
  ultimately show ?thesis by (simp add: json_loads_def del: parse_value.simps)
qed

lemma printed_no_cr: "printed t \<Longrightarrow> \<forall>c \<in> set t. byte c \<noteq> 13"
  by (auto simp: printed_def list_all_iff)

lemma ascii_utf8: "\<forall>c \<in> set t. byte c < 128 \<Longrightarrow> utf8_valid t"
  by (induction t) auto

end
