(* ===== verification/Host.thy ===== *)
theory Host
  imports World Json
begin

text \<open>
  The machine a node runs on, as the VPN and configuration modules see it: files with their
  permissions, subprocesses, name resolution, HTTP, clocks. Files are state of the model (a
  finite map from path to content and mode), and so is the environment of the process; everything else is answered by a \<open>host\<close>, whose
  fields may look at all the calls made so far, and may answer with an exception. A subprocess
  may change any file.

  A file operation can be refused by the operating system (\<open>h_fs_error\<close>); it then changes
  nothing. Directories are not modelled: \<^verbatim>\<open>mkdir\<close> only succeeds or fails. Paths are given in
  the form \<^verbatim>\<open>str(Path(p))\<close>.
\<close>

section \<open>Calls and replies\<close>

datatype service_state = BOOTING | VPN_UNAVAILABLE | READY | DEGRADED

record proc_result =
  returncode :: int
  stdout :: string
  stderr :: string

record stored_file =
  file_content :: string
  file_mode :: nat

type_synonym files = "string \<rightharpoonup> stored_file"

text \<open>The signals that are sent with \<^verbatim>\<open>os.kill\<close>; signal 0 only asks whether the process is there.\<close>

datatype os_signal = SIG0 | SIGTERM | SIGKILL

type_synonym environment = "(string \<times> string) list"

datatype fs_op = Fs_Exists | Fs_Stat | Fs_Read | Fs_Write | Fs_Chmod | Fs_Mkdir | Fs_Unlink | Fs_Open

datatype host_event =
    H_File fs_op string "exn + unit"
  | H_Run "string list" "exn + proc_result"
  | H_Popen "string list" "environment option" "exn + int"
  | H_Kill int os_signal "exn + unit"
  | H_Resolve string "exn + unit"
  | H_Head string headers "exn + nat"
  | H_Post string headers json "exn + nat \<times> string"
  | H_Sign jwt_claims string "exn + string"
  | H_Sleep pyfloat "exn + unit"
  | H_Notify service_state "exn + unit"
  | H_Close string "exn + unit"
  | H_Print string
  | H_Serve string string int "exn + unit"
  | H_Start_Task string
  | H_Cancel_Task string
  | H_Await_Task string "exn + unit"
  | H_Drain int "exn + bool"

type_synonym host_history = "host_event list"

record host =
  h_system :: string
  h_os_name :: string
  h_tmp :: string
  h_new_mode :: nat
  h_hostname :: string
  h_node_id :: nat
  h_which :: "string \<Rightarrow> string option"
  h_fs_error :: "host_history \<Rightarrow> fs_op \<Rightarrow> string \<Rightarrow> exn option"
  h_run :: "host_history \<Rightarrow> files \<Rightarrow> string list \<Rightarrow> (exn + proc_result) \<times> files"
  h_popen :: "host_history \<Rightarrow> files \<Rightarrow> string list \<Rightarrow> environment option \<Rightarrow> (exn + int) \<times> files"
  h_kill :: "host_history \<Rightarrow> int \<Rightarrow> os_signal \<Rightarrow> exn + unit"
  h_resolve :: "host_history \<Rightarrow> string \<Rightarrow> exn + unit"
  h_head :: "host_history \<Rightarrow> string \<Rightarrow> headers \<Rightarrow> exn + nat"
  h_post :: "host_history \<Rightarrow> string \<Rightarrow> headers \<Rightarrow> json \<Rightarrow> exn + nat \<times> string"
  h_jwt_encode :: "host_history \<Rightarrow> jwt_encode"
  h_sleep :: "host_history \<Rightarrow> pyfloat \<Rightarrow> exn + unit"
  h_clock :: "host_history \<Rightarrow> rat"
  h_monotonic :: "host_history \<Rightarrow> rat"
  h_notify :: "host_history \<Rightarrow> service_state \<Rightarrow> exn + unit"
  h_stop_requested :: "host_history \<Rightarrow> bool"
  h_close :: "host_history \<Rightarrow> string \<Rightarrow> exn + unit"
  h_serve :: "host_history \<Rightarrow> string \<Rightarrow> string \<Rightarrow> int \<Rightarrow> exn + unit"
  h_await_task :: "host_history \<Rightarrow> string \<Rightarrow> exn + unit"
  h_drain :: "host_history \<Rightarrow> int \<Rightarrow> exn + bool"

text \<open>
  \<open>h_system\<close> is \<^verbatim>\<open>platform.system()\<close>, \<open>h_os_name\<close> is \<^verbatim>\<open>os.name\<close>, \<open>h_tmp\<close> is
  \<^verbatim>\<open>tempfile.gettempdir()\<close>, \<open>h_new_mode\<close> the permissions a new file gets from the umask.
  \<open>h_close\<close> closes a client (HTTP or Redis), \<open>h_serve\<close> is \<^verbatim>\<open>uvicorn.run\<close>, \<open>h_await_task\<close> is what
  awaiting a background task ends with, and \<open>h_drain\<close> is how the consumer's drain ends.
\<close>

record host_state = "host_event io" +
  fs :: files
  environ :: environment

type_synonym ('a, 'r) hprog = "('a host_state_scheme, 'r) prog"

lemma fs_emits [simp]: "fs (emits evs s) = fs s" "environ (emits evs s) = environ s"
  by (simp_all add: emits_def)

lemma fs_update_emits [simp]: "fs_update f (emits evs s) = emits evs (fs_update f s)"
  by (simp add: emits_def)


section \<open>Subprocesses and clocks\<close>

text \<open>\<^verbatim>\<open>subprocess.run(args, capture_output=True, text=True, timeout=...)\<close>.\<close>

definition run_process :: "host \<Rightarrow> string list \<Rightarrow> ('a, proc_result) hprog" where
  "run_process w args = (\<lambda>s. case h_run w (trace s) (fs s) args of (r, fs') \<Rightarrow>
     (case r of Inl e \<Rightarrow> Raise e | Inr x \<Rightarrow> Ret x, emit (H_Run args r) (s\<lparr>fs := fs'\<rparr>)))"

text \<open>\<^verbatim>\<open>subprocess.Popen(args, env=...)\<close>; without an environment the child inherits the parent's.\<close>

definition popen :: "host \<Rightarrow> string list \<Rightarrow> environment option \<Rightarrow> ('a, int) hprog" where
  "popen w args env = (\<lambda>s. case h_popen w (trace s) (fs s) args env of (r, fs') \<Rightarrow>
     (case r of Inl e \<Rightarrow> Raise e | Inr x \<Rightarrow> Ret x, emit (H_Popen args env r) (s\<lparr>fs := fs'\<rparr>)))"

text \<open>\<^verbatim>\<open>print(text)\<close> and the other calls that are only recorded.\<close>

definition note_event :: "host_event \<Rightarrow> ('a, unit) hprog" where
  "note_event ev = modify_p (emit ev)"

definition say :: "string \<Rightarrow> ('a, unit) hprog" where
  "say t = note_event (H_Print t)"

definition host_close :: "host \<Rightarrow> string \<Rightarrow> ('a, unit) hprog" where
  "host_close w c = call (\<lambda>h. h_close w h c) (H_Close c)"

definition monotonic :: "host \<Rightarrow> ('a, rat) hprog" where
  "monotonic w = get_p (\<lambda>s. h_monotonic w (trace s))"

definition host_sleep :: "host \<Rightarrow> pyfloat \<Rightarrow> ('a, unit) hprog" where
  "host_sleep w delay = call (\<lambda>h. h_sleep w h delay) (H_Sleep delay)"

lemma wp_run_process [wp_rules]:
  "wp (run_process w args) Q s =
     (case h_run w (trace s) (fs s) args of (r, fs') \<Rightarrow>
        Q (case r of Inl e \<Rightarrow> Raise e | Inr x \<Rightarrow> Ret x) (emits [H_Run args r] (s\<lparr>fs := fs'\<rparr>)))"
  by (simp add: run_process_def wp_def split: prod.split)

lemma wp_popen [wp_rules]:
  "wp (popen w args env) Q s =
     (case h_popen w (trace s) (fs s) args env of (r, fs') \<Rightarrow>
        Q (case r of Inl e \<Rightarrow> Raise e | Inr x \<Rightarrow> Ret x) (emits [H_Popen args env r] (s\<lparr>fs := fs'\<rparr>)))"
  by (simp add: popen_def wp_def split: prod.split)

lemma wp_note_event [wp_rules]: "wp (note_event ev) Q s = Q (Ret ()) (emits [ev] s)"
  by (simp add: note_event_def wp_modify_p)

lemma wp_say [wp_rules]: "wp (say t) Q s = Q (Ret ()) (emits [H_Print t] s)"
  by (simp add: say_def wp_note_event)

lemma emits_all_host [emits_intros]:
  "(\<And>r. P (H_Run args r)) \<Longrightarrow> emits_all P (run_process w args)"
  "(\<And>r. P (H_Popen args env r)) \<Longrightarrow> emits_all P (popen w args env)"
  "P ev \<Longrightarrow> emits_all P (note_event ev)"
  "P (H_Print t) \<Longrightarrow> emits_all P (say t)"
  "emits_all P (monotonic w)"
  "(\<And>r. P (H_Sleep d r)) \<Longrightarrow> emits_all P (host_sleep w d)"
  "(\<And>r. P (H_Close c r)) \<Longrightarrow> emits_all P (host_close w c)"
  by (auto simp: emits_all_def wp_rules host_sleep_def host_close_def monotonic_def
      split: prod.split sum.split)

lemma wp_monotonic [wp_rules]: "wp (monotonic w) Q s = Q (Ret (h_monotonic w (trace s))) s"
  by (simp add: monotonic_def wp_get_p)


section \<open>Files\<close>

definition fs_check :: "host \<Rightarrow> fs_op \<Rightarrow> string \<Rightarrow> ('a, unit) hprog" where
  "fs_check w op p =
     call (\<lambda>h. case h_fs_error w h op p of Some e \<Rightarrow> Inl e | None \<Rightarrow> Inr ()) (H_File op p)"

definition missing_file :: "string \<Rightarrow> exn" where
  "missing_file p = Exn FileNotFoundError (''[Errno 2] No such file or directory: '' @ py_repr p)"

definition path_exists :: "host \<Rightarrow> string \<Rightarrow> ('a, bool) hprog" where
  "path_exists w p = then_p (fs_check w Fs_Exists p) (get_p (\<lambda>s. fs s p \<noteq> None))"

definition stat_mode :: "host \<Rightarrow> string \<Rightarrow> ('a, nat) hprog" where
  "stat_mode w p =
     then_p (fs_check w Fs_Stat p)
      (bind_p (get_p (\<lambda>s. fs s p)) (\<lambda>f.
        case f of None \<Rightarrow> raise (missing_file p) | Some x \<Rightarrow> ret (file_mode x)))"

text \<open>
  Text mode: reading decodes UTF-8 and turns CR LF and CR into LF; writing on Windows turns LF
  into CR LF.
\<close>

fun newlines_from :: "bool \<Rightarrow> string \<Rightarrow> string" where
  "newlines_from after_cr [] = []"
| "newlines_from after_cr (c # s) =
     (if byte c = 13 then CHR 0x0A # newlines_from True s
      else if after_cr \<and> byte c = 10 then newlines_from False s
      else c # newlines_from False s)"

definition universal_newlines :: "string \<Rightarrow> string" where
  "universal_newlines s = newlines_from False s"

definition text_newlines :: "host \<Rightarrow> string \<Rightarrow> string" where
  "text_newlines w s =
     (if h_os_name w = ''nt''
      then concat (map (\<lambda>c. if byte c = 10 then [CHR 0x0D, CHR 0x0A] else [c]) s) else s)"

definition read_text :: "host \<Rightarrow> string \<Rightarrow> ('a, string) hprog" where
  "read_text w p =
     then_p (fs_check w Fs_Read p)
      (bind_p (get_p (\<lambda>s. fs s p)) (\<lambda>f.
        case f of
          None \<Rightarrow> raise (missing_file p)
        | Some x \<Rightarrow> bind_p (from_sum (bytes_decode (file_content x))) (\<lambda>t. ret (universal_newlines t))))"

definition stored_mode :: "host \<Rightarrow> files \<Rightarrow> string \<Rightarrow> nat" where
  "stored_mode w m p = (case m p of Some f \<Rightarrow> file_mode f | None \<Rightarrow> h_new_mode w)"

definition write_text :: "host \<Rightarrow> string \<Rightarrow> string \<Rightarrow> ('a, unit) hprog" where
  "write_text w p t =
     then_p (fs_check w Fs_Write p)
      (modify_p (\<lambda>s. s\<lparr>fs := (fs s)(p \<mapsto>
         \<lparr>file_content = text_newlines w t, file_mode = stored_mode w (fs s) p\<rparr>)\<rparr>))"

definition chmod :: "host \<Rightarrow> string \<Rightarrow> nat \<Rightarrow> ('a, unit) hprog" where
  "chmod w p m =
     then_p (fs_check w Fs_Chmod p)
      (bind_p (get_p (\<lambda>s. fs s p)) (\<lambda>f.
        case f of
          None \<Rightarrow> raise (missing_file p)
        | Some x \<Rightarrow> modify_p (\<lambda>s. s\<lparr>fs := (fs s)(p \<mapsto> x\<lparr>file_mode := m\<rparr>)\<rparr>)))"

definition make_parent :: "host \<Rightarrow> string \<Rightarrow> ('a, unit) hprog" where
  "make_parent w p = fs_check w Fs_Mkdir p"

text \<open>\<^verbatim>\<open>path.unlink(missing_ok=True)\<close>.\<close>

definition unlink :: "host \<Rightarrow> string \<Rightarrow> ('a, unit) hprog" where
  "unlink w p = then_p (fs_check w Fs_Unlink p) (modify_p (\<lambda>s. s\<lparr>fs := (fs s)(p := None)\<rparr>))"

text \<open>\<^verbatim>\<open>path.unlink()\<close>: a missing file is an error.\<close>

definition unlink_existing :: "host \<Rightarrow> string \<Rightarrow> ('a, unit) hprog" where
  "unlink_existing w p =
     then_p (fs_check w Fs_Unlink p)
      (bind_p (get_p (\<lambda>s. fs s p)) (\<lambda>f.
        case f of
          None \<Rightarrow> raise (missing_file p)
        | Some _ \<Rightarrow> modify_p (\<lambda>s. s\<lparr>fs := (fs s)(p := None)\<rparr>)))"

lemma wp_fs_check [wp_rules]:
  "wp (fs_check w op p) Q s =
     (case h_fs_error w (trace s) op p of
        Some e \<Rightarrow> Q (Raise e) (emits [H_File op p (Inl e)] s)
      | None \<Rightarrow> Q (Ret ()) (emits [H_File op p (Inr ())] s))"
  by (simp add: fs_check_def wp_call split: option.splits)

lemma emits_all_files [emits_intros]:
  assumes "\<And>op p r. P (H_File op p r)"
  shows "emits_all P (fs_check w op p)" "emits_all P (path_exists w p)" "emits_all P (stat_mode w p)"
    "emits_all P (read_text w p)" "emits_all P (write_text w p t)" "emits_all P (chmod w p m)"
    "emits_all P (make_parent w p)" "emits_all P (unlink w p)" "emits_all P (unlink_existing w p)"
proof -
  have check: "emits_all P (fs_check w op p)" for op p
    using assms by (auto simp: fs_check_def intro: emits_intros)
  then show "emits_all P (fs_check w op p)" "emits_all P (path_exists w p)" "emits_all P (stat_mode w p)"
    "emits_all P (read_text w p)" "emits_all P (write_text w p t)" "emits_all P (chmod w p m)"
    "emits_all P (make_parent w p)" "emits_all P (unlink w p)" "emits_all P (unlink_existing w p)"
    unfolding path_exists_def stat_mode_def read_text_def write_text_def chmod_def make_parent_def
      unlink_def unlink_existing_def
    by (auto intro!: emits_intros split: option.split)
qed

text \<open>Text without a CR is read back as it was written, on every system.\<close>

lemma newlines_from_id: "\<forall>c \<in> set s. byte c \<noteq> 13 \<Longrightarrow> newlines_from False s = s"
  by (induction s) auto

lemma newlines_from_crlf:
  "\<forall>c \<in> set s. byte c \<noteq> 13 \<Longrightarrow>
   newlines_from False (concat (map (\<lambda>c. if byte c = 10 then [CHR 0x0D, CHR 0x0A] else [c]) s)) = s"
proof (induction s)
  case (Cons c s)
  have "c = CHR 0x0A" if "byte c = 10"
    using that char_of_byte [of c] by (simp add: char_of_literals)
  then show ?case using Cons by (auto simp: byte_def)
qed simp

lemma read_written:
  "\<forall>c \<in> set s. byte c \<noteq> 13 \<Longrightarrow> universal_newlines (text_newlines w s) = s"
  by (simp add: text_newlines_def universal_newlines_def newlines_from_id newlines_from_crlf)


section \<open>Quiet machines\<close>

text \<open>A Linux machine on which nothing fails and no tunnel is up: the base of concrete runs.\<close>

definition quiet_host :: host where
  "quiet_host = \<lparr>
     h_system = ''Linux'', h_os_name = ''posix'', h_tmp = ''/tmp'', h_new_mode = 420,
     h_hostname = ''lab'', h_node_id = 7, h_which = (\<lambda>_. Some ''/usr/sbin/openvpn''),
     h_fs_error = (\<lambda>_ _ _. None),
     h_run = (\<lambda>_ m _. (Inr \<lparr>returncode = 0, stdout = [], stderr = []\<rparr>, m)),
     h_popen = (\<lambda>_ m _ _. (Inr 42, m)), h_kill = (\<lambda>_ _ _. Inr ()),
     h_resolve = (\<lambda>_ _. Inr ()), h_head = (\<lambda>_ _ _. Inr 200),
     h_post = (\<lambda>_ _ _ _. Inr (200, ''{}'')), h_jwt_encode = (\<lambda>_ _ _ _ kid. Inr kid),
     h_sleep = (\<lambda>_ _. Inr ()), h_clock = (\<lambda>_. 0), h_monotonic = (\<lambda>_. 0),
     h_notify = (\<lambda>_ _. Inr ()), h_stop_requested = (\<lambda>_. False),
     h_close = (\<lambda>_ _. Inr ()), h_serve = (\<lambda>_ _ _ _. Inr ()),
     h_await_task = (\<lambda>_ _. Inl (Exn CancelledError [])), h_drain = (\<lambda>_ _. Inr True)\<rparr>"

end
