(* ===== verification/Guard.thy ===== *)
theory Guard
  imports Host
begin

text \<open>
  \<open>vpn/guard.py\<close>: detection of the tunnel interface on each platform, the three-stage
  preflight, the watch loop with its callback, and the check of a key file's permissions.
  The watch loop runs with fuel, one unit per tick.
\<close>

section \<open>Parsing the output of the platform tools\<close>

text \<open>The loop over the lines of \<^verbatim>\<open>ifconfig\<close>; \<open>current_iface\<close> is the interface of the last header line.\<close>

definition tunnel_name :: "string option \<Rightarrow> bool" where
  "tunnel_name iface =
     (case iface of None \<Rightarrow> False | Some i \<Rightarrow> i \<noteq> [] \<and> (startswith i ''utun'' \<or> startswith i ''tun''))"

fun darwin_scan :: "string option \<Rightarrow> string list \<Rightarrow> string option" where
  "darwin_scan current_iface [] = None"
| "darwin_scan current_iface (line # rest) =
     (if line \<noteq> [] \<and> \<not> is_space (hd line)
      then darwin_scan (Some (hd (split_on (CHR '':'') line))) rest
      else if tunnel_name current_iface \<and> startswith (strip line) ''inet ''
      then current_iface
      else darwin_scan current_iface rest)"

definition parse_darwin_tun_interfaces :: "string \<Rightarrow> string option" where
  "parse_darwin_tun_interfaces ifconfig_output = darwin_scan None (splitlines ifconfig_output)"

definition tap_markers :: "string list" where
  "tap_markers = [''tap-windows'', ''wintun'', ''openvpn'', ''tap adapter'']"

definition hint_matches :: "string option \<Rightarrow> string \<Rightarrow> string \<Rightarrow> bool" where
  "hint_matches hint_lower name description =
     (case hint_lower of
        None \<Rightarrow> True
      | Some h \<Rightarrow> contains (lower name) h \<or> contains (lower description) h)"

text \<open>One adapter of the list: its name if it is a tunnel adapter that is up.\<close>

definition tap_adapter :: "string option \<Rightarrow> json \<Rightarrow> string option" where
  "tap_adapter hint_lower adapter =
     (case adapter of
        JObj d \<Rightarrow>
          (case (map_of d ''Name'', map_of d ''InterfaceDescription'', map_of d ''Status'') of
             (Some (JStr name), Some (JStr description), Some (JStr status)) \<Rightarrow>
               if lower status \<noteq> ''up'' then None
               else if \<not> hint_matches hint_lower name description then None
               else if list_ex (contains (lower description)) tap_markers then Some name
               else None
           | _ \<Rightarrow> None)
      | _ \<Rightarrow> None)"

fun first_adapter :: "string option \<Rightarrow> json list \<Rightarrow> string option" where
  "first_adapter hint_lower [] = None"
| "first_adapter hint_lower (a # adapters) =
     (case tap_adapter hint_lower a of Some name \<Rightarrow> Some name | None \<Rightarrow> first_adapter hint_lower adapters)"

definition lower_hint :: "string option \<Rightarrow> string option" where
  "lower_hint hint = (case hint of None \<Rightarrow> None | Some h \<Rightarrow> if h = [] then None else Some (lower h))"

definition parse_windows_tun_interfaces :: "string \<Rightarrow> string option \<Rightarrow> string option" where
  "parse_windows_tun_interfaces adapter_json hint =
     (case json_loads adapter_json of
        Inl _ \<Rightarrow> None
      | Inr (JObj d) \<Rightarrow> first_adapter (lower_hint hint) [JObj d]
      | Inr (JArr adapters) \<Rightarrow> first_adapter (lower_hint hint) adapters
      | Inr _ \<Rightarrow> None)"

text \<open>The loop over the lines of \<^verbatim>\<open>ip -o link show type tun\<close>.\<close>

fun linux_scan :: "string list \<Rightarrow> string option" where
  "linux_scan [] = None"
| "linux_scan (line # rest) =
     (let parts = split_on (CHR '':'') line
      in if 2 \<le> length parts then Some (strip (parts ! 1)) else linux_scan rest)"


section \<open>Detection\<close>

definition adapter_command :: "string list" where
  "adapter_command = [''powershell'', ''-NoProfile'', ''-Command'',
     ''Get-NetAdapter -IncludeHidden | Select-Object Name,InterfaceDescription,Status | ConvertTo-Json -Compress'']"

definition hint_command :: "string \<Rightarrow> string \<Rightarrow> string list" where
  "hint_command system hint =
     (if system = ''Darwin'' then [''ifconfig'', hint]
      else if system = ''Windows'' then adapter_command
      else [''ip'', ''link'', ''show'', hint])"

definition no_tool :: "exn \<Rightarrow> ('a, string option) hprog option" where
  "no_tool e = (if catches [FileNotFoundError, TimeoutExpired] e then Some (ret None) else None)"

definition detect_hinted :: "host \<Rightarrow> string \<Rightarrow> ('a, string option) hprog" where
  "detect_hinted w hint =
     try_except
       (bind_p (run_process w (hint_command (h_system w) hint)) (\<lambda>result.
         ret (if h_system w = ''Windows'' then parse_windows_tun_interfaces (stdout result) (Some hint)
              else if returncode result = 0
                      \<and> (contains (stdout result) ''UP'' \<or> contains (stdout result) ''up'')
              then Some hint else None)))
       no_tool"

definition detect_any :: "host \<Rightarrow> ('a, string option) hprog" where
  "detect_any w =
     try_except
       (if h_system w = ''Darwin'' then
          bind_p (run_process w [''ifconfig'']) (\<lambda>r. ret (parse_darwin_tun_interfaces (stdout r)))
        else if h_system w = ''Windows'' then
          bind_p (run_process w adapter_command) (\<lambda>r. ret (parse_windows_tun_interfaces (stdout r) None))
        else
          bind_p (run_process w [''ip'', ''-o'', ''link'', ''show'', ''type'', ''tun''])
            (\<lambda>r. ret (linux_scan (splitlines (stdout r)))))
       no_tool"

definition detect_tun_interface :: "host \<Rightarrow> string option \<Rightarrow> ('a, string option) hprog" where
  "detect_tun_interface w hint =
     (case hint of
        None \<Rightarrow> detect_any w
      | Some h \<Rightarrow> if h = [] then detect_any w else detect_hinted w h)"


section \<open>Probes\<close>

record probe_result =
  pr_target :: string
  pr_ok :: bool
  pr_latency_ms :: "pyfloat option"
  pr_error :: "string option"

record vpn_status =
  vs_ok :: bool
  vs_interface_found :: bool
  vs_probes :: "probe_result list"
  vs_reason :: string

text \<open>\<^verbatim>\<open>round(x, 1)\<close>: to the nearest tenth.\<close>

definition round1 :: "rat \<Rightarrow> rat" where
  "round1 x = of_int (round_half_even (x * 10)) / 10"

definition latency_since :: "host \<Rightarrow> rat \<Rightarrow> ('a, pyfloat) hprog" where
  "latency_since w started = bind_p (monotonic w) (\<lambda>now. ret (round1 ((now - started) * 1000)))"

definition probe_target :: "host \<Rightarrow> string \<Rightarrow> headers \<Rightarrow> ('a, probe_result) hprog" where
  "probe_target w url extra_headers =
     bind_p (monotonic w) (\<lambda>started.
       try_except
         (bind_p (call (\<lambda>h. h_head w h url extra_headers) (H_Head url extra_headers)) (\<lambda>status_code.
          bind_p (latency_since w started) (\<lambda>latency_ms.
            ret \<lparr>pr_target = url, pr_ok = status_code < 500, pr_latency_ms = Some latency_ms, pr_error = None\<rparr>)))
         (\<lambda>exc. if is_exception exc
            then Some (bind_p (latency_since w started) (\<lambda>latency_ms.
              ret \<lparr>pr_target = url, pr_ok = False, pr_latency_ms = Some latency_ms,
                   pr_error = Some (str_take 200 (exn_text exc))\<rparr>))
            else None))"

definition resolve_host :: "host \<Rightarrow> string \<Rightarrow> ('a, bool) hprog" where
  "resolve_host w hostname =
     try_except
       (then_p (call (\<lambda>h. h_resolve w h hostname) (H_Resolve hostname)) (ret True))
       (\<lambda>e. if catches [OSError] e then Some (ret False) else None)"

text \<open>
  \<^verbatim>\<open>urlparse(target).hostname\<close>: leading blanks and control characters are stripped and tabs and
  newlines removed; a scheme is letters, digits, \<open>+\<close>, \<open>-\<close> and \<open>.\<close> up to the first colon; the
  network location follows \<open>//\<close>. The content of an IPv6 literal is not validated here.
\<close>

fun partition_on :: "char \<Rightarrow> string \<Rightarrow> string \<times> bool \<times> string" where
  "partition_on d [] = ([], False, [])"
| "partition_on d (c # s) =
     (if c = d then ([], True, s) else case partition_on d s of (a, b, r) \<Rightarrow> (c # a, b, r))"

definition is_alpha :: "char \<Rightarrow> bool" where
  "is_alpha c = (in_range 65 90 c \<or> in_range 97 122 c)"

definition scheme_char :: "char \<Rightarrow> bool" where
  "scheme_char c = (is_alpha c \<or> is_digit c \<or> c \<in> {CHR ''+'', CHR ''-'', CHR ''.''})"

definition clean_url :: "string \<Rightarrow> string" where
  "clean_url url =
     filter (\<lambda>c. byte c \<noteq> 9 \<and> byte c \<noteq> 10 \<and> byte c \<noteq> 13) (dropWhile (\<lambda>c. byte c \<le> 32) url)"

definition after_scheme :: "string \<Rightarrow> string" where
  "after_scheme url =
     (case partition_on (CHR '':'') url of (scheme, found, rest) \<Rightarrow>
        if found \<and> scheme \<noteq> [] \<and> is_alpha (hd scheme) \<and> list_all scheme_char scheme then rest else url)"

definition url_netloc :: "string \<Rightarrow> exn + string" where
  "url_netloc url =
     (let r = after_scheme (clean_url url);
          netloc = takeWhile (\<lambda>c. c \<notin> {CHR ''/'', CHR ''?'', CHR ''#''}) (drop 2 r)
      in if take 2 r \<noteq> ''//'' then Inr []
         else if (CHR ''['' \<in> set netloc) \<noteq> (CHR '']'' \<in> set netloc)
         then Inl (Exn ValueError ''Invalid IPv6 URL'')
         else Inr netloc)"

definition netloc_hostname :: "string \<Rightarrow> string option" where
  "netloc_hostname netloc =
     (let hostinfo = last (split_on (CHR ''@'') netloc);
          (_, bracketed, inner) = partition_on (CHR ''['') hostinfo;
          hostname = (if bracketed then fst (partition_on (CHR '']'') inner)
                      else fst (partition_on (CHR '':'') hostinfo));
          (name, percent, zone) = partition_on (CHR ''%'') hostname
      in if hostname = [] then None
         else Some (lower name @ (if percent then ''%'' else []) @ zone))"

definition url_hostname :: "string \<Rightarrow> exn + string option" where
  "url_hostname url = map_sum id netloc_hostname (url_netloc url)"


section \<open>The guard\<close>

record vpn_guard =
  g_probe_targets :: "string list"
  g_interface_hint :: "string option"
  g_check_interval :: int
  g_vpn_required :: bool
  g_extra_headers :: headers
  g_state :: service_state
  g_running :: bool

record guard_state = host_state +
  guard :: vpn_guard

type_synonym 'r gprog = "(guard_state, 'r) prog"

definition new_guard ::
    "string list option \<Rightarrow> string option \<Rightarrow> int \<Rightarrow> bool \<Rightarrow> headers option \<Rightarrow> vpn_guard" where
  "new_guard probe_targets interface_hint check_interval_sec vpn_required extra_headers =
     \<lparr>g_probe_targets = (case probe_targets of Some ts \<Rightarrow> ts | None \<Rightarrow> []),
      g_interface_hint = interface_hint, g_check_interval = check_interval_sec,
      g_vpn_required = vpn_required,
      g_extra_headers = (case extra_headers of Some hs \<Rightarrow> hs | None \<Rightarrow> []),
      g_state = BOOTING, g_running = False\<rparr>"

definition is_ready :: "vpn_guard \<Rightarrow> bool" where
  "is_ready g = (g_state g = READY)"

definition set_state :: "service_state \<Rightarrow> unit gprog" where
  "set_state st = modify_p (\<lambda>s. s\<lparr>guard := (guard s)\<lparr>g_state := st\<rparr>\<rparr>)"

fun dns_failures :: "host \<Rightarrow> string list \<Rightarrow> string list gprog" where
  "dns_failures w [] = ret []"
| "dns_failures w (target # targets) =
     bind_p (from_sum (url_hostname target)) (\<lambda>hostname.
     bind_p (case hostname of None \<Rightarrow> ret True | Some h \<Rightarrow> resolve_host w h) (\<lambda>resolved.
     bind_p (dns_failures w targets) (\<lambda>failures.
       ret (if resolved then failures else the hostname # failures))))"

fun probe_all :: "host \<Rightarrow> headers \<Rightarrow> string list \<Rightarrow> probe_result list gprog" where
  "probe_all w hs [] = ret []"
| "probe_all w hs (target # targets) =
     bind_p (probe_target w target hs) (\<lambda>p. bind_p (probe_all w hs targets) (\<lambda>ps. ret (p # ps)))"

definition probe_reason :: "probe_result \<Rightarrow> string" where
  "probe_reason p =
     pr_target p @ '': '' @
     (case pr_error p of Some e \<Rightarrow> if e = [] then ''unreachable'' else e | None \<Rightarrow> ''unreachable'')"

definition unavailable :: "bool \<Rightarrow> probe_result list \<Rightarrow> string \<Rightarrow> vpn_status gprog" where
  "unavailable interface_found probes reason =
     then_p (set_state VPN_UNAVAILABLE)
      (ret \<lparr>vs_ok = False, vs_interface_found = interface_found, vs_probes = probes, vs_reason = reason\<rparr>)"

definition preflight_probes :: "host \<Rightarrow> vpn_guard \<Rightarrow> bool \<Rightarrow> vpn_status gprog" where
  "preflight_probes w g interface_found =
     bind_p (probe_all w (g_extra_headers g) (g_probe_targets g)) (\<lambda>probes.
       let failed = filter (\<lambda>p. \<not> pr_ok p) probes
       in if failed \<noteq> [] \<and> g_vpn_required g
          then unavailable interface_found probes (''Probe failures: '' @ join ''; '' (map probe_reason failed))
          else then_p (set_state READY)
            (ret \<lparr>vs_ok = True, vs_interface_found = interface_found, vs_probes = probes, vs_reason = []\<rparr>))"

definition preflight_dns :: "host \<Rightarrow> vpn_guard \<Rightarrow> bool \<Rightarrow> vpn_status gprog" where
  "preflight_dns w g interface_found =
     bind_p (dns_failures w (g_probe_targets g)) (\<lambda>failures.
       if failures \<noteq> [] \<and> g_vpn_required g
       then unavailable interface_found [] (''DNS resolution failed for: '' @ join '', '' failures)
       else preflight_probes w g interface_found)"

definition preflight :: "host \<Rightarrow> vpn_status gprog" where
  "preflight w =
     bind_p (get_p guard) (\<lambda>g.
     bind_p (detect_tun_interface w (g_interface_hint g)) (\<lambda>iface.
       if iface = None \<and> g_vpn_required g
       then unavailable False [] ''No VPN tunnel interface detected''
       else preflight_dns w g (iface \<noteq> None)))"


section \<open>Watching\<close>

text \<open>\<^verbatim>\<open>await on_change(state)\<close>, if there is a callback.\<close>

definition notify :: "host \<Rightarrow> bool \<Rightarrow> service_state \<Rightarrow> unit gprog" where
  "notify w on_change st =
     (if on_change then call (\<lambda>h. h_notify w h st) (H_Notify st) else ret ())"

definition watch_react :: "host \<Rightarrow> bool \<Rightarrow> service_state \<Rightarrow> vpn_status \<Rightarrow> unit gprog" where
  "watch_react w on_change previous status =
     (if vs_ok status \<and> previous \<notin> {READY, BOOTING} then notify w on_change READY
      else if \<not> vs_ok status \<and> previous = READY
      then then_p (set_state DEGRADED) (notify w on_change DEGRADED)
      else ret ())"

definition watch_tick :: "host \<Rightarrow> bool \<Rightarrow> unit gprog" where
  "watch_tick w on_change =
     bind_p (get_p guard) (\<lambda>g.
     then_p (host_sleep w (of_int (g_check_interval g)))
      (bind_p (get_p (\<lambda>s. g_state (guard s))) (\<lambda>previous.
       bind_p (preflight w) (\<lambda>status. watch_react w on_change previous status))))"

definition stop_watch :: "unit gprog" where
  "stop_watch = modify_p (\<lambda>s. s\<lparr>guard := (guard s)\<lparr>g_running := False\<rparr>\<rparr>)"

text \<open>Another task may have called \<open>stop()\<close> while the loop was waiting.\<close>

definition stop_noticed :: "host \<Rightarrow> unit gprog" where
  "stop_noticed w = bind_p (get_p (\<lambda>s. h_stop_requested w (trace s))) (\<lambda>b. if b then stop_watch else ret ())"

fun watch_while :: "nat \<Rightarrow> host \<Rightarrow> bool \<Rightarrow> unit gprog" where
  "watch_while 0 w on_change = hang"
| "watch_while (Suc n) w on_change =
     then_p (stop_noticed w)
      (bind_p (get_p (\<lambda>s. g_running (guard s))) (\<lambda>running.
        if running then then_p (watch_tick w on_change) (watch_while n w on_change) else ret ()))"

definition watch :: "nat \<Rightarrow> host \<Rightarrow> bool \<Rightarrow> unit gprog" where
  "watch n w on_change =
     then_p (modify_p (\<lambda>s. s\<lparr>guard := (guard s)\<lparr>g_running := True\<rparr>\<rparr>)) (watch_while n w on_change)"


section \<open>Key files\<close>

text \<open>\<^verbatim>\<open>0o600\<close> is 384 and \<^verbatim>\<open>0o400\<close> is 256; \<^verbatim>\<open>mode & 0o777\<close> is the remainder by 512.\<close>

definition validate_key_permissions :: "host \<Rightarrow> string \<Rightarrow> ('a, bool) hprog" where
  "validate_key_permissions w path =
     try_except
       (if h_system w = ''Windows'' then path_exists w path
        else bind_p (stat_mode w path) (\<lambda>m. ret (m mod 512 \<in> {384, 256})))
       (\<lambda>e. if catches [OSError] e then Some (ret False) else None)"

end
