(* ===== verification/Config.thy ===== *)
theory Config
  imports Host
begin

text \<open>
  \<open>server/config.py\<close>: the persisted runtime configuration and how it is read back, the merge of
  persisted values under those of the environment, the validators of \<open>Settings\<close> and its computed
  URLs, and the scan of the device YAML for an executor factory.

  Type coercion of the fields and validated assignment are pydantic's. They are the fields of a
  \<open>library\<close>: \<open>l_build data\<close> is the model built from raw data (with defaults for missing fields,
  before the \<^verbatim>\<open>after\<close> validators), \<open>l_assign h m old new\<close> is the outcome of an assignment that
  turns the model \<open>old\<close> into \<open>new\<close>; \<open>l_str v\<close> is \<^verbatim>\<open>str(v)\<close> of a JSON value that is not a string.
\<close>

section \<open>Persisted configuration\<close>

type_synonym dict = "(string \<times> json) list"

definition PERSISTED_CONFIG_PATH :: "host \<Rightarrow> string" where
  "PERSISTED_CONFIG_PATH w = h_tmp w @ ''/coda.config''"

definition PERSISTED_PRIVATE_KEY_PATH :: "host \<Rightarrow> string" where
  "PERSISTED_PRIVATE_KEY_PATH w = h_tmp w @ ''/coda-private-key''"

text \<open>\<^verbatim>\<open>0o600\<close> is 384; \<^verbatim>\<open>stat.S_IMODE\<close> keeps the low twelve bits.\<close>

definition bad_permissions :: "string \<Rightarrow> exn" where
  "bad_permissions path = Exn ConfigError (path @ '' must have permissions 0600'')"

definition read_secure_text :: "host \<Rightarrow> string \<Rightarrow> ('a, string) hprog" where
  "read_secure_text w path =
     bind_p (path_exists w path) (\<lambda>there.
       if \<not> there then ret []
       else then_p
         (if h_os_name w \<noteq> ''nt''
          then bind_p (stat_mode w path) (\<lambda>m. if m mod 4096 \<noteq> 384 then raise (bad_permissions path) else ret ())
          else ret ())
         (read_text w path))"

definition persisted_keys :: "string list" where
  "persisted_keys = [''qpu_id'', ''qpu_display_name'', ''native_gate_set'', ''num_qubits'', ''jwt_key_id'',
     ''redis_url'', ''webapp_url'', ''connect_path'', ''heartbeat_path'', ''webhook_path'', ''vpn_required'',
     ''vpn_check_interval_sec'', ''vpn_interface_hint'', ''vpn_probe_targets'', ''node_auto_vpn'',
     ''node_vpn_profile_path'', ''node_machine_fingerprint'']"

text \<open>\<^verbatim>\<open>bool(v)\<close> of a JSON value.\<close>

fun truthy :: "json \<Rightarrow> bool" where
  "truthy JNull = False"
| "truthy (JBool b) = b"
| "truthy (JInt i) = (i \<noteq> 0)"
| "truthy (JFloat q) = (q \<noteq> 0)"
| "truthy (JSpecial s) = True"
| "truthy (JStr s) = (s \<noteq> [])"
| "truthy (JArr vs) = (vs \<noteq> [])"
| "truthy (JObj kvs) = (kvs \<noteq> [])"

definition key_path :: "host \<Rightarrow> (json \<Rightarrow> string) \<Rightarrow> dict \<Rightarrow> string" where
  "key_path w str data =
     (case map_of data ''jwt_private_key_path'' of
        Some v \<Rightarrow> if truthy v then (case v of JStr s \<Rightarrow> s | _ \<Rightarrow> str v) else PERSISTED_PRIVATE_KEY_PATH w
      | None \<Rightarrow> PERSISTED_PRIVATE_KEY_PATH w)"

definition select_persisted :: "dict \<Rightarrow> string \<Rightarrow> dict" where
  "select_persisted data private_key =
     List.map_filter (\<lambda>k. map_option (Pair k) (map_of data k)) persisted_keys
     @ (if private_key \<noteq> [] then [(''jwt_private_key'', JStr private_key)] else [])"

definition read_persisted :: "host \<Rightarrow> (json \<Rightarrow> string) \<Rightarrow> string \<Rightarrow> ('a, dict) hprog" where
  "read_persisted w str raw_config =
     bind_p (from_sum (json_loads raw_config)) (\<lambda>data.
       case data of
         JObj d \<Rightarrow>
           bind_p (read_secure_text w (key_path w str d)) (\<lambda>private_key. ret (select_persisted d private_key))
       | _ \<Rightarrow> raise (Exn ConfigError (PERSISTED_CONFIG_PATH w @ '' must contain a JSON object'')))"

definition load_persisted_runtime_config :: "host \<Rightarrow> (json \<Rightarrow> string) \<Rightarrow> ('a, dict) hprog" where
  "load_persisted_runtime_config w str =
     bind_p (path_exists w (PERSISTED_CONFIG_PATH w)) (\<lambda>there.
       if \<not> there then ret []
       else bind_p (read_secure_text w (PERSISTED_CONFIG_PATH w)) (\<lambda>raw_config.
         if strip raw_config = [] then ret [] else read_persisted w str raw_config))"


section \<open>The executor factory of a device configuration\<close>

fun comment_start :: "bool \<Rightarrow> bool \<Rightarrow> string \<Rightarrow> nat option" where
  "comment_start in_single in_double [] = None"
| "comment_start in_single in_double (c # s) =
     (if c = CHR 0x27 \<and> \<not> in_double then map_option Suc (comment_start (\<not> in_single) in_double s)
      else if c = CHR 0x22 \<and> \<not> in_single then map_option Suc (comment_start in_single (\<not> in_double) s)
      else if c = CHR ''#'' \<and> \<not> in_single \<and> \<not> in_double then Some 0
      else map_option Suc (comment_start in_single in_double s))"

definition strip_inline_yaml_comment :: "string \<Rightarrow> string" where
  "strip_inline_yaml_comment v =
     (case comment_start False False v of Some idx \<Rightarrow> rstrip (take idx v) | None \<Rightarrow> strip v)"

text \<open>
  \<^verbatim>\<open>_EXECUTOR_FACTORY_RE.match(line)\<close> of a line without surrounding blanks: the text of the
  group, which has at least one character.
\<close>

definition match_executor_factory :: "string \<Rightarrow> string option" where
  "match_executor_factory line =
     (if \<not> startswith line ''executor_factory'' then None
      else case lstrip (drop (length ''executor_factory'') line) of
        [] \<Rightarrow> None
      | c # rest \<Rightarrow> if c = CHR '':'' \<and> lstrip rest \<noteq> [] then Some (rstrip (lstrip rest)) else None)"

definition unquote :: "string \<Rightarrow> string" where
  "unquote v =
     (if 2 \<le> length v \<and> hd v = last v \<and> hd v \<in> {CHR 0x27, CHR 0x22} then butlast (tl v) else v)"

fun factory_of_lines :: "string list \<Rightarrow> string" where
  "factory_of_lines [] = []"
| "factory_of_lines (raw_line # rest) =
     (if startswith raw_line '' '' \<or> startswith raw_line [CHR 0x09] then factory_of_lines rest
      else case match_executor_factory (strip raw_line) of
        None \<Rightarrow> factory_of_lines rest
      | Some g \<Rightarrow> strip (unquote (strip_inline_yaml_comment g)))"

definition load_executor_factory_from_device_config :: "host \<Rightarrow> string \<Rightarrow> ('a, string) hprog" where
  "load_executor_factory_from_device_config w path =
     try_except
       (bind_p (read_text w path) (\<lambda>t. ret (factory_of_lines (splitlines t))))
       (\<lambda>e. if catches [OSError] e then Some (ret []) else None)"


section \<open>Settings\<close>

record settings =
  qpu_id :: string
  qpu_display_name :: string
  native_gate_set :: string
  num_qubits :: int
  redis_url :: string
  jwt_private_key :: string
  jwt_key_id :: string
  webapp_url :: string
  webhook_path :: string
  connect_path :: string
  heartbeat_path :: string
  host_address :: string
  port :: int
  vpn_required :: bool
  vpn_check_interval_sec :: int
  vpn_probe_targets :: "string list"
  vpn_interface_hint :: "string option"
  allow_degraded_startup :: bool
  node_token :: string
  node_timeout_sec :: int
  node_machine_fingerprint :: string
  node_auto_vpn :: bool
  node_vpn_profile_path :: string
  node_connect_headers :: headers
  node_connect_retries :: int
  shutdown_drain_timeout_sec :: int
  heartbeat_interval_sec :: int
  executor_factory :: string
  device_config :: string
  advertised_provider :: string

definition default_settings :: "host \<Rightarrow> settings" where
  "default_settings w = \<lparr>
     qpu_id = [], qpu_display_name = [], native_gate_set = ''cz'', num_qubits = 5, redis_url = [],
     jwt_private_key = [], jwt_key_id = [],
     webapp_url = ''https://coda.conductorquantum.com'', webhook_path = ''/api/internal/qpu/webhook'',
     connect_path = ''/api/internal/qpu/connect'', heartbeat_path = ''/api/internal/qpu/heartbeat'',
     host_address = ''0.0.0.0'', port = 8080,
     vpn_required = True, vpn_check_interval_sec = 10, vpn_probe_targets = [], vpn_interface_hint = None,
     allow_degraded_startup = False, node_token = [], node_timeout_sec = 15, node_machine_fingerprint = [],
     node_auto_vpn = True, node_vpn_profile_path = h_tmp w @ ''/coda-node.ovpn'',
     node_connect_headers = [], node_connect_retries = 3, shutdown_drain_timeout_sec = 30,
     heartbeat_interval_sec = 30, executor_factory = [], device_config = [], advertised_provider = ''coda''\<rparr>"

text \<open>
  \<open>server/device_topology.py\<close>: the device object of an executor, of which two attributes are read
  (\<open>None\<close>: it does not have the attribute, or the attribute is \<^verbatim>\<open>None\<close>).
\<close>

record device_spec =
  directed_edges :: "int list list option"
  logical_edges :: "int list list option"

definition resolve_connectivity_from_device_spec :: "device_spec option \<Rightarrow> exn + int list list option" where
  "resolve_connectivity_from_device_spec device_spec =
     (case device_spec of
        None \<Rightarrow> Inr None
      | Some d \<Rightarrow>
          if directed_edges d \<notin> {None, Some []} then Inr (directed_edges d)
          else (case logical_edges d of
              Some es \<Rightarrow> Inr (Some es)
            | None \<Rightarrow> Inl (Exn AttributeError ''logical_edges'')))"

record library =
  l_build :: "dict \<Rightarrow> exn + settings"
  l_assign :: "host_history \<Rightarrow> files \<Rightarrow> settings \<Rightarrow> settings \<Rightarrow> exn + settings"
  l_str :: "json \<Rightarrow> string"
  l_exc_str :: "exn \<Rightarrow> string"
  l_device :: "host_history \<Rightarrow> settings \<Rightarrow> exn + device_spec option"

text \<open>
  \<open>l_exc_str e\<close> is \<^verbatim>\<open>str(e)\<close> of an HTTP client's exception; \<open>l_device\<close> loads the executor, which
  is code of the operator, and gives its \<^verbatim>\<open>device\<close> attribute.
\<close>

record node_state = host_state +
  node_settings :: settings

type_synonym 'r nprog = "(node_state, 'r) prog"

text \<open>\<^verbatim>\<open>settings.field = value\<close>.\<close>

definition assign :: "library \<Rightarrow> (settings \<Rightarrow> settings) \<Rightarrow> unit nprog" where
  "assign lib upd =
     (\<lambda>s. bind_p (from_sum (l_assign lib (trace s) (fs s) (node_settings s) (upd (node_settings s))))
            (\<lambda>st. modify_p (\<lambda>s. s\<lparr>node_settings := st\<rparr>)) s)"

definition is_blank :: "json \<Rightarrow> bool" where
  "is_blank v = (v \<in> {JStr [], JNull, JArr []})"

definition merge_key :: "dict \<Rightarrow> string \<times> json \<Rightarrow> dict" where
  "merge_key merged kv = (case kv of (k, v) \<Rightarrow>
     (case map_of merged k of
        None \<Rightarrow> dict_set merged k v
      | Some current \<Rightarrow> if is_blank current then dict_set merged k v else merged))"

definition has_token :: "dict \<Rightarrow> bool" where
  "has_token data = (case map_of data ''node_token'' of Some v \<Rightarrow> truthy v | None \<Rightarrow> False)"

definition merge_persisted_runtime_config :: "host \<Rightarrow> library \<Rightarrow> dict \<Rightarrow> ('a, dict) hprog" where
  "merge_persisted_runtime_config w lib data =
     (if has_token data then ret data
      else bind_p (load_persisted_runtime_config w (l_str lib)) (\<lambda>persisted.
        ret (foldl merge_key data persisted)))"

definition apply_default_device_config :: "host \<Rightarrow> library \<Rightarrow> unit nprog" where
  "apply_default_device_config w lib =
     bind_p (get_p node_settings) (\<lambda>st.
       if device_config st \<noteq> [] then ret ()
       else bind_p (path_exists w ''site/device.yaml'') (\<lambda>there.
         if there then assign lib (\<lambda>st. st\<lparr>device_config := ''site/device.yaml''\<rparr>) else ret ()))"

definition apply_device_config_executor_factory :: "host \<Rightarrow> library \<Rightarrow> unit nprog" where
  "apply_device_config_executor_factory w lib =
     bind_p (get_p node_settings) (\<lambda>st.
       if executor_factory st \<noteq> [] \<or> device_config st = [] then ret ()
       else bind_p (load_executor_factory_from_device_config w (device_config st)) (\<lambda>resolved.
         if resolved \<noteq> [] then assign lib (\<lambda>st. st\<lparr>executor_factory := resolved\<rparr>) else ret ()))"

definition check_jwt_or_node_token :: "settings \<Rightarrow> exn option" where
  "check_jwt_or_node_token st =
     (if node_token st \<noteq> [] then None
      else if jwt_private_key st = []
      then Some (Exn ValueError ''CODA_JWT_PRIVATE_KEY must be set (or provide CODA_NODE_TOKEN for auto-provisioning)'')
      else if jwt_key_id st = []
      then Some (Exn ValueError ''CODA_JWT_KEY_ID must be set (or provide CODA_NODE_TOKEN for auto-provisioning)'')
      else None)"

text \<open>\<^verbatim>\<open>Settings()\<close> on the raw data of the environment; a \<^verbatim>\<open>ValueError\<close> of a validator becomes pydantic's error.\<close>

definition make_settings :: "host \<Rightarrow> library \<Rightarrow> dict \<Rightarrow> unit nprog" where
  "make_settings w lib data =
     bind_p (merge_persisted_runtime_config w lib data) (\<lambda>merged.
     bind_p (from_sum (l_build lib merged)) (\<lambda>st.
     then_p (modify_p (\<lambda>s. s\<lparr>node_settings := st\<rparr>))
      (then_p (apply_default_device_config w lib)
       (then_p (apply_device_config_executor_factory w lib)
        (bind_p (get_p node_settings) (\<lambda>st.
          case check_jwt_or_node_token st of
            None \<Rightarrow> ret ()
          | Some e \<Rightarrow> raise (Exn ValidationError (exn_text e))))))))"

text \<open>
  The same, with the raw data taken from the variables of the process; how pydantic reads them
  is the parameter \<open>env_data\<close>.
\<close>

definition load_settings :: "(environment \<Rightarrow> dict) \<Rightarrow> host \<Rightarrow> library \<Rightarrow> unit nprog" where
  "load_settings env_data w lib = bind_p (get_p environ) (\<lambda>env. make_settings w lib (env_data env))"

definition callback_url :: "settings \<Rightarrow> string" where
  "callback_url st = webapp_url st @ webhook_path st"

definition connect_url :: "settings \<Rightarrow> string" where
  "connect_url st = webapp_url st @ connect_path st"

definition heartbeat_url :: "settings \<Rightarrow> string" where
  "heartbeat_url st = webapp_url st @ heartbeat_path st"

definition vpn_probe_urls :: "settings \<Rightarrow> string list" where
  "vpn_probe_urls st =
     (if vpn_probe_targets st \<noteq> [] then vpn_probe_targets st
      else if \<not> vpn_required st then []
      else [webapp_url st @ ''/api/internal/qpu/health''])"

end
