(* ===== verification/Service.thy ===== *)
theory Service
  imports Guard Config Webhook
begin

text \<open>
  \<open>vpn/service.py\<close>: validation and storage of the VPN profile, persistence of the runtime
  configuration, the OpenVPN daemon, the connect request with its retries, and the provisioning
  and reconnect sequences built from them. \<open>wait_for_tunnel\<close> polls with fuel, one unit per
  round.
\<close>

section \<open>VPN profiles\<close>

definition OPENVPN_PID_PATH :: "host \<Rightarrow> string" where
  "OPENVPN_PID_PATH w = h_tmp w @ ''/coda-node-openvpn.pid''"

definition OPENVPN_LOG_PATH :: "host \<Rightarrow> string" where
  "OPENVPN_LOG_PATH w = h_tmp w @ ''/coda-node-openvpn.log''"

definition TUNNEL_POLL_INTERVAL :: pyfloat where
  "TUNNEL_POLL_INTERVAL = 1"

definition TUNNEL_TIMEOUT :: pyfloat where
  "TUNNEL_TIMEOUT = 30"

definition machine_fingerprint :: "host \<Rightarrow> string" where
  "machine_fingerprint w = h_hostname w @ ''-'' @ show_nat (h_node_id w)"

definition DANGEROUS_OVPN_DIRECTIVES :: "string list" where
  "DANGEROUS_OVPN_DIRECTIVES = [''script-security'', ''up'', ''down'', ''client-connect'',
     ''client-disconnect'', ''learn-address'', ''auth-user-pass-verify'', ''tls-verify'', ''ipchange'',
     ''route-up'', ''route-pre-down'', ''plugin'']"

definition directive :: "string \<Rightarrow> string" where
  "directive line = (if strip line = [] then [] else lower (hd (words (strip line))))"

definition forbidden_directive :: "string \<Rightarrow> nat \<Rightarrow> exn" where
  "forbidden_directive d lineno =
     Exn NodeError (''Refusing OpenVPN profile: forbidden directive '' @ [CHR 0x27] @ d @ [CHR 0x27]
       @ '' on line '' @ show_nat lineno)"

fun validate_lines :: "nat \<Rightarrow> string list \<Rightarrow> exn option" where
  "validate_lines lineno [] = None"
| "validate_lines lineno (line # rest) =
     (if directive line \<in> set DANGEROUS_OVPN_DIRECTIVES
      then Some (forbidden_directive (directive line) lineno)
      else validate_lines (Suc lineno) rest)"

definition validate_vpn_profile :: "string \<Rightarrow> exn option" where
  "validate_vpn_profile profile = validate_lines 1 (splitlines profile)"

definition write_secure_text :: "host \<Rightarrow> string \<Rightarrow> string \<Rightarrow> ('a, unit) hprog" where
  "write_secure_text w path content =
     then_p (make_parent w path)
      (then_p (write_text w path content)
        (if h_os_name w \<noteq> ''nt'' then chmod w path 384 else ret ()))"

definition final_profile :: "string \<Rightarrow> string" where
  "final_profile profile =
     (if contains profile ''reneg-sec'' then profile
      else rstrip profile @ newline @ ''reneg-sec 0'' @ newline)"

definition write_vpn_profile :: "host \<Rightarrow> string \<Rightarrow> string \<Rightarrow> ('a, unit) hprog" where
  "write_vpn_profile w path profile =
     (case validate_vpn_profile profile of
        Some e \<Rightarrow> raise e
      | None \<Rightarrow>
          then_p (make_parent w path) (write_secure_text w path (final_profile profile)))"


section \<open>Persistence\<close>

definition persisted_dict :: "host \<Rightarrow> settings \<Rightarrow> dict" where
  "persisted_dict w st = [
     (''qpu_id'', JStr (qpu_id st)),
     (''qpu_display_name'', JStr (qpu_display_name st)),
     (''native_gate_set'', JStr (native_gate_set st)),
     (''num_qubits'', JInt (num_qubits st)),
     (''jwt_key_id'', JStr (jwt_key_id st)),
     (''jwt_private_key_path'', JStr (PERSISTED_PRIVATE_KEY_PATH w)),
     (''redis_url'', JStr (redis_url st)),
     (''webapp_url'', JStr (webapp_url st)),
     (''connect_path'', JStr (connect_path st)),
     (''heartbeat_path'', JStr (heartbeat_path st)),
     (''webhook_path'', JStr (webhook_path st)),
     (''vpn_required'', JBool (vpn_required st)),
     (''vpn_check_interval_sec'', JInt (vpn_check_interval_sec st)),
     (''vpn_interface_hint'', case vpn_interface_hint st of None \<Rightarrow> JNull | Some h \<Rightarrow> JStr h),
     (''vpn_probe_targets'', JArr (map JStr (vpn_probe_targets st))),
     (''node_auto_vpn'', JBool (node_auto_vpn st)),
     (''node_vpn_profile_path'', JStr (node_vpn_profile_path st)),
     (''node_machine_fingerprint'', JStr (node_machine_fingerprint st))]"

definition persist_runtime_config :: "host \<Rightarrow> settings \<Rightarrow> ('a, unit) hprog" where
  "persist_runtime_config w st =
     then_p (write_secure_text w (PERSISTED_PRIVATE_KEY_PATH w) (jwt_private_key st))
      (write_secure_text w (PERSISTED_CONFIG_PATH w) (the (json_dumps (JObj (persisted_dict w st))) @ newline))"


section \<open>The OpenVPN daemon\<close>

definition openvpn_binary :: "host \<Rightarrow> string option" where
  "openvpn_binary w =
     (case h_which w ''openvpn'' of
        Some p \<Rightarrow> if p = [] then h_which w ''openvpn.exe'' else Some p
      | None \<Rightarrow> h_which w ''openvpn.exe'')"

definition open_append :: "host \<Rightarrow> string \<Rightarrow> ('a, unit) hprog" where
  "open_append w p =
     then_p (fs_check w Fs_Open p)
      (modify_p (\<lambda>s. if fs s p = None
         then s\<lparr>fs := (fs s)(p \<mapsto> \<lparr>file_content = [], file_mode = h_new_mode w\<rparr>)\<rparr> else s))"

definition start_failed :: "string \<Rightarrow> exn" where
  "start_failed err =
     Exn NodeError (''Failed to start OpenVPN: '' @ (if strip err = [] then ''unknown openvpn error'' else strip err))"

definition start_openvpn :: "host \<Rightarrow> string \<Rightarrow> ('a, unit) hprog" where
  "start_openvpn w profile_path =
     (case openvpn_binary w of
        None \<Rightarrow> raise (Exn NodeError ''openvpn binary not found. Install OpenVPN or disable node auto VPN.'')
      | Some bin \<Rightarrow>
          if h_os_name w = ''nt'' then
            then_p (open_append w (OPENVPN_LOG_PATH w))
             (bind_p (popen w [bin, ''--config'', profile_path, ''--log'', OPENVPN_LOG_PATH w] None) (\<lambda>pid.
               write_text w (OPENVPN_PID_PATH w) (show_int pid @ newline)))
          else
            bind_p (run_process w [bin, ''--config'', profile_path, ''--daemon'', ''--writepid'',
                      OPENVPN_PID_PATH w, ''--log'', OPENVPN_LOG_PATH w]) (\<lambda>result.
              if returncode result \<noteq> 0 then raise (start_failed (stderr result)) else ret ()))"

definition read_openvpn_log_tail :: "host \<Rightarrow> nat \<Rightarrow> ('a, string) hprog" where
  "read_openvpn_log_tail w max_lines =
     try_except
       (bind_p (read_text w (OPENVPN_LOG_PATH w)) (\<lambda>t.
         let ls = splitlines t in ret (join newline (drop (length ls - max_lines) ls))))
       (\<lambda>e. if catches [OSError] e then Some (ret []) else None)"

definition parse_pid :: "string \<Rightarrow> exn + int" where
  "parse_pid t =
     (case read_int (strip t) of
        Some pid \<Rightarrow> Inr pid
      | None \<Rightarrow> Inl (Exn ValueError (''invalid literal for int() with base 10: '' @ py_repr (strip t))))"

definition signal_daemon :: "host \<Rightarrow> int \<Rightarrow> ('a, unit) hprog" where
  "signal_daemon w pid =
     (if h_os_name w = ''nt''
      then then_p (run_process w [''taskkill'', ''/PID'', show_int pid, ''/T'', ''/F'']) (ret ())
      else call (\<lambda>h. h_kill w h pid SIGTERM) (H_Kill pid SIGTERM))"

definition kill_openvpn_daemon :: "host \<Rightarrow> ('a, bool) hprog" where
  "kill_openvpn_daemon w =
     bind_p (path_exists w (OPENVPN_PID_PATH w)) (\<lambda>there.
       if \<not> there then ret False
       else try_except
         (bind_p (read_text w (OPENVPN_PID_PATH w)) (\<lambda>t.
          bind_p (from_sum (parse_pid t)) (\<lambda>pid.
           then_p (signal_daemon w pid)
            (then_p (unlink w (OPENVPN_PID_PATH w)) (ret True)))))
         (\<lambda>e. if catches [PermissionError, ProcessLookupError, ValueError, TimeoutExpired] e
              then Some (then_p (unlink w (OPENVPN_PID_PATH w)) (ret False)) else None))"

definition no_tunnel :: "string \<Rightarrow> exn" where
  "no_tunnel detail =
     Exn NodeError (''OpenVPN daemon started but no VPN tunnel interface appeared within 30.0s. ''
       @ ''Check firewall rules and VPN endpoint connectivity.''
       @ (if detail = [] then [] else newline @ ''OpenVPN log tail:'' @ newline @ detail))"

fun poll_tunnel :: "nat \<Rightarrow> host \<Rightarrow> string option \<Rightarrow> rat \<Rightarrow> ('a, string) hprog" where
  "poll_tunnel 0 w hint deadline = hang"
| "poll_tunnel (Suc n) w hint deadline =
     bind_p (monotonic w) (\<lambda>now.
       if now < deadline then
         bind_p (detect_tun_interface w hint) (\<lambda>iface.
           case iface of
             Some i \<Rightarrow> ret i
           | None \<Rightarrow> then_p (host_sleep w TUNNEL_POLL_INTERVAL) (poll_tunnel n w hint deadline))
       else
         bind_p (read_openvpn_log_tail w 20) (\<lambda>detail.
           then_p (kill_openvpn_daemon w) (raise (no_tunnel detail))))"

definition wait_for_tunnel :: "nat \<Rightarrow> host \<Rightarrow> string option \<Rightarrow> ('a, string) hprog" where
  "wait_for_tunnel n w hint =
     bind_p (monotonic w) (\<lambda>now. poll_tunnel n w hint (now + TUNNEL_TIMEOUT))"


section \<open>Reading the bundle\<close>

definition missing_field :: "string \<Rightarrow> exn" where
  "missing_field key = Exn NodeError (''Node response missing valid '' @ [CHR 0x27] @ key @ [CHR 0x27])"

definition text_value :: "json option \<Rightarrow> string option" where
  "text_value v = (case v of Some (JStr s) \<Rightarrow> if s = [] then None else Some s | _ \<Rightarrow> None)"

definition as_str :: "dict \<Rightarrow> string \<Rightarrow> exn + string" where
  "as_str data key =
     (case text_value (map_of data key) of Some s \<Rightarrow> Inr s | None \<Rightarrow> Inl (missing_field key))"

text \<open>In Python a \<^verbatim>\<open>bool\<close> is an \<^verbatim>\<open>int\<close>.\<close>

definition int_value :: "json \<Rightarrow> int option" where
  "int_value v = (case v of JInt i \<Rightarrow> Some i | JBool b \<Rightarrow> Some (if b then 1 else 0) | _ \<Rightarrow> None)"

definition as_int :: "dict \<Rightarrow> string \<Rightarrow> int \<Rightarrow> exn + int" where
  "as_int data key dflt =
     (case map_of data key of
        None \<Rightarrow> Inr dflt
      | Some v \<Rightarrow>
          (case int_value v of
             Some i \<Rightarrow> Inr i
           | None \<Rightarrow> Inl (Exn NodeError (''Node response has invalid '' @ [CHR 0x27] @ key @ [CHR 0x27]))))"


section \<open>The connect request\<close>

definition resolve_machine_fingerprint :: "host \<Rightarrow> library \<Rightarrow> string nprog" where
  "resolve_machine_fingerprint w lib =
     bind_p (get_p node_settings) (\<lambda>st.
       let fingerprint = (if node_machine_fingerprint st \<noteq> [] then node_machine_fingerprint st
                          else machine_fingerprint w)
       in then_p (assign lib (\<lambda>st. st\<lparr>node_machine_fingerprint := fingerprint\<rparr>)) (ret fingerprint))"

text \<open>One POST with \<^verbatim>\<open>raise_for_status()\<close> and the JSON of the body.\<close>

definition connect_once :: "host \<Rightarrow> string \<Rightarrow> json \<Rightarrow> json nprog" where
  "connect_once w auth_header payload =
     bind_p (get_p node_settings) (\<lambda>st.
       let hs = dict_merge [(''Authorization'', auth_header)] (node_connect_headers st)
       in bind_p (call (\<lambda>h. h_post w h (connect_url st) hs payload) (H_Post (connect_url st) hs payload))
            (\<lambda>(code, text).
              if is_success code then from_sum (json_loads text) else raise (HttpStatus code text)))"

definition rejected :: "nat \<Rightarrow> string \<Rightarrow> exn" where
  "rejected code text =
     Exn NodeError (''Node request failed ('' @ show_nat code @ ''): '' @ str_take 400 text)"

definition connect_handler :: "exn \<Rightarrow> (exn + json) nprog option" where
  "connect_handler e =
     (case e of
        HttpStatus code text \<Rightarrow> Some (if code < 500 then raise (rejected code text) else ret (Inl e))
      | _ \<Rightarrow> if catches [TransportError] e then Some (ret (Inl e)) else None)"

definition connect_attempt :: "host \<Rightarrow> string \<Rightarrow> json \<Rightarrow> nat \<Rightarrow> nat \<Rightarrow> (exn + json) nprog" where
  "connect_attempt w auth_header payload attempt left =
     bind_p (try_except (bind_p (connect_once w auth_header payload) (\<lambda>j. ret (Inr j))) connect_handler)
      (\<lambda>r. case r of
          Inr j \<Rightarrow> ret (Inr j)
        | Inl e \<Rightarrow> if 0 < left then then_p (host_sleep w (1 * 2 ^ (attempt - 1))) (ret (Inl e)) else ret (Inl e))"

definition connect_give_up :: "library \<Rightarrow> int \<Rightarrow> exn option \<Rightarrow> json nprog" where
  "connect_give_up lib max_retries last_exc =
     raise (Exn NodeError (''Node connect failed after '' @ show_int max_retries @ '' attempts: ''
       @ (case last_exc of None \<Rightarrow> ''None'' | Some e \<Rightarrow> l_exc_str lib e)))"

fun connect_loop ::
    "host \<Rightarrow> library \<Rightarrow> string \<Rightarrow> json \<Rightarrow> int \<Rightarrow> nat \<Rightarrow> nat \<Rightarrow> exn option \<Rightarrow> json nprog" where
  "connect_loop w lib auth_header payload max_retries attempt 0 last_exc = connect_give_up lib max_retries last_exc"
| "connect_loop w lib auth_header payload max_retries attempt (Suc left) last_exc =
     bind_p (connect_attempt w auth_header payload attempt left)
       (\<lambda>r. case r of
            Inr j \<Rightarrow> ret j
          | Inl e \<Rightarrow> connect_loop w lib auth_header payload max_retries (Suc attempt) left (Some e))"

definition post_connect :: "host \<Rightarrow> library \<Rightarrow> string \<Rightarrow> json \<Rightarrow> int \<Rightarrow> json nprog" where
  "post_connect w lib auth_header payload max_retries =
     connect_loop w lib auth_header payload max_retries 1 (nat max_retries) None"

definition connectivity_payload_for_connect :: "library \<Rightarrow> int list list option nprog" where
  "connectivity_payload_for_connect lib =
     bind_p (get_p (\<lambda>s. l_device lib (trace s) (node_settings s))) (\<lambda>r.
       try_except
         (bind_p (from_sum r) (\<lambda>device_spec. from_sum (resolve_connectivity_from_device_spec device_spec)))
         (\<lambda>e. if is_exception e then Some (ret None) else None))"

definition connect_payload :: "string \<Rightarrow> int list list option \<Rightarrow> json" where
  "connect_payload fingerprint connectivity =
     JObj ((''machine_fingerprint'', JStr fingerprint)
       # (case connectivity of
            None \<Rightarrow> []
          | Some es \<Rightarrow> [(''connectivity'', JArr (map (\<lambda>e. JArr (map JInt e)) es))]))"

definition fetch_node_bundle :: "host \<Rightarrow> library \<Rightarrow> int list list option \<Rightarrow> json nprog" where
  "fetch_node_bundle w lib connectivity =
     bind_p (get_p node_settings) (\<lambda>st.
       if node_token st = [] then raise (Exn NodeError ''node token is empty'')
       else bind_p (resolve_machine_fingerprint w lib) (\<lambda>fingerprint.
         bind_p (get_p node_settings) (\<lambda>st.
           post_connect w lib (''Bearer '' @ node_token st) (connect_payload fingerprint connectivity)
             (node_connect_retries st))))"

definition sign_connect :: "host \<Rightarrow> settings \<Rightarrow> string nprog" where
  "sign_connect w st =
     bind_p (get_p (\<lambda>s. h_clock w (trace s))) (\<lambda>now.
       call (\<lambda>h. sign_token (h_jwt_encode w h) now (qpu_id st) (jwt_private_key st)
                   DEFAULT_ISSUER DEFAULT_TTL (Some (jwt_key_id st)))
            (H_Sign (token_claims now (qpu_id st) DEFAULT_ISSUER DEFAULT_TTL)
                    (token_kid (qpu_id st) (Some (jwt_key_id st)))))"

definition fetch_reconnect_bundle :: "host \<Rightarrow> library \<Rightarrow> int list list option \<Rightarrow> json nprog" where
  "fetch_reconnect_bundle w lib connectivity =
     bind_p (resolve_machine_fingerprint w lib) (\<lambda>fingerprint.
     bind_p (get_p node_settings) (\<lambda>st.
     bind_p (sign_connect w st) (\<lambda>token.
       post_connect w lib (''Bearer '' @ token) (connect_payload fingerprint connectivity)
         (node_connect_retries st))))"


section \<open>Applying the bundle\<close>

definition bundle_dict :: "json \<Rightarrow> exn + dict" where
  "bundle_dict b = (case b of JObj d \<Rightarrow> Inr d | _ \<Rightarrow> Inl (Exn AttributeError ''object has no attribute get''))"

text \<open>
  \<^verbatim>\<open>bundle.get("qpu_display_name") or bundle.get("qpu_label") or ""\<close>; a value that is not a
  string is refused by the validation of the field.
\<close>

definition display_name :: "dict \<Rightarrow> exn + string" where
  "display_name d =
     (let pick = (\<lambda>k. case map_of d k of Some v \<Rightarrow> if truthy v then Some v else None | None \<Rightarrow> None)
      in case (case pick ''qpu_display_name'' of Some v \<Rightarrow> Some v | None \<Rightarrow> pick ''qpu_label'') of
           None \<Rightarrow> Inr []
         | Some (JStr s) \<Rightarrow> Inr s
         | Some _ \<Rightarrow> Inl (Exn ValidationError ''qpu_display_name''))"

definition apply_identity :: "library \<Rightarrow> dict \<Rightarrow> unit nprog" where
  "apply_identity lib d =
     bind_p (from_sum (as_str d ''qpu_id'')) (\<lambda>v.
     then_p (assign lib (\<lambda>st. st\<lparr>qpu_id := v\<rparr>))
     (bind_p (from_sum (display_name d)) (\<lambda>v.
     then_p (assign lib (\<lambda>st. st\<lparr>qpu_display_name := v\<rparr>))
     (bind_p (from_sum (as_str d ''native_gate_set'')) (\<lambda>v.
     then_p (assign lib (\<lambda>st. st\<lparr>native_gate_set := v\<rparr>))
     (bind_p (get_p node_settings) (\<lambda>st.
     bind_p (from_sum (as_int d ''num_qubits'' (num_qubits st))) (\<lambda>v.
       assign lib (\<lambda>st. st\<lparr>num_qubits := v\<rparr>)))))))))"

text \<open>A credential the bundle may leave out if the settings already have it.\<close>

definition apply_credential ::
    "library \<Rightarrow> dict \<Rightarrow> string \<Rightarrow> (settings \<Rightarrow> string) \<Rightarrow> (string \<Rightarrow> settings \<Rightarrow> settings) \<Rightarrow> unit nprog" where
  "apply_credential lib d key current upd =
     (case text_value (map_of d key) of
        Some v \<Rightarrow> assign lib (upd v)
      | None \<Rightarrow> bind_p (get_p node_settings) (\<lambda>st.
          if current st = [] then raise (missing_field key) else ret ()))"

text \<open>A path the bundle may leave out.\<close>

definition apply_path ::
    "library \<Rightarrow> dict \<Rightarrow> string \<Rightarrow> (string \<Rightarrow> settings \<Rightarrow> settings) \<Rightarrow> unit nprog" where
  "apply_path lib d key upd =
     (case text_value (map_of d key) of Some v \<Rightarrow> assign lib (upd v) | None \<Rightarrow> ret ())"

definition apply_endpoints :: "library \<Rightarrow> dict \<Rightarrow> unit nprog" where
  "apply_endpoints lib d =
     bind_p (from_sum (as_str d ''redis_url'')) (\<lambda>v.
     then_p (assign lib (\<lambda>st. st\<lparr>redis_url := v\<rparr>))
     (bind_p (from_sum (as_str d (if map_of d ''webapp_url'' \<noteq> None then ''webapp_url'' else ''cloud_base_url''))) (\<lambda>v.
     then_p (assign lib (\<lambda>st. st\<lparr>webapp_url := v\<rparr>))
      (then_p (apply_path lib d ''connect_path'' (\<lambda>v st. st\<lparr>connect_path := v\<rparr>))
       (then_p (apply_path lib d ''heartbeat_path'' (\<lambda>v st. st\<lparr>heartbeat_path := v\<rparr>))
         (apply_path lib d ''webhook_path'' (\<lambda>v st. st\<lparr>webhook_path := v\<rparr>)))))))"

definition string_list :: "json \<Rightarrow> string list option" where
  "string_list v =
     (case v of
        JArr vs \<Rightarrow> if list_all (\<lambda>x. case x of JStr _ \<Rightarrow> True | _ \<Rightarrow> False) vs then Some (map (\<lambda>x. case x of JStr s \<Rightarrow> s | _ \<Rightarrow> []) vs) else None
      | _ \<Rightarrow> None)"

definition apply_vpn_settings :: "library \<Rightarrow> dict \<Rightarrow> unit nprog" where
  "apply_vpn_settings lib vpn =
     then_p (case map_of vpn ''required'' of
               Some (JBool b) \<Rightarrow> assign lib (\<lambda>st. st\<lparr>vpn_required := b\<rparr>)
             | _ \<Rightarrow> ret ())
     (then_p (case map_of vpn ''interface_hint'' of
               None \<Rightarrow> assign lib (\<lambda>st. st\<lparr>vpn_interface_hint := None\<rparr>)
             | Some JNull \<Rightarrow> assign lib (\<lambda>st. st\<lparr>vpn_interface_hint := None\<rparr>)
             | Some (JStr h) \<Rightarrow> assign lib (\<lambda>st. st\<lparr>vpn_interface_hint := Some h\<rparr>)
             | Some _ \<Rightarrow> ret ())
     (then_p (case Option.bind (map_of vpn ''check_interval_sec'') int_value of
               Some i \<Rightarrow> assign lib (\<lambda>st. st\<lparr>vpn_check_interval_sec := i\<rparr>)
             | None \<Rightarrow> ret ())
             (case Option.bind (map_of vpn ''probe_targets'') string_list of
               Some ts \<Rightarrow> if ts \<noteq> [] then assign lib (\<lambda>st. st\<lparr>vpn_probe_targets := ts\<rparr>) else ret ()
             | None \<Rightarrow> ret ())))"

definition no_profile :: exn where
  "no_profile = Exn NodeError (''VPN is required but node response did not include a VPN profile. ''
     @ ''Check VPN infrastructure status in the coda admin panel.'')"

definition start_tunnel :: "nat \<Rightarrow> host \<Rightarrow> settings \<Rightarrow> unit nprog" where
  "start_tunnel n w st =
     bind_p (detect_tun_interface w (vpn_interface_hint st)) (\<lambda>iface.
       if iface = None
       then then_p (start_openvpn w (node_vpn_profile_path st))
             (then_p (wait_for_tunnel n w (vpn_interface_hint st)) (ret ()))
       else ret ())"

definition apply_vpn :: "nat \<Rightarrow> host \<Rightarrow> library \<Rightarrow> dict \<Rightarrow> unit nprog" where
  "apply_vpn n w lib vpn =
     then_p (apply_vpn_settings lib vpn)
      (bind_p (get_p node_settings) (\<lambda>st.
        case text_value (map_of vpn ''client_profile_ovpn'') of
          None \<Rightarrow> if vpn_required st then raise no_profile else ret ()
        | Some profile \<Rightarrow>
            if node_auto_vpn st
            then then_p (write_vpn_profile w (node_vpn_profile_path st) profile) (start_tunnel n w st)
            else ret ()))"

definition apply_node_bundle :: "nat \<Rightarrow> host \<Rightarrow> library \<Rightarrow> json \<Rightarrow> unit nprog" where
  "apply_node_bundle n w lib bundle =
     bind_p (from_sum (bundle_dict bundle)) (\<lambda>d.
     then_p (apply_identity lib d)
     (then_p (apply_credential lib d ''jwt_private_key'' jwt_private_key (\<lambda>v st. st\<lparr>jwt_private_key := v\<rparr>))
     (then_p (apply_credential lib d ''jwt_key_id'' jwt_key_id (\<lambda>v st. st\<lparr>jwt_key_id := v\<rparr>))
     (then_p (apply_endpoints lib d)
       (case map_of d ''vpn'' of
          Some (JObj vpn) \<Rightarrow> apply_vpn n w lib vpn
        | _ \<Rightarrow> ret ())))))"


section \<open>Provisioning and reconnecting\<close>

definition ensure_persisted_vpn :: "nat \<Rightarrow> host \<Rightarrow> unit nprog" where
  "ensure_persisted_vpn n w =
     bind_p (path_exists w (PERSISTED_CONFIG_PATH w)) (\<lambda>there.
     bind_p (get_p node_settings) (\<lambda>st.
       if \<not> there \<or> \<not> node_auto_vpn st then ret ()
       else bind_p (path_exists w (node_vpn_profile_path st)) (\<lambda>profile.
         if \<not> profile
         then (if vpn_required st
               then raise (Exn NodeError ''Persisted VPN profile not found. Re-run node provisioning with a new token.'')
               else ret ())
         else start_tunnel n w st)))"

definition fetch_bundle :: "nat \<Rightarrow> host \<Rightarrow> library \<Rightarrow> int list list option \<Rightarrow> json nprog" where
  "fetch_bundle n w lib connectivity =
     bind_p (get_p node_settings) (\<lambda>st.
       if node_token st \<noteq> [] then fetch_node_bundle w lib connectivity
       else then_p (ensure_persisted_vpn n w) (fetch_reconnect_bundle w lib connectivity))"

definition install_bundle :: "nat \<Rightarrow> host \<Rightarrow> library \<Rightarrow> json \<Rightarrow> unit nprog" where
  "install_bundle n w lib bundle =
     then_p (apply_node_bundle n w lib bundle)
      (bind_p (get_p node_settings) (\<lambda>st. persist_runtime_config w st))"

definition install_failed :: "host \<Rightarrow> exn \<Rightarrow> unit nprog option" where
  "install_failed w e =
     (if is_exception e
      then Some (bind_p (get_p node_settings) (\<lambda>st.
        then_p (if node_token st \<noteq> [] then then_p (kill_openvpn_daemon w) (ret ()) else ret ()) (raise e)))
      else None)"

definition connect_settings :: "nat \<Rightarrow> host \<Rightarrow> library \<Rightarrow> unit nprog" where
  "connect_settings n w lib =
     then_p (resolve_machine_fingerprint w lib)
      (bind_p (connectivity_payload_for_connect lib) (\<lambda>connectivity.
       bind_p (fetch_bundle n w lib connectivity) (\<lambda>bundle.
         try_except (install_bundle n w lib bundle) (install_failed w))))"

end
