(* ===== verification/Service_Props.thy ===== *)
theory Service_Props
  imports Service
begin

text \<open>
  The properties of the VPN service: what is written of a profile, what a restart reads back of
  the persisted configuration, the retries of the connect request, the bound on the wait for
  the tunnel, and what an applied bundle leaves in the settings.
\<close>

section \<open>Calls\<close>

text \<open>Loading the settings only reads files, and an assignment calls nothing.\<close>

lemma settings_emits [simp]: "node_settings (emits evs s) = node_settings s"
  by (simp add: emits_def)

lemma emits_all_json [emits_intros]:
  assumes "emits_all P n" "\<And>x. emits_all P (b x)" "\<And>x. emits_all P (i x)" "\<And>x. emits_all P (f x)"
    "\<And>x. emits_all P (q x)" "\<And>x. emits_all P (t x)" "\<And>x. emits_all P (a x)" "\<And>x. emits_all P (d x)"
  shows "emits_all P (case v of JNull \<Rightarrow> n | JBool x \<Rightarrow> b x | JInt x \<Rightarrow> i x | JFloat x \<Rightarrow> f x
    | JSpecial x \<Rightarrow> q x | JStr x \<Rightarrow> t x | JArr x \<Rightarrow> a x | JObj x \<Rightarrow> d x)"
  using assms by (cases v) auto

lemma assign_emits [emits_intros]: "emits_all P (assign lib upd)"
  by (auto simp: emits_all_def assign_def wp_def bind_p_def from_sum_def modify_p_def ret_def raise_def
      split: sum.split)

lemma load_settings_emits:
  assumes "\<And>op p r. P (H_File op p r)"
  shows "emits_all P (load_settings env_data w lib)"
proof -
  have secure: "emits_all P (read_secure_text w p)" for p
    unfolding read_secure_text_def using assms by (auto intro!: emits_intros)
  have "emits_all P (load_persisted_runtime_config w (l_str lib))"
    unfolding load_persisted_runtime_config_def read_persisted_def
    by (intro emits_intros secure) (auto intro: assms)
  with assms show ?thesis
    unfolding load_settings_def make_settings_def merge_persisted_runtime_config_def
      apply_default_device_config_def apply_device_config_executor_factory_def
      load_executor_factory_from_device_config_def
    by (auto intro!: emits_intros split: if_splits)
qed


section \<open>Profiles\<close>

definition blank :: "string \<Rightarrow> bool" where
  "blank t = list_all is_space t"

lemma strip_append_blank: "blank t \<Longrightarrow> strip (l @ t) = strip l"
proof -
  assume "blank t"
  then have "dropWhile is_space (rev t @ rev l) = dropWhile is_space (rev l)"
    by (intro dropWhile_append2) (simp add: blank_def list_all_iff)
  then show ?thesis by (simp add: strip_def rstrip_def)
qed

lemma directive_append_blank: "blank t \<Longrightarrow> directive (l @ t) = directive l"
  by (simp add: directive_def strip_append_blank)

lemma splitlines_acc_blank:
  "acc \<noteq> [] \<Longrightarrow> blank t \<Longrightarrow> \<exists>l \<in> set (splitlines_acc cr acc t). \<exists>u. blank u \<and> l = rev acc @ u"
proof (induction t arbitrary: cr acc)
  case Nil
  then show ?case by (simp add: blank_def)
next
  case (Cons c t)
  then have t: "blank t" "is_space c" by (simp_all add: blank_def)
  consider "cr \<and> byte c = 10" | "\<not> (cr \<and> byte c = 10)" "is_line_end c"
    | "\<not> (cr \<and> byte c = 10)" "\<not> is_line_end c" by blast
  then show ?case
  proof cases
    case 1
    then show ?thesis using Cons.IH [of acc False] Cons.prems t by simp
  next
    case 2
    then show ?thesis by (auto simp: blank_def intro: exI [of _ "[]"])
  next
    case 3
    then obtain l u where "l \<in> set (splitlines_acc False (c # acc) t)" "blank u" "l = rev acc @ c # u"
      using Cons.IH [of "c # acc" False] t by auto
    then show ?thesis using 3 t by (auto simp: blank_def intro!: bexI [of _ l] exI [of _ "c # u"])
  qed
qed

text \<open>A line of a text reappears, up to trailing blanks, when blanks are added to the text.\<close>

lemma splitlines_acc_append_blank:
  "blank t \<Longrightarrow> l \<in> set (splitlines_acc cr acc p) \<Longrightarrow>
   \<exists>l' \<in> set (splitlines_acc cr acc (p @ t)). directive l' = directive l"
proof (induction p arbitrary: cr acc)
  case Nil
  then have "acc \<noteq> []" "l = rev acc" by (auto split: if_splits)
  then show ?case using splitlines_acc_blank [OF _ Nil.prems(1), of acc cr] directive_append_blank by fastforce
next
  case (Cons c p)
  then show ?case by (auto split: if_splits)
qed

lemma rstrip_decompose: "\<exists>t. blank t \<and> p = rstrip p @ t"
proof -
  have "rev (dropWhile is_space (rev p)) @ rev (takeWhile is_space (rev p)) = p"
    by (metis rev_append rev_rev_ident takeWhile_dropWhile_id)
  moreover have "blank (rev (takeWhile is_space (rev p)))"
    by (auto simp: blank_def list_all_iff dest: set_takeWhileD)
  ultimately show ?thesis unfolding rstrip_def by metis
qed

lemma rstrip_lines: "l \<in> set (splitlines (rstrip p)) \<Longrightarrow> \<exists>l' \<in> set (splitlines p). directive l' = directive l"
  using rstrip_decompose [of p] splitlines_acc_append_blank unfolding splitlines_def by metis

lemma splitlines_acc_last_line:
  "byte c = 10 \<Longrightarrow> (cr \<longrightarrow> acc = []) \<Longrightarrow> l \<in> set (splitlines_acc cr acc (p @ c # q)) \<Longrightarrow>
   l \<in> set (splitlines_acc cr acc p) \<or> l = [] \<or> l \<in> set (splitlines q)"
proof (induction p arbitrary: cr acc)
  case Nil
  then show ?case by (auto simp: splitlines_def is_line_end_def in_range_def split: if_splits)
next
  case (Cons d p)
  then show ?case by (auto split: if_splits)
qed

lemma final_profile_lines:
  assumes "l \<in> set (splitlines (final_profile p))"
  shows "(\<exists>l' \<in> set (splitlines p). directive l' = directive l) \<or> directive l \<in> {[], ''reneg-sec''}"
proof (cases "contains p ''reneg-sec''")
  case True
  then show ?thesis using assms by (auto simp: final_profile_def)
next
  case False
  have lf: "byte (CHR 0x0A) = 10" "newline = [CHR 0x0A]" by code_simp+
  have "l \<in> set (splitlines (rstrip p @ CHR 0x0A # (''reneg-sec 0'' @ newline)))"
    using assms False by (simp add: final_profile_def lf(2))
  then have "l \<in> set (splitlines (rstrip p)) \<or> l = [] \<or> l \<in> set (splitlines (''reneg-sec 0'' @ newline))"
    using splitlines_acc_last_line [OF lf(1), where cr = False and acc = "[]"] unfolding splitlines_def by blast
  moreover have "splitlines (''reneg-sec 0'' @ newline) = [''reneg-sec 0'']"
    "directive ''reneg-sec 0'' = ''reneg-sec''" "directive [] = []" by code_simp+
  ultimately show ?thesis using rstrip_lines by auto
qed

lemma validate_lines_None:
  "validate_lines n ls = None \<longleftrightarrow> (\<forall>l \<in> set ls. directive l \<notin> set DANGEROUS_OVPN_DIRECTIVES)"
  by (induction ls arbitrary: n) auto

lemma harmless_directives: "[] \<notin> set DANGEROUS_OVPN_DIRECTIVES" "''reneg-sec'' \<notin> set DANGEROUS_OVPN_DIRECTIVES"
  by code_simp+

text \<open>What a completed secure write leaves.\<close>

lemma write_secure_text_run:
  "wp (write_secure_text w p t) (\<lambda>r s'. r \<noteq> Hang \<and> (\<forall>q. q \<noteq> p \<longrightarrow> fs s' q = fs s q) \<and>
     (r = Ret () \<longrightarrow> (\<exists>f evs. s' = emits evs (s\<lparr>fs := (fs s)(p \<mapsto> f)\<rparr>) \<and> file_content f = text_newlines w t
        \<and> (h_os_name w \<noteq> ''nt'' \<longrightarrow> file_mode f = 384)))) s"
  by (auto simp: write_secure_text_def make_parent_def write_text_def chmod_def wp_rules split: option.splits)

text \<open>
  C20: a VPN profile that has been written was validated: the file holds the profile, completed by a
  renegotiation directive where it had none, no line of it starts with a directive that runs a
  command, on POSIX its permissions are 0600, and no other file has changed.
\<close>

theorem written_profile_is_safe:
  assumes "write_vpn_profile w path profile s = (Ret (), s')"
  shows "\<exists>f. fs s' = (fs s)(path \<mapsto> f) \<and> file_content f = text_newlines w (final_profile profile)
    \<and> (\<forall>l \<in> set (splitlines (final_profile profile)). directive l \<notin> set DANGEROUS_OVPN_DIRECTIVES)
    \<and> (h_os_name w \<noteq> ''nt'' \<longrightarrow> file_mode f = 384)"
proof -
  have ok: "validate_vpn_profile profile = None"
    using assms by (auto simp: write_vpn_profile_def raise_def split: option.splits)
  have lines: "\<forall>l \<in> set (splitlines (final_profile profile)). directive l \<notin> set DANGEROUS_OVPN_DIRECTIVES"
    using ok final_profile_lines harmless_directives
    by (fastforce simp: validate_vpn_profile_def validate_lines_None)
  have "wp (write_vpn_profile w path profile) (\<lambda>r s'. r = Ret () \<longrightarrow>
      (\<exists>f. fs s' = (fs s)(path \<mapsto> f) \<and> file_content f = text_newlines w (final_profile profile)
        \<and> (h_os_name w \<noteq> ''nt'' \<longrightarrow> file_mode f = 384))) s"
    using ok by (auto simp: write_vpn_profile_def make_parent_def wp_rules split: option.splits
        intro!: wp_mono [OF write_secure_text_run])
  then show ?thesis using assms lines by (auto simp: wp_def)
qed

definition empty_host_state :: host_state where
  "empty_host_state = \<lparr>trace = [], fs = (\<lambda>_. None), environ = []\<rparr>"

definition demo_profile :: string where
  "demo_profile = ''client'' @ newline @ ''remote vpn.example 1194'' @ newline"

theorem written_profile_is_safe_witness:
  "\<exists>f. fs (snd (write_vpn_profile quiet_host ''/tmp/p.ovpn'' demo_profile empty_host_state)) ''/tmp/p.ovpn'' = Some f
     \<and> file_mode f = 384"
proof -
  have "fst (write_vpn_profile quiet_host ''/tmp/p.ovpn'' demo_profile empty_host_state) = Ret ()"
    "h_os_name quiet_host \<noteq> ''nt''" by code_simp+
  then show ?thesis
    using written_profile_is_safe [of quiet_host "''/tmp/p.ovpn''" demo_profile empty_host_state
      "snd (write_vpn_profile quiet_host ''/tmp/p.ovpn'' demo_profile empty_host_state)"]
    by (auto simp: prod_eq_iff)
qed

text \<open>
  The scan compares whole first words: OpenVPN also accepts a directive with a leading \<open>--\<close>, which
  is let through.
\<close>

lemma dashed_directive_accepted: "validate_vpn_profile ''--up /bin/sh'' = None"
  by code_simp


section \<open>Persistence\<close>

text \<open>
  Text that survives being written and read: UTF-8 without a CR. Settings whose text fields are
  ASCII can be persisted.
\<close>

definition plain_settings :: "host \<Rightarrow> settings \<Rightarrow> bool" where
  "plain_settings w st = (plain_json (JObj (persisted_dict w st)) \<and> jwt_private_key st \<noteq> []
     \<and> ascii (jwt_private_key st) \<and> (\<forall>c \<in> set (jwt_private_key st). byte c \<noteq> 13))"

definition stored :: "host \<Rightarrow> string \<Rightarrow> string \<Rightarrow> files \<Rightarrow> bool" where
  "stored w p t m = (\<exists>f. m p = Some f \<and> file_content f = text_newlines w t
     \<and> (h_os_name w \<noteq> ''nt'' \<longrightarrow> file_mode f = 384))"

definition readable :: "host \<Rightarrow> bool" where
  "readable w = (\<forall>h op p. h_fs_error w h op p = None)"

lemma text_newlines_ascii: "ascii t \<Longrightarrow> utf8_valid (text_newlines w t)"
  by (rule ascii_utf8) (auto simp: ascii_def text_newlines_def list_all_iff byte_def split: if_splits)

lemma read_secure_text_stored:
  assumes "readable w" and "stored w p t (fs s)" and "ascii t" and "\<forall>c \<in> set t. byte c \<noteq> 13"
  shows "wp (read_secure_text w p) (\<lambda>r s'. r = Ret t \<and> fs s' = fs s) s"
proof -
  have "bytes_decode (text_newlines w t) = Inr (text_newlines w t)"
    using text_newlines_ascii [OF assms(3)] by (simp add: bytes_decode_def)
  moreover have "universal_newlines (text_newlines w t) = t" by (rule read_written [OF assms(4)])
  ultimately show ?thesis using assms(1,2)
    by (auto simp: read_secure_text_def path_exists_def stat_mode_def read_text_def readable_def stored_def
        wp_rules split: option.splits)
qed

definition config_text :: "host \<Rightarrow> settings \<Rightarrow> string" where
  "config_text w st = the (json_dumps (JObj (persisted_dict w st))) @ newline"

lemma persist_stores:
  assumes "PERSISTED_PRIVATE_KEY_PATH w \<noteq> PERSISTED_CONFIG_PATH w"
  shows "wp (persist_runtime_config w st) (\<lambda>r s'. r = Ret () \<longrightarrow>
      stored w (PERSISTED_PRIVATE_KEY_PATH w) (jwt_private_key st) (fs s')
      \<and> stored w (PERSISTED_CONFIG_PATH w) (config_text w st) (fs s')) s"
  unfolding persist_runtime_config_def wp_then config_text_def [symmetric]
proof (rule wp_mono [OF write_secure_text_run], goal_cases)
  case (1 r s1)
  then have "stored w (PERSISTED_PRIVATE_KEY_PATH w) (jwt_private_key st) (fs s1)" if "r = Ret ()"
    using that by (auto simp: stored_def)
  then show ?case using assms
    by (cases r) (auto simp: stored_def intro!: wp_mono [OF write_secure_text_run])
qed

lemma paths_differ: "PERSISTED_PRIVATE_KEY_PATH w \<noteq> PERSISTED_CONFIG_PATH w"
  by (simp add: PERSISTED_PRIVATE_KEY_PATH_def PERSISTED_CONFIG_PATH_def)

text \<open>The dictionary a restart has to find.\<close>

definition restart_dict :: "host \<Rightarrow> settings \<Rightarrow> dict" where
  "restart_dict w st = filter (\<lambda>kv. fst kv \<noteq> ''jwt_private_key_path'') (persisted_dict w st)
     @ [(''jwt_private_key'', JStr (jwt_private_key st))]"

lemma select_persisted_dict:
  "jwt_private_key st \<noteq> [] \<Longrightarrow> select_persisted (persisted_dict w st) (jwt_private_key st) = restart_dict w st"
  by (simp add: select_persisted_def persisted_dict_def persisted_keys_def restart_dict_def map_filter_def)

lemma load_stored:
  fixes s :: "'a host_state_scheme"
  assumes plain: "plain_settings w st" and io: "readable w"
    and key: "stored w (PERSISTED_PRIVATE_KEY_PATH w) (jwt_private_key st) (fs s)"
    and conf: "stored w (PERSISTED_CONFIG_PATH w) (config_text w st) (fs s)"
  shows "wp (load_persisted_runtime_config w str) (\<lambda>r s'. r = Ret (restart_dict w st)) s"
proof -
  let ?v = "JObj (persisted_dict w st)"
  have v: "plain_json ?v" using plain by (simp add: plain_settings_def)
  obtain t where t: "json_dumps ?v = Some t" using json_round_trip [OF v] by blast
  have loads: "json_loads (config_text w st) = Inr ?v"
    using json_round_trip_blanks [OF v t] t by (simp add: config_text_def)
  have "printed t" using dump_printed(1) [OF v] t by (simp add: json_dumps_def)
  then have pr: "printed (config_text w st)" using t printed_pad [of 0] by (simp add: config_text_def pad_def)
  have asc: "ascii (config_text w st)" using pr by (auto simp: ascii_def printed_def list_all_iff)
  have "\<not> json_space (hd t)" "t \<noteq> []"
    using dump_reads(1) [OF v, of 0] t by (auto simp: json_dumps_def reads_value_def starts_value_def)
  then have nonblank: "strip (config_text w st) \<noteq> []"
    using pr t unfolding strip_Nil_iff
    by (cases t) (auto simp: config_text_def printed_def json_space_def is_space_def in_range_def)
  have path: "key_path w str (persisted_dict w st) = PERSISTED_PRIVATE_KEY_PATH w"
    by (simp add: key_path_def persisted_dict_def PERSISTED_PRIVATE_KEY_PATH_def)
  have read_key: "wp (read_secure_text w (PERSISTED_PRIVATE_KEY_PATH w)) (\<lambda>r s'. r = Ret (jwt_private_key st) \<and> fs s' = fs s) s1"
    if "fs s1 = fs s" for s1 :: "'a host_state_scheme"
    using read_secure_text_stored [OF io, of "PERSISTED_PRIVATE_KEY_PATH w" "jwt_private_key st" s1] key plain that
    by (simp add: plain_settings_def)
  have read_conf: "wp (read_secure_text w (PERSISTED_CONFIG_PATH w)) (\<lambda>r s'. r = Ret (config_text w st) \<and> fs s' = fs s) s1"
    if "fs s1 = fs s" for s1 :: "'a host_state_scheme"
    using read_secure_text_stored [OF io _ asc printed_no_cr [OF pr], of "PERSISTED_CONFIG_PATH w" s1] conf that by simp
  have parsed: "wp (read_persisted w str (config_text w st)) (\<lambda>r s'. r = Ret (restart_dict w st)) s1" if "fs s1 = fs s" for s1 :: "'a host_state_scheme"
    unfolding read_persisted_def wp_bind wp_from_sum loads sum.case outcome.case json.case path
    by (rule wp_mono [OF read_key [OF that]]) (use plain in \<open>simp add: wp_ret select_persisted_dict plain_settings_def\<close>)
  have "wp (bind_p (read_secure_text w (PERSISTED_CONFIG_PATH w)) (\<lambda>raw. if strip raw = [] then ret [] else read_persisted w str raw))
      (\<lambda>r s'. r = Ret (restart_dict w st)) s1" if "fs s1 = fs s" for s1 :: "'a host_state_scheme"
    unfolding wp_bind by (rule wp_mono [OF read_conf [OF that]]) (use nonblank parsed in simp)
  then show ?thesis using io conf
    by (simp add: load_persisted_runtime_config_def path_exists_def wp_then wp_bind [of "then_p _ _"] wp_fs_check
        wp_get_p readable_def) (auto simp: stored_def)
qed


section \<open>The connect request\<close>

fun is_connect_post :: "host_event \<Rightarrow> bool" where
  "is_connect_post (H_Post _ _ _ _) = True"
| "is_connect_post _ = False"

text \<open>Answered with success and a JSON body; answered so that no retry can help.\<close>

fun accepted :: "host_event \<Rightarrow> bool" where
  "accepted (H_Post _ _ _ (Inr (code, t))) = (is_success code \<and> (\<exists>j. json_loads t = Inr j))"
| "accepted _ = False"

fun is_final_answer :: "host_event \<Rightarrow> bool" where
  "is_final_answer (H_Post _ _ _ (Inr (code, _))) = (code < 500)"
| "is_final_answer _ = False"

definition connect_shape :: "json \<Rightarrow> (exn + json) outcome \<Rightarrow> host_event list \<Rightarrow> bool" where
  "connect_shape b r evs = (\<exists>u hs.
     (\<exists>code t. evs = [H_Post u hs b (Inr (code, t))] \<and> is_success code
        \<and> ((\<exists>j. json_loads t = Inr j \<and> r = Ret (Inr j)) \<or> (\<exists>e. json_loads t = Inl e \<and> r = Raise e)))
   \<or> (\<exists>code t. evs = [H_Post u hs b (Inr (code, t))] \<and> \<not> is_success code \<and> code < 500 \<and> r = Raise (rejected code t))
   \<or> (\<exists>e. evs = [H_Post u hs b (Inl e)] \<and> r = Raise e)
   \<or> (\<exists>rep zs. evs = H_Post u hs b rep # zs \<and> (\<forall>code t. rep = Inr (code, t) \<longrightarrow> 500 \<le> code)
        \<and> (zs = [] \<or> (\<exists>d z. zs = [H_Sleep d z])) \<and> ((\<exists>e. r = Ret (Inl e)) \<or> (\<exists>e. r = Raise e))))"

lemma json_loads_error: "json_loads t = Inl e \<Longrightarrow> \<exists>m. e = Exn JSONDecodeError m"
  by (auto simp: json_loads_def simp del: parse_value.simps split: option.splits prod.splits if_splits)

lemma json_loads_not_caught: "json_loads t = Inl e \<Longrightarrow> connect_handler e = None"
proof -
  assume "json_loads t = Inl e"
  then obtain m where "e = Exn JSONDecodeError m" using json_loads_error by blast
  then show ?thesis by (simp add: connect_handler_def catches_def mro.simps)
qed

definition connect_reply :: "exn + nat \<times> string \<Rightarrow> json outcome" where
  "connect_reply rep = (case rep of
       Inl e \<Rightarrow> Raise e
     | Inr (code, t) \<Rightarrow> if is_success code then (case json_loads t of Inl e \<Rightarrow> Raise e | Inr j \<Rightarrow> Ret j)
                       else Raise (HttpStatus code t))"

lemma connect_once_run:
  "\<exists>u hs rep. connect_once w auth payload s = (connect_reply rep, emits [H_Post u hs payload rep] s)"
  by (auto simp: connect_once_def bind_p_def get_p_def call_def Let_def connect_reply_def from_sum_def
      raise_def ret_def split: sum.splits prod.splits)

text \<open>After a failed attempt: the pause, unless it was the last one.\<close>

lemma retry_pause:
  "wp (if 0 < n then then_p (host_sleep w d) (ret (Inl e)) else ret (Inl e)) Q s \<longleftrightarrow>
     (if 0 < n then (case h_sleep w (trace s) d of
          Inl e' \<Rightarrow> Q (Raise e') (emits [H_Sleep d (Inl e')] s)
        | Inr u \<Rightarrow> Q (Ret (Inl e)) (emits [H_Sleep d (Inr u)] s))
      else Q (Ret (Inl e)) s)"
  by (simp add: host_sleep_def wp_rules split: sum.splits)

lemma connect_attempt_shape: "only_emits (connect_attempt w auth payload k n) (connect_shape payload)"
  unfolding only_emits_def
proof
  fix s :: node_state
  obtain u hs rep where once: "connect_once w auth payload s = (connect_reply rep, emits [H_Post u hs payload rep] s)"
    using connect_once_run by blast
  show "wp (connect_attempt w auth payload k n) (\<lambda>r s'. \<exists>evs. s' = emits evs s \<and> connect_shape payload r evs) s"
  proof (cases rep)
    case (Inl e)
    then show ?thesis using once
      by (cases "catches [TransportError] e"; cases e)
         (auto simp: connect_attempt_def wp_bind wp_try_except wp_ret wp_raise wp_def [of "connect_once w auth payload"]
           connect_reply_def connect_handler_def retry_pause connect_shape_def split: sum.splits)
  next
    case (Inr p)
    obtain code t where p: "p = (code, t)" by force
    then show ?thesis using once Inr json_loads_not_caught
      by (cases "is_success code"; cases "json_loads t")
         (auto simp: connect_attempt_def wp_bind wp_try_except wp_ret wp_raise wp_def [of "connect_once w auth payload"]
           connect_reply_def connect_handler_def retry_pause connect_shape_def split: sum.splits)
  qed
qed

lemma connect_shape_sends: "connect_shape b r evs \<Longrightarrow> count_ev is_connect_post evs \<le> 1"
  by (auto simp: connect_shape_def trace_simps)

lemma accepted_post [simp]:
  "accepted (H_Post u hs b rep) \<longleftrightarrow> (\<exists>code t j. rep = Inr (code, t) \<and> is_success code \<and> json_loads t = Inr j)"
  by (cases "H_Post u hs b rep" rule: accepted.cases) auto

lemma is_final_answer_post [simp]:
  "is_final_answer (H_Post u hs b rep) \<longleftrightarrow> (\<exists>code t. rep = Inr (code, t) \<and> code < 500)"
  by (cases "H_Post u hs b rep" rule: is_final_answer.cases) auto

lemma connect_shape_delivers:
  "connect_shape b r evs \<Longrightarrow> r \<noteq> Hang \<and> count_ev accepted evs = (case r of Ret (Inr _) \<Rightarrow> 1 | _ \<Rightarrow> 0)"
  by (auto simp: connect_shape_def trace_simps is_success_def)

lemma connect_shape_stops:
  "connect_shape b r evs \<Longrightarrow> \<not> occurs_before is_final_answer is_connect_post evs
     \<and> (list_ex is_final_answer evs \<longrightarrow> (\<forall>e. r \<noteq> Ret (Inl e)))"
  by (auto simp: connect_shape_def)

interpretation connect_retry: stopping_retry
  "connect_loop w lib auth payload m" "connect_attempt w auth payload" "connect_give_up lib m"
  is_connect_post accepted is_final_answer
  for w lib auth payload m
proof unfold_locales
  show "\<exists>e'. connect_give_up lib m (Some e) = raise e'" for e by (auto simp: connect_give_up_def)
  show "only_emits (connect_attempt w auth payload k n) (\<lambda>r evs. count_ev is_connect_post evs \<le> 1)" for k n
    by (rule only_emits_mono [OF connect_attempt_shape]) (rule connect_shape_sends)
  show "only_emits (connect_attempt w auth payload k n)
      (\<lambda>r evs. r \<noteq> Hang \<and> count_ev accepted evs = (case r of Ret (Inr _) \<Rightarrow> 1 | _ \<Rightarrow> 0))" for k n
    by (rule only_emits_mono [OF connect_attempt_shape]) (rule connect_shape_delivers)
  show "only_emits (connect_attempt w auth payload k n)
      (\<lambda>r evs. \<not> occurs_before is_final_answer is_connect_post evs
        \<and> (list_ex is_final_answer evs \<longrightarrow> (\<forall>e. r \<noteq> Ret (Inl e))))" for k n
    by (rule only_emits_mono [OF connect_attempt_shape]) (rule connect_shape_stops)
qed simp_all

text \<open>What is returned is the JSON of the last answer.\<close>

definition answered_by :: "json \<Rightarrow> json \<Rightarrow> host_event list \<Rightarrow> bool" where
  "answered_by payload j evs = (\<exists>pre u hs code t. evs = pre @ [H_Post u hs payload (Inr (code, t))]
     \<and> is_success code \<and> json_loads t = Inr j)"

lemma answered_by_append: "answered_by payload j evs' \<Longrightarrow> answered_by payload j (evs @ evs')"
  unfolding answered_by_def by (metis append.assoc)

lemma connect_shape_answer: "connect_shape b (Ret (Inr j)) evs \<Longrightarrow> answered_by b j evs"
  by (auto simp: connect_shape_def answered_by_def)

lemma connect_loop_answer:
  "only_emits (connect_loop w lib auth payload m k n le) (\<lambda>r evs. \<forall>j. r = Ret j \<longrightarrow> answered_by payload j evs)"
proof (induction n arbitrary: k le)
  case 0
  then show ?case by (auto intro: only_emits_raise simp: connect_give_up_def)
next
  case (Suc n)
  let ?\<Psi> = "\<lambda>x r evs. case x of Inr j \<Rightarrow> r = Ret j \<and> evs = [] | Inl _ \<Rightarrow> (\<forall>j. r = Ret j \<longrightarrow> answered_by payload j evs)"
  have "only_emits (case x of Inr j \<Rightarrow> ret j | Inl e \<Rightarrow> connect_loop w lib auth payload m (Suc k) n (Some e)) (?\<Psi> x)" for x
    by (cases x) (auto intro: Suc.IH only_emits_ret)
  then show ?case unfolding connect_loop.simps
    by (rule only_emits_bind [OF connect_attempt_shape])
       (auto dest: connect_shape_answer intro: answered_by_append split: sum.splits)
qed

text \<open>
  C27: the connect request with at least one attempt ends, leaves the settings and files alone, sends at most
  \<open>max_retries\<close> POSTs and none after an answer below 500; it returns exactly if one answer was a
  success with a JSON body, and then what it returns is the JSON of that last answer.
\<close>

theorem post_connect_contract:
  assumes "1 \<le> max_retries"
  shows "\<exists>r evs. post_connect w lib auth payload max_retries s = (r, emits evs s) \<and> r \<noteq> Hang
    \<and> int (count_ev is_connect_post evs) \<le> max_retries
    \<and> count_ev accepted evs = (case r of Ret _ \<Rightarrow> 1 | _ \<Rightarrow> 0)
    \<and> \<not> occurs_before is_final_answer is_connect_post evs
    \<and> (\<forall>j. r = Ret j \<longrightarrow> answered_by payload j evs)"
proof -
  obtain r s' where run: "post_connect w lib auth payload max_retries s = (r, s')" by fastforce
  have n: "0 < nat max_retries" using assms by simp
  note parts = only_emits_conj [OF connect_retry.loop_start_sends [OF n]
      only_emits_conj [OF connect_retry.loop_start_delivers [OF n]
        only_emits_conj [OF connect_retry.loop_start_stops [OF n] connect_loop_answer]]]
  obtain evs where "s' = emits evs s" "count_ev is_connect_post evs \<le> nat max_retries" "r \<noteq> Hang"
      "count_ev accepted evs = (case r of Ret _ \<Rightarrow> 1 | _ \<Rightarrow> 0)"
      "\<not> occurs_before is_final_answer is_connect_post evs" "\<forall>j. r = Ret j \<longrightarrow> answered_by payload j evs"
    using only_emitsD [OF parts run [unfolded post_connect_def]] by blast
  then show ?thesis using run assms by auto
qed

definition demo_library :: library where
  "demo_library = \<lparr>l_build = (\<lambda>_. Inr ((default_settings quiet_host)
       \<lparr>node_token := ''once'', allow_degraded_startup := True\<rparr>)), l_assign = (\<lambda>_ _ _ st. Inr st),
     l_str = (\<lambda>_. []), l_exc_str = exn_text, l_device = (\<lambda>_ _. Inr None)\<rparr>"

definition demo_bundle :: dict where
  "demo_bundle = [(''qpu_id'', JStr ''q1''), (''native_gate_set'', JStr ''cz''), (''jwt_private_key'', JStr ''pem''),
     (''jwt_key_id'', JStr ''k''), (''redis_url'', JStr ''redis://r''), (''webapp_url'', JStr ''https://w'')]"

definition cloud_host :: host where
  "cloud_host = quiet_host\<lparr>h_post := (\<lambda>_ _ _ _. Inr (200, the (json_dumps (JObj demo_bundle))))\<rparr>"

definition fresh_node :: node_state where
  "fresh_node = \<lparr>trace = [], fs = (\<lambda>_. None), environ = [], node_settings = (default_settings cloud_host)\<lparr>node_token := ''once''\<rparr>\<rparr>"

theorem post_connect_contract_witness:
  "\<exists>r evs. post_connect cloud_host demo_library ''Bearer t'' JNull 3 fresh_node = (r, emits evs fresh_node)
     \<and> r \<noteq> Hang \<and> int (count_ev is_connect_post evs) \<le> 3"
  using post_connect_contract [of 3] by fastforce


section \<open>Connecting and restarting\<close>

text \<open>A postcondition of programs that return; a program returns only if its last part does.\<close>

definition on_return :: "('a \<Rightarrow> 's \<Rightarrow> bool) \<Rightarrow> 'a outcome \<Rightarrow> 's \<Rightarrow> bool" where
  "on_return P r s = (case r of Ret x \<Rightarrow> P x s | _ \<Rightarrow> True)"

lemma on_return_simps [simp]:
  "on_return P (Ret x) s = P x s" "on_return P (Raise e) s" "on_return P Hang s"
  by (simp_all add: on_return_def)

lemma wp_last: "(\<And>x s. wp (f x) (on_return P) s) \<Longrightarrow> wp (bind_p m f) (on_return P) s"
  unfolding wp_bind by (rule wpI) (auto split: outcome.splits)

lemma wp_last_then: "(\<And>s. wp k (on_return P) s) \<Longrightarrow> wp (then_p m k) (on_return P) s"
  unfolding then_p_def by (rule wp_last)

lemma persist_keeps_settings:
  "wp (persist_runtime_config w st) (\<lambda>r s'. r = Ret () \<longrightarrow> node_settings s' = node_settings s) s"
proof -
  have keep: "wp (write_secure_text w p t) (\<lambda>r s'. r = Ret () \<longrightarrow> node_settings s' = node_settings s) s" for p t s
    by (rule wp_mono [OF write_secure_text_run]) (auto simp: emits_def)
  show ?thesis unfolding persist_runtime_config_def wp_then
    by (rule wp_mono [OF keep]) (auto split: outcome.splits intro!: wp_mono [OF keep])
qed

definition on_disk :: "host \<Rightarrow> node_state \<Rightarrow> bool" where
  "on_disk w s = (stored w (PERSISTED_PRIVATE_KEY_PATH w) (jwt_private_key (node_settings s)) (fs s)
     \<and> stored w (PERSISTED_CONFIG_PATH w) (config_text w (node_settings s)) (fs s))"

lemma install_failed_raises: "install_failed w e = Some k \<Longrightarrow> wp k (on_return P) s"
  unfolding install_failed_def by (auto split: if_splits simp: wp_bind wp_get_p wp_raise intro!: wp_last_then)

lemma connect_persists: "wp (connect_settings n w lib) (on_return (\<lambda>_. on_disk w)) s"
proof -
  have stores: "wp (persist_runtime_config w (node_settings s1)) (on_return (\<lambda>_. on_disk w)) s1" for s1
    by (rule wp_mono [OF wp_conj [OF persist_stores [OF paths_differ] persist_keeps_settings]])
       (auto simp: on_disk_def on_return_def split: outcome.splits)
  have inst: "wp (install_bundle n w lib b) (on_return (\<lambda>_. on_disk w)) s1" for b s1
    unfolding install_bundle_def by (rule wp_last_then) (simp add: wp_bind wp_get_p stores)
  have "wp (try_except (install_bundle n w lib b) (install_failed w)) (on_return (\<lambda>_. on_disk w)) s1" for b s1
    unfolding wp_try_except
    by (rule wp_mono [OF inst]) (auto split: outcome.splits option.splits dest: install_failed_raises)
  then show ?thesis unfolding connect_settings_def by (intro wp_last_then wp_last)
qed

text \<open>
  C3: a restart finds what the last connection left. When \<^verbatim>\<open>connect_settings\<close> has returned, the key and
  the configuration are on disk with permissions 0600 (on POSIX), and, files being readable and
  the settings plain ASCII text, \<^verbatim>\<open>load_persisted_runtime_config\<close> returns exactly the persisted
  settings, each key with its value, and the private key.
\<close>

theorem restart_reads_persisted_settings:
  assumes "connect_settings n w lib s = (Ret (), s')"
  shows "on_disk w s' \<and> (readable w \<and> plain_settings w (node_settings s') \<longrightarrow>
    fst (load_persisted_runtime_config w str s') = Ret (restart_dict w (node_settings s')))"
proof -
  have p: "on_disk w s'" using connect_persists [of n w lib s] assms by (simp add: wp_def)
  have "fst (load_persisted_runtime_config w str s') = Ret (restart_dict w (node_settings s'))"
    if "readable w" "plain_settings w (node_settings s')"
    using load_stored [OF that(2,1), of s' str] p by (simp add: on_disk_def wp_iff)
  with p show ?thesis by blast
qed

definition accepting :: "library \<Rightarrow> bool" where
  "accepting lib = (\<forall>h m st st'. l_assign lib h m st st' = Inr st')"

lemma assign_accepting:
  "accepting lib \<Longrightarrow> assign lib upd = modify_p (\<lambda>s. s\<lparr>node_settings := upd (node_settings s)\<rparr>)"
  by (rule ext) (simp add: assign_def accepting_def from_sum_def bind_p_def ret_def modify_p_def)

lemma demo_library_accepts: "accepting demo_library"
  by (simp add: accepting_def demo_library_def)

lemmas demo_assign = assign_accepting [OF demo_library_accepts]

lemma readable_fs_check: "readable w \<Longrightarrow> fs_check w op p s = (Ret (), emits [H_File op p (Inr ())] s)"
  by (simp add: fs_check_def call_def readable_def)

lemma write_secure_text_returns: "readable w \<Longrightarrow> \<exists>s'. write_secure_text w p t s = (Ret (), s')"
  by (simp add: write_secure_text_def make_parent_def write_text_def chmod_def then_p_def bind_p_def
      readable_fs_check modify_p_def get_p_def ret_def)

lemma persist_returns: "readable w \<Longrightarrow> \<exists>s'. persist_runtime_config w st s = (Ret (), s')"
proof -
  assume r: "readable w"
  obtain s1 where "write_secure_text w (PERSISTED_PRIVATE_KEY_PATH w) (jwt_private_key st) s = (Ret (), s1)"
    using write_secure_text_returns [OF r] by blast
  then show ?thesis using write_secure_text_returns [OF r]
    by (simp add: persist_runtime_config_def then_p_def bind_p_def split: prod.splits)
qed

definition provisioned :: "settings \<Rightarrow> settings" where
  "provisioned st = st\<lparr>qpu_id := ''q1'', qpu_display_name := [], native_gate_set := ''cz'', jwt_private_key := ''pem'',
     jwt_key_id := ''k'', redis_url := ''redis://r'', webapp_url := ''https://w''\<rparr>"

lemma demo_apply:
  "apply_node_bundle n w demo_library (JObj demo_bundle) s = (Ret (), s\<lparr>node_settings := provisioned (node_settings s)\<rparr>)"
  by (simp add: apply_node_bundle_def bundle_dict_def apply_identity_def apply_credential_def apply_endpoints_def
      apply_path_def demo_assign as_str_def as_int_def text_value_def display_name_def demo_bundle_def
      then_p_def bind_p_def get_p_def ret_def from_sum_def modify_p_def provisioned_def Let_def)

lemma demo_answer: "json_loads (the (json_dumps (JObj demo_bundle))) = Inr (JObj demo_bundle)"
proof -
  have "plain_json (JObj demo_bundle)" by code_simp
  from json_round_trip [OF this] show ?thesis by auto
qed

lemma demo_post:
  "post_connect cloud_host demo_library auth payload 3 s =
     (Ret (JObj demo_bundle), snd (post_connect cloud_host demo_library auth payload 3 s))
   \<and> node_settings (snd (post_connect cloud_host demo_library auth payload 3 s)) = node_settings s"
  by (simp add: post_connect_def connect_attempt_def connect_once_def numeral_3_eq_3 try_except_def bind_p_def get_p_def
      call_def cloud_host_def is_success_def from_sum_def ret_def demo_answer Let_def emits_def)

lemma demo_device: "l_device demo_library h st = Inr None"
  by (simp add: demo_library_def)

lemma demo_connect_from:
  assumes st: "node_token (node_settings s) = ''once''" "node_connect_retries (node_settings s) = 3"
    "node_machine_fingerprint (node_settings s) = []"
  shows "\<exists>s'. connect_settings 0 cloud_host demo_library s = (Ret (), s')
    \<and> node_settings s' = provisioned ((node_settings s)\<lparr>node_machine_fingerprint := machine_fingerprint cloud_host\<rparr>)"
proof -
  let ?st = "(node_settings s)\<lparr>node_machine_fingerprint := machine_fingerprint cloud_host\<rparr>"
  let ?s1 = "s\<lparr>node_settings := ?st\<rparr>"
  have fp: "machine_fingerprint cloud_host \<noteq> []" by (simp add: machine_fingerprint_def)
  have fetch: "fetch_bundle 0 cloud_host demo_library None ?s1 =
      post_connect cloud_host demo_library (''Bearer '' @ ''once'') (connect_payload (machine_fingerprint cloud_host) None) 3 ?s1"
    using st fp by (simp add: fetch_bundle_def fetch_node_bundle_def resolve_machine_fingerprint_def demo_assign
        then_p_def bind_p_def get_p_def modify_p_def ret_def Let_def)
  obtain s2 where s2: "fetch_bundle 0 cloud_host demo_library None ?s1 = (Ret (JObj demo_bundle), s2)"
    "node_settings s2 = ?st"
    unfolding fetch using demo_post [of "''Bearer '' @ ''once''" "connect_payload (machine_fingerprint cloud_host) None" ?s1]
    by auto
  let ?s3 = "s2\<lparr>node_settings := provisioned (node_settings s2)\<rparr>"
  have "readable cloud_host" by (simp add: readable_def cloud_host_def quiet_host_def)
  then obtain s4 where s4: "persist_runtime_config cloud_host (provisioned ?st) ?s3 = (Ret (), s4)"
    using persist_returns by blast
  have "node_settings s4 = provisioned ?st"
    using persist_keeps_settings [of cloud_host "provisioned ?st" ?s3] s4 s2(2) by (simp add: wp_def)
  moreover have "connect_settings 0 cloud_host demo_library s = (Ret (), s4)"
    using st fp s2 s4
    by (simp add: connect_settings_def resolve_machine_fingerprint_def connectivity_payload_for_connect_def
        resolve_connectivity_from_device_spec_def demo_assign demo_device install_bundle_def demo_apply
        then_p_def bind_p_def get_p_def modify_p_def ret_def from_sum_def try_except_def Let_def)
  ultimately show ?thesis by blast
qed

definition demo_settings :: settings where
  "demo_settings = provisioned ((node_settings fresh_node)\<lparr>node_machine_fingerprint := machine_fingerprint cloud_host\<rparr>)"

lemma demo_connect:
  "\<exists>s'. connect_settings 0 cloud_host demo_library fresh_node = (Ret (), s') \<and> node_settings s' = demo_settings"
  using demo_connect_from [of fresh_node] by (simp add: demo_settings_def fresh_node_def default_settings_def)

lemma demo_settings_plain: "plain_settings cloud_host demo_settings"
  by (simp add: plain_settings_def persisted_dict_def demo_settings_def provisioned_def fresh_node_def default_settings_def
      ascii_def byte_def PERSISTED_PRIVATE_KEY_PATH_def cloud_host_def quiet_host_def machine_fingerprint_def
      show_nat.simps digit_char_def)

theorem restart_reads_persisted_settings_witness:
  "\<exists>s'. connect_settings 0 cloud_host demo_library fresh_node = (Ret (), s')
     \<and> fst (load_persisted_runtime_config cloud_host (\<lambda>_. []) s') = Ret (restart_dict cloud_host demo_settings)"
proof -
  obtain s' where s': "connect_settings 0 cloud_host demo_library fresh_node = (Ret (), s')" "node_settings s' = demo_settings"
    using demo_connect by blast
  have "readable cloud_host" by (simp add: readable_def cloud_host_def quiet_host_def)
  then show ?thesis using restart_reads_persisted_settings [OF s'(1)] s' demo_settings_plain by auto
qed

text \<open>A machine on which nothing was ever configured, and its settings: \<open>demo_library\<close> reads a token.\<close>

definition empty_node :: node_state where
  "empty_node = fresh_node\<lparr>node_settings := default_settings quiet_host\<rparr>"

lemma default_settings_blank:
  "device_config (default_settings w) = []" "executor_factory (default_settings w) = []"
  by (simp_all add: default_settings_def)

lemma demo_load:
  "wp (load_settings (\<lambda>_. []) cloud_host demo_library) (\<lambda>r s'. r = Ret () \<and> node_settings s' =
     (default_settings quiet_host)\<lparr>node_token := ''once'', allow_degraded_startup := True\<rparr>) empty_node"
proof -
  have "h_fs_error cloud_host h op p = None" for h op p by (simp add: cloud_host_def quiet_host_def)
  moreover have "fs empty_node = (\<lambda>_. None)" by (simp add: empty_node_def fresh_node_def)
  ultimately show ?thesis
    by (simp add: load_settings_def make_settings_def merge_persisted_runtime_config_def has_token_def
        load_persisted_runtime_config_def apply_default_device_config_def apply_device_config_executor_factory_def
        check_jwt_or_node_token_def path_exists_def demo_library_def default_settings_blank wp_rules)
qed

end
