(* ===== verification/Config_Props.thy ===== *)
theory Config_Props
  imports Service_Props
begin

text \<open>
  The properties of the configuration: the precedence of environment over persisted values, the
  permissions without which nothing persisted is used, and the scan of a device configuration.
\<close>

section \<open>Reading files\<close>

text \<open>What a secure read returns on POSIX comes from a file with permissions 0600.\<close>

definition secured :: "host \<Rightarrow> files \<Rightarrow> string \<Rightarrow> string \<Rightarrow> bool" where
  "secured w m p t = (\<exists>f. m p = Some f \<and> universal_newlines (file_content f) = t
     \<and> (h_os_name w \<noteq> ''nt'' \<longrightarrow> file_mode f mod 4096 = 384))"

lemma read_secure_text_run:
  "wp (read_secure_text w p) (\<lambda>r s'. fs s' = fs s \<and> (\<forall>t. r = Ret t \<and> t \<noteq> [] \<longrightarrow> secured w (fs s) p t)) s"
  by (auto simp: read_secure_text_def path_exists_def stat_mode_def read_text_def secured_def bytes_decode_def wp_rules
      split: option.splits sum.splits)

lemma map_of_select_key:
  "map_of (select_persisted d key) ''jwt_private_key'' = (if key = [] then None else Some (JStr key))"
proof -
  have "map_of (List.map_filter (\<lambda>k. map_option (Pair k) (map_of d k)) ks) k' = (if k' \<in> set ks then map_of d k' else None)"
    for ks k' by (induction ks) (auto simp: map_filter_simps split: option.splits)
  moreover have "''jwt_private_key'' \<notin> set persisted_keys" by code_simp
  ultimately show ?thesis by (simp add: select_persisted_def map_add_def)
qed

lemma select_persisted_distinct: "distinct (map fst (select_persisted d key))"
proof -
  have keys: "map fst (List.map_filter (\<lambda>k. map_option (Pair k) (map_of d k)) ks) = filter (\<lambda>k. map_of d k \<noteq> None) ks" for ks
    by (induction ks) (auto simp: map_filter_simps split: option.splits)
  have "distinct persisted_keys" "''jwt_private_key'' \<notin> set persisted_keys" by code_simp+
  then show ?thesis by (simp add: select_persisted_def keys)
qed

lemma read_persisted_run:
  "wp (read_persisted w str raw) (\<lambda>r s'. fs s' = fs s \<and> (\<forall>d. r = Ret d \<longrightarrow> distinct (map fst d)
     \<and> (\<forall>v. map_of d ''jwt_private_key'' = Some v \<longrightarrow> (\<exists>p key. v = JStr key \<and> secured w (fs s) p key)))) s"
proof (cases "json_loads raw")
  case (Inr v)
  have "wp (bind_p (read_secure_text w p) (\<lambda>key. ret (select_persisted d key))) (\<lambda>r s'. fs s' = fs s \<and> (\<forall>d. r = Ret d \<longrightarrow> distinct (map fst d)
     \<and> (\<forall>v. map_of d ''jwt_private_key'' = Some v \<longrightarrow> (\<exists>p key. v = JStr key \<and> secured w (fs s) p key)))) s" for d p
    unfolding wp_bind
    by (rule wp_mono [OF read_secure_text_run])
       (auto simp: wp_ret map_of_select_key select_persisted_distinct split: outcome.splits)
  then show ?thesis using Inr by (cases v) (simp_all add: read_persisted_def wp_bind [of "from_sum _"] wp_from_sum wp_raise)
qed (simp add: read_persisted_def wp_bind wp_from_sum)

lemma load_persisted_run:
  "wp (load_persisted_runtime_config w str) (\<lambda>r s'. fs s' = fs s \<and> (\<forall>d. r = Ret d \<longrightarrow> distinct (map fst d)
     \<and> (d \<noteq> [] \<longrightarrow> (\<exists>t. secured w (fs s) (PERSISTED_CONFIG_PATH w) t))
     \<and> (\<forall>v. map_of d ''jwt_private_key'' = Some v \<longrightarrow> (\<exists>p key. v = JStr key \<and> secured w (fs s) p key)))) s"
  (is "wp _ ?Q s")
proof -
  have "wp (bind_p (read_secure_text w (PERSISTED_CONFIG_PATH w)) (\<lambda>raw. if strip raw = [] then ret [] else read_persisted w str raw)) ?Q s1"
    if "fs s1 = fs s" for s1 :: "'a host_state_scheme"
    unfolding wp_bind
  proof (rule wp_mono [OF read_secure_text_run], goal_cases)
    case (1 r s2)
    show ?case
    proof (cases r)
      case (Ret raw)
      show ?thesis
      proof (cases "strip raw = []")
        case False
        then have "raw \<noteq> []" by (auto simp: strip_Nil_iff)
        then have "wp (read_persisted w str raw) ?Q s2"
          using 1 Ret that by (intro wp_mono [OF read_persisted_run]) auto
        then show ?thesis using Ret False by simp
      qed (use 1 Ret that in \<open>simp add: wp_ret\<close>)
    qed (use 1 that in auto)
  qed
  then show ?thesis
    by (auto simp: load_persisted_runtime_config_def path_exists_def wp_bind [of "then_p _ _"] wp_then wp_fs_check
        wp_get_p wp_ret split: option.splits)
qed

text \<open>
  C30: nothing persisted is used unless it was protected. On POSIX, if loading the persisted
  configuration returns anything, the configuration file has permissions 0600, and a private
  key among the values is the text of a file with permissions 0600; no file is changed.
\<close>

theorem persisted_secrets_are_protected:
  assumes "load_persisted_runtime_config w str s = (Ret d, s')" and "h_os_name w \<noteq> ''nt''"
  shows "fs s' = fs s
    \<and> (d \<noteq> [] \<longrightarrow> (\<exists>f. fs s (PERSISTED_CONFIG_PATH w) = Some f \<and> file_mode f mod 4096 = 384))
    \<and> (\<forall>v. map_of d ''jwt_private_key'' = Some v \<longrightarrow> (\<exists>p f. fs s p = Some f \<and> file_mode f mod 4096 = 384
          \<and> v = JStr (universal_newlines (file_content f))))"
  using load_persisted_run [of w str s] assms by (fastforce simp: wp_def secured_def)

definition stored_node :: host_state where
  "stored_node = empty_host_state\<lparr>fs :=
     [PERSISTED_CONFIG_PATH quiet_host \<mapsto> \<lparr>file_content = [CHR ''{'', CHR 0x22, CHR ''q'', CHR ''p'', CHR ''u'', CHR ''_'', CHR ''i'',
        CHR ''d'', CHR 0x22, CHR '':'', CHR ''7'', CHR ''}''], file_mode = 384\<rparr>,
      PERSISTED_PRIVATE_KEY_PATH quiet_host \<mapsto> \<lparr>file_content = ''pem'', file_mode = 384\<rparr>]\<rparr>"

lemma stored_node_load:
  "fst (load_persisted_runtime_config quiet_host (\<lambda>_. []) stored_node)
     = Ret [(''qpu_id'', JInt 7), (''jwt_private_key'', JStr ''pem'')]"
  by code_simp

theorem persisted_secrets_are_protected_witness:
  "\<exists>f. fs stored_node (PERSISTED_CONFIG_PATH quiet_host) = Some f \<and> file_mode f mod 4096 = 384"
proof -
  have "load_persisted_runtime_config quiet_host (\<lambda>_. []) stored_node
      = (Ret [(''qpu_id'', JInt 7), (''jwt_private_key'', JStr ''pem'')],
         snd (load_persisted_runtime_config quiet_host (\<lambda>_. []) stored_node))"
    using stored_node_load by (simp add: prod_eq_iff)
  moreover have "h_os_name quiet_host \<noteq> ''nt''" by code_simp
  ultimately show ?thesis using persisted_secrets_are_protected by blast
qed


section \<open>Precedence\<close>

lemma merge_keys:
  "distinct (map fst persisted) \<Longrightarrow>
   map_of (foldl merge_key data persisted) k =
     (case map_of data k of
        None \<Rightarrow> map_of persisted k
      | Some v \<Rightarrow> if is_blank v \<and> map_of persisted k \<noteq> None then map_of persisted k else Some v)"
proof (induction persisted arbitrary: data)
  case (Cons kv persisted)
  obtain a v where kv: "kv = (a, v)" by force
  have "map_of persisted a = None" using Cons.prems kv by (simp add: map_of_eq_None_iff)
  then show ?case using Cons kv
    by (cases "k = a") (auto simp: merge_key_def split: option.splits)
qed (simp split: option.splits)

text \<open>
  C31: values given explicitly win over persisted ones. With a node token nothing persisted is read;
  otherwise a key has its explicit value unless that is missing, empty or null, and then the
  persisted one if there is one.
\<close>

theorem merge_precedence:
  assumes "merge_persisted_runtime_config w lib data s = (Ret merged, s')"
  shows "if has_token data then merged = data \<and> s' = s
    else \<exists>persisted. load_persisted_runtime_config w (l_str lib) s = (Ret persisted, s')
      \<and> (\<forall>k. map_of merged k = (case map_of data k of
            None \<Rightarrow> map_of persisted k
          | Some v \<Rightarrow> if is_blank v \<and> map_of persisted k \<noteq> None then map_of persisted k else Some v))"
proof (cases "has_token data")
  case False
  then obtain persisted where p: "load_persisted_runtime_config w (l_str lib) s = (Ret persisted, s')"
    "merged = foldl merge_key data persisted"
    using assms by (auto simp: merge_persisted_runtime_config_def bind_p_def ret_def split: prod.splits outcome.splits)
  have "distinct (map fst persisted)" using load_persisted_run [of w "l_str lib" s] p(1) by (simp add: wp_def)
  then show ?thesis using False p merge_keys by auto
qed (use assms in \<open>simp add: merge_persisted_runtime_config_def ret_def\<close>)

theorem merge_precedence_witness:
  "\<exists>merged s'. merge_persisted_runtime_config quiet_host demo_library [(''qpu_id'', JStr [])] stored_node = (Ret merged, s')
     \<and> map_of merged ''qpu_id'' = Some (JInt 7)"
proof -
  let ?r = "merge_persisted_runtime_config quiet_host demo_library [(''qpu_id'', JStr [])] stored_node"
  have "fst ?r = Ret [(''qpu_id'', JInt 7), (''jwt_private_key'', JStr ''pem'')]" by code_simp
  then have r: "?r = (Ret [(''qpu_id'', JInt 7), (''jwt_private_key'', JStr ''pem'')], snd ?r)" by (simp add: prod_eq_iff)
  have "\<not> has_token [(''qpu_id'', JStr [])]" by code_simp
  with merge_precedence [OF r] show ?thesis using r by auto
qed


section \<open>Device configurations\<close>

definition plain_value :: "string \<Rightarrow> bool" where
  "plain_value v = (v \<noteq> [] \<and> list_all (\<lambda>c. \<not> is_space c \<and> c \<noteq> CHR 0x27 \<and> c \<noteq> CHR 0x22 \<and> c \<noteq> CHR ''#'') v)"

text \<open>A value as it may be written: bare or in either kind of quotes.\<close>

definition written_as :: "string \<Rightarrow> string \<Rightarrow> bool" where
  "written_as v u = (u = v \<or> u = [CHR 0x22] @ v @ [CHR 0x22] \<or> u = [CHR 0x27] @ v @ [CHR 0x27])"

definition other_line :: "string \<Rightarrow> bool" where
  "other_line l = (startswith l '' '' \<or> startswith l [CHR 0x09] \<or> match_executor_factory (strip l) = None)"

lemma rstrip_append: "\<not> is_space d \<Longrightarrow> rstrip (x @ d # y) = x @ d # rstrip y"
proof -
  assume d: "\<not> is_space d"
  have "dropWhile is_space (rev y @ d # rev x) = dropWhile is_space (rev y) @ d # rev x"
    using d by (induction "rev y" arbitrary: y) (auto simp: dropWhile_append)
  then show ?thesis by (simp add: rstrip_def)
qed

lemma rstrip_nonspace: "\<not> is_space d \<Longrightarrow> rstrip (x @ [d]) = x @ [d]"
  using rstrip_append [of d x "[]"] by (simp add: rstrip_def)

lemma comment_start_plain:
  "list_all (\<lambda>c. c \<noteq> CHR 0x27 \<and> c \<noteq> CHR 0x22 \<and> c \<noteq> CHR ''#'') v \<Longrightarrow>
   comment_start False False (v @ r) = map_option ((+) (length v)) (comment_start False False r)"
  by (induction v; cases "comment_start False False r") auto

lemma comment_start_single:
  "list_all (\<lambda>c. c \<noteq> CHR 0x27) v \<Longrightarrow>
   comment_start True False (v @ CHR 0x27 # r) = map_option ((+) (Suc (length v))) (comment_start False False r)"
  by (induction v; cases "comment_start False False r") auto

lemma comment_start_double:
  "list_all (\<lambda>c. c \<noteq> CHR 0x22) v \<Longrightarrow>
   comment_start False True (v @ CHR 0x22 # r) = map_option ((+) (Suc (length v))) (comment_start False False r)"
  by (induction v; cases "comment_start False False r") auto

lemma comment_start_written:
  assumes "plain_value v" and "written_as v u"
  shows "comment_start False False (u @ r) = map_option ((+) (length u)) (comment_start False False r)"
proof -
  have v: "list_all (\<lambda>c. c \<noteq> CHR 0x27 \<and> c \<noteq> CHR 0x22 \<and> c \<noteq> CHR ''#'') v"
    "list_all (\<lambda>c. c \<noteq> CHR 0x27) v" "list_all (\<lambda>c. c \<noteq> CHR 0x22) v"
    using assms(1) by (simp_all add: plain_value_def list_all_iff)
  show ?thesis using assms(2) comment_start_plain [OF v(1)] comment_start_single [OF v(2)] comment_start_double [OF v(3)]
    by (cases "comment_start False False r") (auto simp: written_as_def)
qed

text \<open>A written value starts and ends with a character that is no blank.\<close>

lemma written_ends:
  assumes "plain_value v" and "written_as v u"
  shows "u \<noteq> []" "\<not> is_space (hd u)" "\<not> is_space (last u)"
proof -
  have "v \<noteq> []" "\<forall>c \<in> set v. \<not> is_space c" using assms(1) by (simp_all add: plain_value_def list_all_iff)
  moreover have "\<not> is_space (CHR 0x22)" "\<not> is_space (CHR 0x27)" by code_simp+
  ultimately show "u \<noteq> []" "\<not> is_space (hd u)" "\<not> is_space (last u)"
    using assms(2) by (auto simp: written_as_def)
qed

lemma unquote_written:
  assumes "plain_value v" and "written_as v u"
  shows "strip (unquote u) = v"
proof -
  have v: "v \<noteq> []" "hd v \<noteq> CHR 0x27" "hd v \<noteq> CHR 0x22" "\<forall>c \<in> set v. \<not> is_space c"
    using assms(1) by (auto simp: plain_value_def list_all_iff)
  have "unquote u = v" using assms(2) v by (auto simp: written_as_def unquote_def butlast_append)
  then show ?thesis using v(4) by (simp add: strip_no_space list_all_iff)
qed

lemma strip_starting: "s \<noteq> [] \<Longrightarrow> \<not> is_space (hd s) \<Longrightarrow> strip s = rstrip s"
proof -
  assume s: "s \<noteq> []" "\<not> is_space (hd s)"
  then obtain c t where "s = c # t" by (cases s) auto
  then have "rstrip s = c # rstrip t" using s rstrip_append [of c "[]" t] by simp
  then show ?thesis using s \<open>s = c # t\<close> by (simp add: strip_def lstrip_def)
qed

lemma match_factory_line:
  assumes "u \<noteq> []" and "\<not> is_space (hd u)"
  shows "match_executor_factory (''executor_factory: '' @ u) = Some (rstrip u)"
proof -
  have sp: "\<not> is_space (CHR '':'')" "is_space (CHR '' '')" by code_simp+
  have "lstrip ('' '' @ u) = u" using assms sp(2) by (cases u) (auto simp: lstrip_def)
  moreover have "\<exists>x \<in> set u. \<not> is_space x" using assms by (meson hd_in_set)
  ultimately show ?thesis using sp
    by (simp add: match_executor_factory_def startswith_def lstrip_def)
qed

text \<open>The line of a value with whatever follows it: nothing, or a comment.\<close>

lemma factory_line:
  assumes v: "plain_value v" "written_as v u" and tail: "tail = [] \<or> tail = '' #'' @ cmt"
  shows "factory_of_lines ((''executor_factory: '' @ u @ tail) # post) = v"
proof -
  note ends = written_ends [OF v]
  have sp: "\<not> is_space (CHR ''#'')" "is_space (CHR '' '')" "\<not> is_space (CHR ''e'')" by code_simp+
  obtain x d where u: "u = x @ [d]" "\<not> is_space d" using ends(1,3) by (cases u rule: rev_cases) auto
  have rs: "rstrip (z @ u @ tail) = z @ u @ (if tail = [] then [] else '' #'' @ rstrip cmt)" for z
    using tail u sp rstrip_append [of d "z @ x" tail] rstrip_append [of "CHR ''#''" "z @ u @ '' ''" cmt]
      rstrip_nonspace [of d "z @ x"] by auto
  let ?t = "if tail = [] then [] else '' #'' @ rstrip cmt"
  have line: "strip (''executor_factory: '' @ u @ tail) = ''executor_factory: '' @ u @ ?t"
    using strip_starting [of "''executor_factory: '' @ u @ tail"] rs [of "''executor_factory: ''"] sp by simp
  have again: "rstrip (u @ ?t) = u @ ?t"
    using u sp rstrip_nonspace [of d x] rstrip_append [of "CHR ''#''" "u @ '' ''" "rstrip cmt"]
    by (auto simp: rstrip_def)
  have "match_executor_factory (''executor_factory: '' @ (u @ ?t)) = Some (rstrip (u @ ?t))"
    using ends(1,2) by (intro match_factory_line) auto
  moreover have "strip_inline_yaml_comment (u @ ?t) = u"
  proof (cases "tail = []")
    case True
    then show ?thesis using comment_start_written [OF v, of "[]"] ends strip_starting [of u] rs [of "[]"]
      by (simp add: strip_inline_yaml_comment_def)
  next
    case False
    have "comment_start False False ('' #'' @ rstrip cmt) = Some 1" by simp
    then have "strip_inline_yaml_comment (u @ ?t) = rstrip (u @ '' '')"
      using False comment_start_written [OF v, of "'' #'' @ rstrip cmt"] by (simp add: strip_inline_yaml_comment_def)
    also have "\<dots> = u" using u sp(2) rstrip_append [of d x "'' ''"] by (simp add: rstrip_def)
    finally show ?thesis .
  qed
  ultimately show ?thesis using line again unquote_written [OF v]
    by (simp add: startswith_def)
qed

lemma factory_skips:
  "\<forall>l \<in> set pre. other_line l \<Longrightarrow> factory_of_lines (pre @ ls) = factory_of_lines ls"
  by (induction pre) (auto simp: other_line_def)

text \<open>
  The executor factory of a device configuration is the value of its first top-level
  \<^verbatim>\<open>executor_factory\<close> line, whether it is bare or quoted and with or without a comment after it.
\<close>

theorem executor_factory_found:
  assumes "\<forall>l \<in> set pre. other_line l" and "plain_value v" and "written_as v u"
    and "tail = [] \<or> tail = '' #'' @ cmt"
  shows "factory_of_lines (pre @ (''executor_factory: '' @ u @ tail) # post) = v"
  using factory_skips [OF assms(1)] factory_line [OF assms(2-4)] by simp

theorem executor_factory_found_witness:
  "factory_of_lines [''name: demo'', ''executor_factory: '' @ [CHR 0x22] @ ''pkg.mod:make'' @ [CHR 0x22] @ '' # site'', ''x: 1'']
     = ''pkg.mod:make''"
proof -
  have "\<forall>l \<in> set [''name: demo'']. other_line l" "plain_value ''pkg.mod:make''" by code_simp+
  then show ?thesis
    using executor_factory_found [of "[''name: demo'']" "''pkg.mod:make''" "[CHR 0x22] @ ''pkg.mod:make'' @ [CHR 0x22]" "'' # site''" "'' site''" "[''x: 1'']"]
    by (simp add: written_as_def)
qed
end
