(* ===== verification/Decimal.thy ===== *)
theory Decimal
  imports Json
begin

text \<open>
  The two conversions between floats and text that the sources use: the constructor
  \<^verbatim>\<open>float(s)\<close> and the presentation \<^verbatim>\<open>f"{x:.15g}"\<close>. A float is the exact rational its text
  denotes, so the rounding to 53 bits is not modelled; a text that denotes an infinity or no
  number (\<^verbatim>\<open>inf\<close>, \<^verbatim>\<open>nan\<close>, or a magnitude beyond the largest double) is read as \<open>Nonfinite\<close>.

  The main fact is \<open>read_format_g\<close>: reading what \<open>format_g n\<close> prints gives the value
  rounded to \<open>n\<close> significant digits (\<open>round_sig\<close>), for every value; a value that has at
  most \<open>n\<close> significant digits is its own rounding.
\<close>

section \<open>Reading\<close>

datatype float_text = Not_Number | Nonfinite | Finite rat

text \<open>Underscores are allowed between two digits.\<close>

fun drop_underscores :: "bool \<Rightarrow> string \<Rightarrow> string option" where
  "drop_underscores after_digit [] = Some []"
| "drop_underscores after_digit (c # s) =
     (if c = CHR ''_'' then
        (if after_digit \<and> s \<noteq> [] \<and> is_digit (hd s) then drop_underscores False s else None)
      else map_option (Cons c) (drop_underscores (is_digit c) s))"

definition max_double :: rat where
  "max_double = 2 ^ 1024 - 2 ^ 970"

definition finite_float :: "rat \<Rightarrow> float_text" where
  "finite_float v = (if \<bar>v\<bar> < max_double then Finite v else Nonfinite)"

definition read_decimal :: "string \<Rightarrow> rat option" where
  "read_decimal s =
     (let (ds, r) = span_digits s;
          (fs, r1) = (if r \<noteq> [] \<and> hd r = CHR ''.'' then span_digits (tl r) else ([], r));
          (ex, r2) = read_exponent r1
      in if ds @ fs = [] \<or> r2 \<noteq> [] then None
         else Some (of_nat (digits_val (ds @ fs)) *
                    power10 ((case ex of Some e \<Rightarrow> e | None \<Rightarrow> 0) - int (length fs))))"

definition read_float :: "string \<Rightarrow> float_text" where
  "read_float s =
     (case drop_underscores False (strip s) of
        None \<Rightarrow> Not_Number
      | Some t \<Rightarrow>
          (let neg = (t \<noteq> [] \<and> hd t = CHR ''-'');
               u = (if t \<noteq> [] \<and> (hd t = CHR ''-'' \<or> hd t = CHR ''+'') then tl t else t)
           in if lower u \<in> {''inf'', ''infinity'', ''nan''} then Nonfinite
              else case read_decimal u of
                  None \<Rightarrow> Not_Number
                | Some v \<Rightarrow> finite_float (if neg then - v else v)))"


section \<open>Printing\<close>

text \<open>\<open>sig_exponent v\<close> is the exponent of the leading digit of a positive \<open>v\<close>.\<close>

definition sig_exponent :: "rat \<Rightarrow> int" where
  "sig_exponent v =
     (let (p, q) = quotient_of v;
          k = int (length (show_nat (nat p))) - int (length (show_nat (nat q)))
      in if power10 k \<le> v then k else k - 1)"

text \<open>The \<open>n\<close> significant digits of a positive \<open>v\<close>, as a number, with the exponent of the first.\<close>

definition sig_digits :: "nat \<Rightarrow> rat \<Rightarrow> nat \<times> int" where
  "sig_digits n v =
     (let e = sig_exponent v;
          m = nat (round_half_even (v * power10 (int n - 1 - e)))
      in if m = 10 ^ n then (10 ^ (n - 1), e + 1) else (m, e))"

definition strip_zeros :: "string \<Rightarrow> string" where
  "strip_zeros s = rev (dropWhile (\<lambda>c. c = CHR ''0'') (rev s))"

definition with_fraction :: "string \<Rightarrow> string \<Rightarrow> string" where
  "with_fraction ip fr =
     (if strip_zeros fr = [] then ip else ip @ CHR ''.'' # strip_zeros fr)"

definition show_exponent :: "int \<Rightarrow> string" where
  "show_exponent e =
     CHR ''e'' # (if e < 0 then CHR ''-'' else CHR ''+'') #
     (let ds = show_nat (nat \<bar>e\<bar>) in if length ds < 2 then CHR ''0'' # ds else ds)"

definition format_digits :: "nat \<Rightarrow> string \<Rightarrow> int \<Rightarrow> string" where
  "format_digits n ds e =
     (if -4 \<le> e \<and> e < 0 then with_fraction ''0'' (replicate (nat (- e - 1)) (CHR ''0'') @ ds)
      else if 0 \<le> e \<and> e < int n then with_fraction (take (nat e + 1) ds) (drop (nat e + 1) ds)
      else with_fraction (take 1 ds) (drop 1 ds) @ show_exponent e)"

definition format_g :: "nat \<Rightarrow> rat \<Rightarrow> string" where
  "format_g n v =
     (if v = 0 then ''0''
      else (if v < 0 then ''-'' else []) @
           (case sig_digits n \<bar>v\<bar> of (m, e) \<Rightarrow> format_digits n (show_nat m) e))"

text \<open>What the printed digits denote.\<close>

definition round_sig :: "nat \<Rightarrow> rat \<Rightarrow> rat" where
  "round_sig n v =
     (if v = 0 then 0
      else (case sig_digits n \<bar>v\<bar> of (m, e) \<Rightarrow> sgn v * of_nat m * power10 (e - int n + 1)))"


section \<open>Powers of ten and rounding\<close>

lemma power10_powi: "power10 e = 10 powi e"
  by (simp add: power10_def power_int_def divide_simps)

lemma power10_add: "power10 (a + b) = power10 a * power10 b"
  by (simp add: power10_powi power_int_add)

lemma power10_pos [simp]: "0 < power10 e"
  by (simp add: power10_def)

lemma power10_nat: "power10 (int n) = 10 ^ n"
  by (simp add: power10_def)

lemma power10_cancel [simp]: "power10 e * power10 (- e) = 1" "power10 (- e) * power10 e = 1"
  by (simp_all flip: power10_add add: power10_def)

lemma round_half_even_near: "\<bar>of_int (round_half_even x) - x\<bar> \<le> 1 / 2"
proof -
  have "of_int \<lfloor>x\<rfloor> \<le> x" "x < of_int \<lfloor>x\<rfloor> + 1" by linarith+
  then show ?thesis by (auto simp: round_half_even_def Let_def)
qed

lemma round_half_even_int [simp]: "round_half_even (of_int k) = k"
  by (simp add: round_half_even_def)

text \<open>Rounding does not leave an interval with integral ends.\<close>

lemma round_half_even_bounds:
  assumes "of_int a \<le> x" and "x \<le> of_int b"
  shows "a \<le> round_half_even x \<and> round_half_even x \<le> b"
proof -
  have "of_int a - 1 / 2 \<le> (of_int (round_half_even x) :: rat)"
    and "(of_int (round_half_even x) :: rat) \<le> of_int b + 1 / 2"
    using assms round_half_even_near [of x] by linarith+
  then have "of_int a < (of_int (round_half_even x + 1) :: rat)"
    and "(of_int (round_half_even x) :: rat) < of_int (b + 1)" by simp_all
  then have "a < round_half_even x + 1" "round_half_even x < b + 1"
    unfolding of_int_less_iff by blast+
  then show ?thesis by simp
qed


section \<open>Digits\<close>

lemma show_nat_length_bounds:
  "0 < n \<Longrightarrow> 10 ^ (length (show_nat n) - 1) \<le> n \<and> n < 10 ^ length (show_nat n)"
proof (induction n rule: show_nat.induct)
  case (1 n)
  show ?case
  proof (cases "n < 10")
    case True
    then show ?thesis using "1.prems" by (simp add: show_nat.simps [of n])
  next
    case False
    let ?l = "length (show_nat (n div 10))"
    have l: "length (show_nat n) = Suc ?l" using False by (simp add: show_nat.simps [of n])
    have ih: "10 ^ (?l - 1) \<le> n div 10" "n div 10 < 10 ^ ?l"
      using "1.IH" [OF False] False by auto
    have "?l = Suc (?l - 1)" by (cases "show_nat (n div 10)") auto
    then have "10 ^ ?l = 10 * (10::nat) ^ (?l - 1)" by (metis power_Suc)
    then show ?thesis using ih l by simp linarith
  qed
qed

lemma length_show_nat:
  assumes "10 ^ k \<le> n" and "n < 10 ^ Suc k"
  shows "length (show_nat n) = Suc k"
proof -
  let ?l = "length (show_nat n)"
  have "0 < n" using assms(1) by (meson less_le_trans zero_less_numeral zero_less_power)
  then have b: "10 ^ (?l - 1) \<le> n" "n < 10 ^ ?l" using show_nat_length_bounds by auto
  have "(10::nat) ^ k < 10 ^ ?l" "(10::nat) ^ (?l - 1) < 10 ^ Suc k"
    using assms b by linarith+
  then have "k < ?l" "?l - 1 < Suc k" by (metis one_less_numeral_iff power_less_imp_less_exp semiring_norm(76))+
  then show ?thesis by linarith
qed

lemma show_nat_power10:
  assumes "0 < i"
  shows "power10 (int (length (show_nat (nat i))) - 1) \<le> of_int i
    \<and> of_int i < power10 (int (length (show_nat (nat i))))"
proof -
  obtain k where k: "length (show_nat (nat i)) = Suc k" by (cases "show_nat (nat i)") auto
  have "10 ^ k \<le> nat i" "nat i < 10 ^ Suc k"
    using show_nat_length_bounds [of "nat i"] assms k by auto
  then have "(of_nat (10 ^ k) :: rat) \<le> of_nat (nat i)" "(of_nat (nat i) :: rat) < of_nat (10 ^ Suc k)"
    unfolding of_nat_le_iff of_nat_less_iff by auto
  moreover have "power10 (int (Suc k) - 1) = 10 ^ k" by (simp add: power10_nat)
  ultimately show ?thesis using assms k by (simp add: power10_nat del: of_nat_Suc)
qed

lemma sig_exponent_bounds:
  assumes "0 < v"
  shows "power10 (sig_exponent v) \<le> v \<and> v < power10 (sig_exponent v + 1)"
proof -
  obtain p q where pq: "quotient_of v = (p, q)" by force
  have q: "0 < q" using quotient_of_denom_pos [OF pq] .
  have v: "v = of_int p / of_int q" using quotient_of_div [OF pq] .
  with assms q have p: "0 < p" by (simp add: zero_less_divide_iff)
  let ?a = "length (show_nat (nat p))" and ?b = "length (show_nat (nat q))"
  let ?k = "int ?a - int ?b"
  have pb: "power10 (int ?a - 1) \<le> of_int p" "of_int p < power10 (int ?a)"
    "power10 (int ?b - 1) \<le> of_int q" "of_int q < power10 (int ?b)"
    using show_nat_power10 [OF p] show_nat_power10 [OF q] by auto
  have qp: "(0::rat) < of_int q" using q by simp
  have "power10 (?k - 1) * of_int q \<le> power10 (?k - 1) * power10 (int ?b)"
    using pb by (intro mult_left_mono) (simp_all add: less_imp_le)
  also have "\<dots> = power10 (int ?a - 1)" by (simp flip: power10_add)
  finally have lo: "power10 (?k - 1) \<le> v" using pb qp by (simp add: v le_divide_eq)
  have "power10 (int ?a) = power10 (?k + 1) * power10 (int ?b - 1)" by (simp flip: power10_add)
  also have "\<dots> \<le> power10 (?k + 1) * of_int q"
    using pb by (intro mult_left_mono) (simp_all add: less_imp_le)
  finally have hi: "v < power10 (?k + 1)" using pb qp by (simp add: v divide_less_eq)
  show ?thesis using lo hi by (auto simp: sig_exponent_def pq Let_def)
qed

lemma sig_digits_bounds:
  assumes "0 < v" and "0 < n" and "sig_digits n v = (m, e)"
  shows "10 ^ (n - 1) \<le> m \<and> m < 10 ^ n"
proof -
  let ?e = "sig_exponent v"
  let ?x = "v * power10 (int n - 1 - ?e)"
  have b: "power10 ?e \<le> v" "v \<le> power10 (?e + 1)" using sig_exponent_bounds [OF assms(1)] by auto
  have "power10 ?e * power10 (int n - 1 - ?e) \<le> ?x" "?x \<le> power10 (?e + 1) * power10 (int n - 1 - ?e)"
    using b by (auto intro!: mult_right_mono simp: less_imp_le)
  then have "power10 (int (n - 1)) \<le> ?x" "?x \<le> power10 (int n)"
    using assms(2) by (simp_all flip: power10_add add: of_nat_diff)
  then have "of_int (10 ^ (n - 1)) \<le> ?x" "?x \<le> of_int (10 ^ n)" by (simp_all add: power10_nat)
  from round_half_even_bounds [OF this]
  have r: "10 ^ (n - 1) \<le> round_half_even ?x" "round_half_even ?x \<le> 10 ^ n" by auto
  then have "10 ^ (n - 1) \<le> nat (round_half_even ?x)" "nat (round_half_even ?x) \<le> 10 ^ n"
    by (simp_all add: le_nat_iff nat_le_iff)
  moreover have "(10::nat) ^ (n - 1) < 10 ^ n" using assms(2) by simp
  ultimately show ?thesis using assms(3) by (auto simp: sig_digits_def Let_def split: if_splits)
qed

lemma digits_val_concat: "digits_val (a @ b) = digits_val a * 10 ^ length b + digits_val b"
proof (induction b rule: rev_induct)
  case (snoc c b)
  have "digits_val (a @ b @ [c]) = 10 * digits_val (a @ b) + digit_val c"
    using digits_val_append [of "a @ b" c] by simp
  then show ?case using snoc by (simp add: digits_val_append algebra_simps)
qed (simp add: digits_val_def)

lemma digits_val_zeros [simp]: "digits_val (replicate k (CHR ''0'')) = 0"
proof (induction k)
  case (Suc k)
  have "digit_val (CHR ''0'') = 0" by code_simp
  then show ?case using Suc digits_val_concat [of "[CHR ''0'']" "replicate k (CHR ''0'')"]
    by (simp add: digits_val_def)
qed (simp add: digits_val_def)

lemma strip_zeros_split: "\<exists>k. s = strip_zeros s @ replicate k (CHR ''0'')"
proof -
  let ?t = "takeWhile (\<lambda>c. c = CHR ''0'') (rev s)"
  have "?t = replicate (length ?t) (CHR ''0'')"
    by (intro replicate_eqI) (auto dest: set_takeWhileD)
  moreover have "s = strip_zeros s @ rev ?t"
    unfolding strip_zeros_def by (metis rev_append rev_rev_ident takeWhile_dropWhile_id)
  ultimately show ?thesis by (metis rev_replicate)
qed

lemma strip_zeros_value:
  "of_nat (digits_val (ip @ strip_zeros fr)) * power10 (e - int (length (strip_zeros fr))) =
   of_nat (digits_val (ip @ fr)) * power10 (e - int (length fr))"
proof -
  obtain k where k: "fr = strip_zeros fr @ replicate k (CHR ''0'')" using strip_zeros_split by blast
  have "digits_val (ip @ fr) = digits_val (ip @ strip_zeros fr) * 10 ^ k"
    using digits_val_concat [of "ip @ strip_zeros fr" "replicate k (CHR ''0'')"] k by simp
  moreover have "length fr = length (strip_zeros fr) + k"
    using k by (metis length_append length_replicate)
  moreover have "power10 (e - int l) = power10 (int k) * power10 (e - int (l + k))" for l
    by (simp flip: power10_add)
  ultimately show ?thesis by (simp add: power10_nat mult.assoc)
qed


section \<open>Reading what has been printed\<close>

lemma list_all_parts [simp]:
  "list_all P xs \<Longrightarrow> list_all P (take k xs)" "list_all P xs \<Longrightarrow> list_all P (drop k xs)"
  "P c \<Longrightarrow> list_all P (replicate k c)"
  by (auto simp: list_all_iff dest: in_set_takeD in_set_dropD)

lemma span_digits_prefix:
  "list_all is_digit ds \<Longrightarrow> r = [] \<or> \<not> is_digit (hd r) \<Longrightarrow> span_digits (ds @ r) = (ds, r)"
  by (cases r) (auto simp: span_digits_def list_all_iff takeWhile_append dropWhile_append)

lemma is_digit_marks [simp]:
  "\<not> is_digit (CHR ''.'')" "\<not> is_digit (CHR ''e'')" "\<not> is_digit (CHR ''-'')"
  "\<not> is_digit (CHR ''+'')" "\<not> is_digit (CHR ''_'')" "is_digit (CHR ''0'')"
  by code_simp+

lemma strip_zeros_digits: "list_all is_digit s \<Longrightarrow> list_all is_digit (strip_zeros s)"
  using strip_zeros_split [of s] by (metis list_all_append)

text \<open>The exponent that ends a number: nothing, or what \<open>show_exponent\<close> prints.\<close>

fun exponent_text :: "int option \<Rightarrow> string" where
  "exponent_text None = []"
| "exponent_text (Some e) = show_exponent e"

lemma read_exponent_text: "read_exponent (exponent_text x) = (x, [])"
proof (cases x)
  case (Some e)
  let ?ds = "show_nat (nat \<bar>e\<bar>)"
  let ?t = "if length ?ds < 2 then CHR ''0'' # ?ds else ?ds"
  have "digits_val (CHR ''0'' # ?ds) = digits_val ?ds"
    using digits_val_concat [of "''0''" ?ds] digits_val_zeros [of 1] by simp
  then have v: "digits_val ?t = nat \<bar>e\<bar>" by (simp add: digits_val_show_nat)
  have t: "?t \<noteq> []" "list_all is_digit ?t" using show_nat_digits by auto
  have "span_digits ?t = (?t, [])" using span_digits_prefix [OF t(2), of "[]"] by simp
  then show ?thesis using v t Some
    by (auto simp: read_exponent_def show_exponent_def Let_def split: if_splits)
qed (simp add: read_exponent_def)

lemma exponent_text_start: "exponent_text x = [] \<or> hd (exponent_text x) = CHR ''e''"
  by (cases x) (simp_all add: show_exponent_def)

lemma read_decimal_with_fraction:
  assumes "list_all is_digit ip" and "ip \<noteq> []" and "list_all is_digit fr"
  shows "read_decimal (with_fraction ip fr @ exponent_text x) =
    Some (of_nat (digits_val (ip @ fr)) * power10 ((case x of Some e \<Rightarrow> e | None \<Rightarrow> 0) - int (length fr)))"
proof (cases "strip_zeros fr = []")
  case True
  have "span_digits (ip @ exponent_text x) = (ip, exponent_text x)"
    using assms exponent_text_start [of x] by (intro span_digits_prefix) auto
  moreover have "\<not> (exponent_text x \<noteq> [] \<and> hd (exponent_text x) = CHR ''.'')"
    using exponent_text_start [of x] by auto
  ultimately show ?thesis using True assms strip_zeros_value [of ip fr "case x of Some e \<Rightarrow> e | None \<Rightarrow> 0"]
    by (auto simp: read_decimal_def with_fraction_def read_exponent_text)
next
  case False
  let ?f = "strip_zeros fr"
  have "span_digits (ip @ CHR ''.'' # ?f @ exponent_text x) = (ip, CHR ''.'' # ?f @ exponent_text x)"
    using assms by (intro span_digits_prefix) auto
  moreover have "span_digits (?f @ exponent_text x) = (?f, exponent_text x)"
    using strip_zeros_digits [OF assms(3)] exponent_text_start [of x]
    by (intro span_digits_prefix) auto
  ultimately show ?thesis using False assms strip_zeros_value [of ip fr "case x of Some e \<Rightarrow> e | None \<Rightarrow> 0"]
    by (simp add: read_decimal_def with_fraction_def read_exponent_text)
qed

lemma read_format_digits:
  assumes "list_all is_digit ds" and "length ds = n" and "0 < n"
  shows "read_decimal (format_digits n ds e) = Some (of_nat (digits_val ds) * power10 (e - int n + 1))"
proof -
  let ?z = "replicate (nat (- e - 1)) (CHR ''0'')"
  have z: "digits_val (''0'' @ ?z @ ds) = digits_val ds"
    using digits_val_concat [of "''0'' @ ?z" ds] digits_val_zeros [of "Suc (nat (- e - 1))"] by simp
  consider "-4 \<le> e \<and> e < 0" | "0 \<le> e \<and> e < int n" | "e < -4 \<or> int n \<le> e" by linarith
  then show ?thesis
  proof cases
    case 1
    have l: "- int (length (?z @ ds)) = e - int n + 1" using 1 assms(2) by simp
    have "list_all is_digit (?z @ ds)" using assms by simp
    then show ?thesis
      using 1 l z read_decimal_with_fraction [of "''0''" "?z @ ds" None]
      by (simp add: format_digits_def algebra_simps)
  next
    case 2
    let ?k = "nat e + 1"
    have l: "- int (length (drop ?k ds)) = e - int n + 1" using 2 assms(2) by auto
    have "list_all is_digit (take ?k ds)" "list_all is_digit (drop ?k ds)" "take ?k ds \<noteq> []"
      using assms by auto
    then show ?thesis
      using 2 l read_decimal_with_fraction [of "take ?k ds" "drop ?k ds" None]
      by (simp add: format_digits_def del: length_drop)
  next
    case 3
    have "e - int (length (drop 1 ds)) = e - int n + 1" using assms by auto
    then have l: "power10 (e - int (length (drop 1 ds))) = power10 (e - int n + 1)" by (rule arg_cong)
    have "list_all is_digit (take 1 ds)" "list_all is_digit (drop 1 ds)" "take 1 ds \<noteq> []"
      using assms by auto
    then show ?thesis
      using 3 l read_decimal_with_fraction [of "take 1 ds" "drop 1 ds" "Some e"]
      by (auto simp: format_digits_def simp del: length_drop)
  qed
qed

text \<open>The characters of a printed number, and its first one.\<close>

definition number_char :: "char \<Rightarrow> bool" where
  "number_char c = (is_digit c \<or> c \<in> {CHR ''.'', CHR ''e'', CHR ''-'', CHR ''+''})"

lemma with_fraction_chars:
  "list_all is_digit ip \<Longrightarrow> list_all is_digit fr \<Longrightarrow> list_all number_char (with_fraction ip fr)"
  using strip_zeros_digits [of fr] by (auto simp: with_fraction_def list_all_iff number_char_def)

lemma show_exponent_chars: "list_all number_char (show_exponent e)"
  using show_nat_digits [of "nat \<bar>e\<bar>"]
  by (auto simp: show_exponent_def list_all_iff number_char_def Let_def)

lemma format_digits_chars: "list_all is_digit ds \<Longrightarrow> list_all number_char (format_digits n ds e)"
  by (simp add: format_digits_def with_fraction_chars show_exponent_chars)

lemma format_g_chars: "list_all number_char (format_g n v)"
  by (auto simp: format_g_def number_char_def format_digits_chars show_nat_digits split: prod.splits)

lemma format_digits_hd:
  assumes "list_all is_digit ds" and "ds \<noteq> []"
  shows "\<exists>c t. format_digits n ds e = c # t \<and> is_digit c"
proof -
  have w: "\<exists>c t. with_fraction ip fr @ x = c # t \<and> is_digit c"
    if "list_all is_digit ip" "ip \<noteq> []" for ip fr x
    using that by (cases ip) (auto simp: with_fraction_def)
  show ?thesis
    using assms w [of "''0''" _ "[]"] w [of "take (Suc k) ds" _ "[]" for k] w [of "take 1 ds"]
    by (simp add: format_digits_def)
qed

lemma drop_underscores_id: "CHR ''_'' \<notin> set s \<Longrightarrow> drop_underscores b s = Some s"
  by (induction s arbitrary: b) auto

lemma to_lower_digit: "is_digit c \<Longrightarrow> to_lower c = c"
  by (auto simp: to_lower_def is_digit_def in_range_def)

lemma digit_no_special:
  assumes "is_digit c"
  shows "lower (c # t) \<notin> {''inf'', ''infinity'', ''nan''}"
proof -
  have "\<not> is_digit (CHR ''i'')" "\<not> is_digit (CHR ''n'')" by code_simp+
  then show ?thesis using assms by (auto simp: lower_def to_lower_digit)
qed

lemma number_char_plain: "number_char c \<Longrightarrow> \<not> is_space c \<and> c \<noteq> CHR ''_''"
  by (auto simp: number_char_def is_digit_not_space) (code_simp | simp)+

text \<open>Reading a sign and an unsigned number that starts with a digit.\<close>

lemma read_float_signed:
  assumes "list_all number_char t" and "t = c # u" and "is_digit c" and "read_decimal t = Some v"
  shows "read_float t = finite_float v" and "read_float (CHR ''-'' # t) = finite_float (- v)"
proof -
  have m: "c \<noteq> CHR ''-''" "c \<noteq> CHR ''+''" using assms(3) by auto
  have s: "strip x = x \<and> drop_underscores False x = Some x" if x: "list_all number_char x" for x
  proof
    show "strip x = x" by (rule strip_no_space) (use x number_char_plain in \<open>simp add: list_all_iff\<close>)
    have "CHR ''_'' \<notin> set x" using x number_char_plain [of "CHR ''_''"] by (auto simp: list_all_iff)
    then show "drop_underscores False x = Some x" by (rule drop_underscores_id)
  qed
  have "list_all number_char (CHR ''-'' # t)" using assms(1) by (simp add: number_char_def)
  from s [OF assms(1)] s [OF this] have r: "strip t = t" "drop_underscores False t = Some t"
    "strip (CHR ''-'' # t) = CHR ''-'' # t"
    "drop_underscores False (CHR ''-'' # t) = Some (CHR ''-'' # t)" by blast+
  have n: "lower t \<notin> {''inf'', ''infinity'', ''nan''}" using digit_no_special assms by blast
  have h: "t \<noteq> []" "hd t \<noteq> CHR ''-''" "hd t \<noteq> CHR ''+''" using m assms(2) by auto
  show "read_float t = finite_float v" "read_float (CHR ''-'' # t) = finite_float (- v)"
    using r n h assms(4) by (simp_all add: read_float_def)
qed

theorem read_format_g:
  assumes "0 < n"
  shows "read_float (format_g n v) = finite_float (round_sig n v)"
proof (cases "v = 0")
  case True
  have "read_decimal ''0'' = Some 0"
    using read_decimal_with_fraction [of "''0''" "[]" None] digits_val_zeros [of 1]
    by (simp add: with_fraction_def strip_zeros_def)
  then show ?thesis
    using True read_float_signed(1) [of "''0''" "CHR ''0''" "[]" 0]
    by (simp add: format_g_def round_sig_def number_char_def)
next
  case False
  obtain m e where me: "sig_digits n \<bar>v\<bar> = (m, e)" by force
  let ?ds = "show_nat m" and ?t = "format_digits n (show_nat m) e"
  have "10 ^ (n - 1) \<le> m" "m < 10 ^ Suc (n - 1)" using sig_digits_bounds [OF _ assms me] False assms by auto
  then have l: "length ?ds = n" using length_show_nat [of "n - 1" m] assms by simp
  have d: "list_all is_digit ?ds" by (rule show_nat_digits)
  have r: "read_decimal ?t = Some (of_nat m * power10 (e - int n + 1))"
    using read_format_digits [OF d l assms, of e] by (simp add: digits_val_show_nat)
  obtain c u where t: "?t = c # u" "is_digit c" using format_digits_hd [OF d, of n e] by auto
  note rd = read_float_signed [OF format_digits_chars [OF d] t r]
  show ?thesis using False rd me by (cases "v < 0") (simp_all add: format_g_def round_sig_def)
qed


section \<open>How far the rounding goes\<close>

lemma power10_less_imp: "power10 a < power10 b \<Longrightarrow> a < b"
  using power_int_increasing [of b a "10::rat"] by (auto simp: power10_powi not_less [symmetric])

text \<open>A carry to \<open>n + 1\<close> digits does not change what the digits denote.\<close>

lemma round_sig_eq:
  assumes "v \<noteq> 0" and "0 < n"
  shows "round_sig n v = sgn v *
    of_int (round_half_even (\<bar>v\<bar> * power10 (int n - 1 - sig_exponent \<bar>v\<bar>)))
    * power10 (sig_exponent \<bar>v\<bar> - int n + 1)"
proof -
  let ?e = "sig_exponent \<bar>v\<bar>"
  let ?x = "\<bar>v\<bar> * power10 (int n - 1 - ?e)"
  have "of_int 0 \<le> ?x" "?x \<le> of_int (\<lceil>?x\<rceil>)" by (simp_all add: less_imp_le)
  from round_half_even_bounds [OF this] have nn: "0 \<le> round_half_even ?x" by simp
  show ?thesis
  proof (cases "nat (round_half_even ?x) = 10 ^ n")
    case True
    with nn have r: "round_half_even ?x = 10 ^ n" by (metis int_nat_eq of_nat_numeral of_nat_power)
    have "(10::rat) ^ (n - 1) * power10 (?e + 1 - int n + 1) = 10 ^ n * power10 (?e - int n + 1)"
      using assms(2) by (simp flip: power10_nat power10_add add: of_nat_diff add.commute)
    then show ?thesis using assms(1) True r
      by (simp add: round_sig_def sig_digits_def Let_def mult.assoc)
  next
    case False
    then show ?thesis using assms(1) nn
      by (simp add: round_sig_def sig_digits_def Let_def of_nat_nat)
  qed
qed

lemma round_sig_near:
  assumes "0 < n"
  shows "\<bar>round_sig n v - v\<bar> \<le> \<bar>v\<bar> * power10 (1 - int n) / 2"
proof (cases "v = 0")
  case False
  let ?e = "sig_exponent \<bar>v\<bar>"
  let ?x = "\<bar>v\<bar> * power10 (int n - 1 - ?e)" and ?p = "power10 (?e - int n + 1)"
  have "?x * ?p = \<bar>v\<bar>" by (simp add: mult.assoc flip: power10_add) (simp add: power10_def)
  then have s: "v = sgn v * (?x * ?p)" by (simp only: sgn_mult_abs)
  have "round_sig n v - v = sgn v * (of_int (round_half_even ?x) * ?p) - sgn v * (?x * ?p)"
    by (subst (2) s) (simp add: round_sig_eq [OF False assms] mult.assoc)
  then have "round_sig n v - v = sgn v * ((of_int (round_half_even ?x) - ?x) * ?p)"
    by (simp add: right_diff_distrib left_diff_distrib)
  then have "\<bar>round_sig n v - v\<bar> = \<bar>of_int (round_half_even ?x) - ?x\<bar> * ?p"
    using False by (simp add: abs_mult abs_sgn_eq abs_of_pos)
  also have "\<dots> \<le> 1 / 2 * ?p" using round_half_even_near by (intro mult_right_mono) (simp_all add: less_imp_le)
  also have "\<dots> = power10 ?e * power10 (1 - int n) / 2" by (simp flip: power10_add add: algebra_simps)
  also have "\<dots> \<le> \<bar>v\<bar> * power10 (1 - int n) / 2"
    using sig_exponent_bounds [of "\<bar>v\<bar>"] False by (auto intro!: mult_right_mono simp: less_imp_le)
  finally show ?thesis .
qed (simp add: round_sig_def)

text \<open>A number with at most \<open>n\<close> significant digits is printed exactly.\<close>

lemma round_sig_short:
  assumes "0 < n" and "\<bar>v\<bar> = of_nat k * power10 j" and "k < 10 ^ n"
  shows "round_sig n v = v"
proof (cases "v = 0")
  case False
  let ?e = "sig_exponent \<bar>v\<bar>"
  let ?d = "j + int n - 1 - ?e"
  have "power10 ?e \<le> \<bar>v\<bar>" using sig_exponent_bounds [of "\<bar>v\<bar>"] False by simp
  also have "(of_nat k :: rat) < of_nat (10 ^ n)" using assms(3) by (simp only: of_nat_less_iff)
  then have "\<bar>v\<bar> < power10 (int n) * power10 j"
    unfolding assms(2) by (intro mult_strict_right_mono) (simp_all add: power10_nat)
  finally have "power10 ?e < power10 (int n + j)" by (simp add: power10_add)
  then have d: "0 \<le> ?d" using power10_less_imp by fastforce
  have x: "\<bar>v\<bar> * power10 (int n - 1 - ?e) = of_int (int k * 10 ^ nat ?d)"
    using d by (simp add: assms(2) mult.assoc flip: power10_add) (simp add: power10_def algebra_simps)
  have "\<bar>v\<bar> * power10 (int n - 1 - ?e) * power10 (?e - int n + 1) = \<bar>v\<bar>"
    by (simp add: mult.assoc flip: power10_add) (simp add: power10_def)
  then have "of_int (int k * 10 ^ nat ?d) * power10 (?e - int n + 1) = \<bar>v\<bar>" by (simp only: x)
  then show ?thesis
    by (simp only: round_sig_eq [OF False assms(1)] x round_half_even_int mult.assoc sgn_mult_abs)
qed (simp add: round_sig_def)

end
