(* ===== verification/Pattern.thy ===== *)
theory Pattern
  imports PyText
begin

text \<open>
  Regular expressions with the backtracking semantics of the module \<^verbatim>\<open>re\<close>. A pattern maps a
  text to the list of all its matches at the start of that text, in the order in which the
  engine tries them: each match is what its groups captured and the text that follows. So
  \<^verbatim>\<open>pattern.match(s)\<close> is the head of the list, a greedy repetition lists its longest match
  first, and an alternative that leads nowhere contributes nothing to the list. Character
  classes are the ASCII ones.

  \<open>leads p s x r\<close> says that the first match of \<open>p\<close> on \<open>s\<close> captures \<open>x\<close> and leaves
  \<open>r\<close>; its rules, one per combinator, are collected in \<open>leads_intros\<close>.
\<close>

named_theorems leads_intros "the first match of a pattern, one rule per combinator"

type_synonym 'a pattern = "string \<Rightarrow> ('a \<times> string) list"

section \<open>Combinators\<close>

definition re_ret :: "'a \<Rightarrow> 'a pattern" where
  "re_ret x s = [(x, s)]"

definition re_bind :: "'a pattern \<Rightarrow> ('a \<Rightarrow> 'b pattern) \<Rightarrow> 'b pattern" where
  "re_bind p f s = concat (map (\<lambda>(x, r). f x r) (p s))"

definition re_lit :: "string \<Rightarrow> unit pattern" where
  "re_lit w s = (if startswith s w then [((), drop (length w) s)] else [])"

text \<open>A class repeated greedily: \<open>re_run P\<close> is \<^verbatim>\<open>[P]*\<close>, \<open>re_run1 P\<close> is \<^verbatim>\<open>[P]+\<close>.\<close>

fun re_run :: "(char \<Rightarrow> bool) \<Rightarrow> string pattern" where
  "re_run P [] = [([], [])]"
| "re_run P (c # s) =
     (if P c then map (\<lambda>(w, r). (c # w, r)) (re_run P s) else []) @ [([], c # s)]"

definition re_run1 :: "(char \<Rightarrow> bool) \<Rightarrow> string pattern" where
  "re_run1 P s = filter (\<lambda>(w, r). w \<noteq> []) (re_run P s)"

text \<open>\<^verbatim>\<open>(p)?\<close>, greedy.\<close>

definition re_opt :: "'a pattern \<Rightarrow> 'a option pattern" where
  "re_opt p s = map (\<lambda>(x, r). (Some x, r)) (p s) @ [(None, s)]"

text \<open>
  \<^verbatim>\<open>(p)*\<close>, greedy, for a \<open>p\<close> that consumes at least one character: the length of the text
  bounds the number of rounds.
\<close>

fun re_rounds :: "nat \<Rightarrow> 'a pattern \<Rightarrow> 'a list pattern" where
  "re_rounds 0 p s = [([], s)]"
| "re_rounds (Suc n) p s =
     concat (map (\<lambda>(x, r). map (\<lambda>(xs, r'). (x # xs, r')) (re_rounds n p r)) (p s)) @ [([], s)]"

definition re_star :: "'a pattern \<Rightarrow> 'a list pattern" where
  "re_star p s = re_rounds (length s) p s"

text \<open>A group: the text that a pattern matched.\<close>

definition re_text :: "'a pattern \<Rightarrow> string pattern" where
  "re_text p s = map (\<lambda>(x, r). (take (length s - length r) s, r)) (p s)"

definition re_match :: "'a pattern \<Rightarrow> string \<Rightarrow> 'a option" where
  "re_match p s = (case p s of [] \<Rightarrow> None | (x, r) # _ \<Rightarrow> Some x)"

text \<open>
  \<^verbatim>\<open>pattern.findall(s)\<close> for a pattern that consumes at least one character: after a match the
  scan goes on behind it, otherwise at the next character.
\<close>

fun re_scan :: "nat \<Rightarrow> 'a pattern \<Rightarrow> string \<Rightarrow> 'a list" where
  "re_scan 0 p s = []"
| "re_scan (Suc n) p s =
     (case p s of
        (x, r) # _ \<Rightarrow> x # re_scan n p r
      | [] \<Rightarrow> (case s of [] \<Rightarrow> [] | c # t \<Rightarrow> re_scan n p t))"

definition re_findall :: "'a pattern \<Rightarrow> string \<Rightarrow> 'a list" where
  "re_findall p s = re_scan (length s + 1) p s"

text \<open>The classes \<^verbatim>\<open>\s\<close> (\<open>is_space\<close>), \<^verbatim>\<open>\d\<close> (\<open>is_digit\<close>) and \<^verbatim>\<open>\w\<close>.\<close>

definition is_word :: "char \<Rightarrow> bool" where
  "is_word c = (is_digit c \<or> in_range 65 90 c \<or> in_range 97 122 c \<or> c = CHR ''_'')"


section \<open>First matches\<close>

definition leads :: "'a pattern \<Rightarrow> string \<Rightarrow> 'a \<Rightarrow> string \<Rightarrow> bool" where
  "leads p s x r = (\<exists>t. p s = (x, r) # t)"

lemma leads_match: "leads p s x r \<Longrightarrow> re_match p s = Some x"
  by (auto simp: leads_def re_match_def)

lemma no_match: "p s = [] \<Longrightarrow> re_match p s = None"
  by (simp add: re_match_def)

lemma leads_ret [leads_intros]: "leads (re_ret x) s x s"
  by (simp add: leads_def re_ret_def)

lemma leads_bind: "leads p s x r \<Longrightarrow> leads (f x) r y r' \<Longrightarrow> leads (re_bind p f) s y r'"
  by (auto simp: leads_def re_bind_def)

lemma leads_lit [leads_intros]: "leads (re_lit w) (w @ r) () r"
  by (simp add: leads_def re_lit_def startswith_def)

lemma leads_run [leads_intros]:
  "list_all P w \<Longrightarrow> r = [] \<or> \<not> P (hd r) \<Longrightarrow> leads (re_run P) (w @ r) w r"
proof (induction w)
  case Nil
  then show ?case by (cases r) (auto simp: leads_def)
next
  case (Cons c w)
  then show ?case by (auto simp: leads_def)
qed

lemma leads_run1 [leads_intros]:
  "list_all P w \<Longrightarrow> w \<noteq> [] \<Longrightarrow> r = [] \<or> \<not> P (hd r) \<Longrightarrow> leads (re_run1 P) (w @ r) w r"
  using leads_run [of P w r] by (auto simp: leads_def re_run1_def)

lemma leads_opt: "leads p s x r \<Longrightarrow> leads (re_opt p) s (Some x) r"
  by (auto simp: leads_def re_opt_def)

lemma leads_opt_none: "p s = [] \<Longrightarrow> leads (re_opt p) s None s"
  by (simp add: leads_def re_opt_def)

lemma leads_text: "leads p (w @ r) x r \<Longrightarrow> leads (re_text p) (w @ r) w r"
  by (auto simp: leads_def re_text_def)

text \<open>A repetition goes on as long as its body matches, within the bound on the rounds.\<close>

lemma leads_rounds_stop: "p s = [] \<Longrightarrow> leads (re_rounds n p) s [] s"
  by (cases n) (simp_all add: leads_def)

lemma leads_rounds:
  "leads p s x r \<Longrightarrow> leads (re_rounds n p) r xs r' \<Longrightarrow> leads (re_rounds (Suc n) p) s (x # xs) r'"
  by (auto simp: leads_def)

lemma re_scan_leads: "leads p s x r \<Longrightarrow> re_scan (Suc n) p s = x # re_scan n p r"
  by (auto simp: leads_def)

lemma re_scan_skip: "p (c # s) = [] \<Longrightarrow> re_scan (Suc n) p (c # s) = re_scan n p s"
  by simp

text \<open>Where a run of word characters is not followed by the literal the pattern asks for, it fails.\<close>

lemma re_run_split: "(w, r) \<in> set (re_run P s) \<Longrightarrow> s = w @ r \<and> list_all P w"
  by (induction s arbitrary: w) (auto split: if_splits)

lemma run1_lit_fails:
  assumes "list_all P w" and "\<not> P c" and "c \<noteq> d" and "\<not> P d"
  shows "re_bind (re_run1 P) (\<lambda>x. re_bind (re_lit (d # ds)) (f x)) (w @ c # r) = []"
proof -
  have "re_bind (re_lit (d # ds)) (f x) r' = []" if m: "(x, r') \<in> set (re_run P (w @ c # r))" for x r'
  proof -
    have s: "w @ c # r = x @ r'" "list_all P x" using re_run_split [OF m] by auto
    have "\<not> (\<exists>q. r' = d # q)"
    proof
      assume "\<exists>q. r' = d # q"
      then obtain q where q: "r' = d # q" by blast
      have "takeWhile P (w @ c # r) = w" "takeWhile P (x @ d # q) = x"
        using assms s(2) by (auto simp: takeWhile_append2 list_all_iff)
      then show False using s(1) q assms(3) by auto
    qed
    then show ?thesis by (cases r') (auto simp: re_bind_def re_lit_def startswith_def)
  qed
  then show ?thesis by (auto simp: re_bind_def [of "re_run1 P"] re_run1_def)
qed

lemma bind_fails: "p s = [] \<Longrightarrow> re_bind p f s = []"
  by (simp add: re_bind_def)

lemma lit_fails: "\<not> startswith s w \<Longrightarrow> re_bind (re_lit w) f s = []"
  by (simp add: re_bind_def re_lit_def)

end
