(* ===== verification/Qasm.thy ===== *)
theory Qasm
  imports IR Decimal Pattern
begin

text \<open>
  \<open>server/qasm.py\<close>: the conversion between OpenQASM text and \<open>NativeGateIR\<close> for the targets
  \<open>cz\<close> and \<open>cnot\<close>. The patterns are written with the combinators of \<open>Pattern\<close>, so a
  line is matched as the \<^verbatim>\<open>re\<close> module matches it (at its start; what follows the match is not
  looked at). A conversion stops with the exception it raises, or with \<open>Beyond_Floats\<close> where a
  parameter is infinite or not a number, which the IR of this development does not have.

  Parameters: \<open>float_repr\<close> is \<^verbatim>\<open>repr\<close> of a float (it appears in one error message only), and
  \<open>now\<close> is the text of the current time, used when no metadata is given.
\<close>

section \<open>Patterns\<close>

definition re_space :: "'a pattern \<Rightarrow> 'a pattern" where
  "re_space p = re_bind (re_run is_space) (\<lambda>_. p)"

definition re_spaces :: "'a pattern \<Rightarrow> 'a pattern" where
  "re_spaces p = re_bind (re_run1 is_space) (\<lambda>_. p)"

definition HEADER_RE :: "unit pattern" where
  "HEADER_RE = re_bind (re_lit ''OPENQASM'') (\<lambda>_. re_spaces
     (re_bind (re_run1 (\<lambda>c. is_digit c \<or> c = CHR ''.'')) (\<lambda>_. re_space (re_lit '';''))))"

definition INCLUDE_RE :: "unit pattern" where
  "INCLUDE_RE = re_bind (re_lit ''include'') (\<lambda>_. re_spaces
     (re_bind (re_lit [CHR 0x22]) (\<lambda>_. re_bind (re_run1 (\<lambda>c. c \<noteq> CHR 0x22)) (\<lambda>_.
      re_bind (re_lit [CHR 0x22]) (\<lambda>_. re_space (re_lit '';''))))))"

text \<open>\<^verbatim>\<open>kw\[(\d+)]\s+\w+\s*;\<close>\<close>

definition register_re :: "string \<Rightarrow> string pattern" where
  "register_re kw = re_bind (re_lit (kw @ ''['')) (\<lambda>_. re_bind (re_run1 is_digit) (\<lambda>n.
     re_bind (re_lit '']'') (\<lambda>_. re_spaces (re_bind (re_run1 is_word) (\<lambda>_.
      re_space (re_bind (re_lit '';'') (\<lambda>_. re_ret n)))))))"

definition QUBIT_DECL_RE :: "string pattern" where
  "QUBIT_DECL_RE = register_re ''qubit''"

definition BIT_DECL_RE :: "string pattern" where
  "BIT_DECL_RE = register_re ''bit''"

text \<open>\<^verbatim>\<open>\w+\[(\d+)]\<close>\<close>

definition QUBIT_REF_RE :: "string pattern" where
  "QUBIT_REF_RE = re_bind (re_run1 is_word) (\<lambda>_. re_bind (re_lit ''['') (\<lambda>_.
     re_bind (re_run1 is_digit) (\<lambda>n. re_bind (re_lit '']'') (\<lambda>_. re_ret n))))"

definition MEASURE_RE :: "(string \<times> string) pattern" where
  "MEASURE_RE = re_bind QUBIT_REF_RE (\<lambda>a. re_space (re_bind (re_lit ''='') (\<lambda>_. re_space
     (re_bind (re_lit ''measure'') (\<lambda>_. re_spaces (re_bind QUBIT_REF_RE (\<lambda>b.
      re_space (re_bind (re_lit '';'') (\<lambda>_. re_ret (a, b))))))))))"

definition operand_re :: "string pattern" where
  "operand_re = re_space (re_bind (re_lit '','') (\<lambda>_. re_space QUBIT_REF_RE))"

definition operands_re :: "string list pattern" where
  "operands_re = re_bind QUBIT_REF_RE (\<lambda>q. re_bind (re_star operand_re) (\<lambda>qs. re_ret (q # qs)))"

definition arguments_re :: "string pattern" where
  "arguments_re = re_bind (re_lit ''('') (\<lambda>_. re_bind (re_run (\<lambda>c. c \<noteq> CHR '')'')) (\<lambda>ps.
     re_bind (re_lit '')'') (\<lambda>_. re_ret ps)))"

definition GATE_RE :: "(string \<times> string option \<times> string) pattern" where
  "GATE_RE = re_bind (re_run1 is_word) (\<lambda>name. re_bind (re_opt arguments_re) (\<lambda>ps. re_spaces
     (re_bind (re_text operands_re) (\<lambda>qs. re_space (re_bind (re_lit '';'') (\<lambda>_.
      re_ret (name, ps, qs)))))))"


section \<open>Numbers\<close>

definition format_float :: "pyfloat \<Rightarrow> string" where
  "format_float v = format_g 15 v"

text \<open>The double \<^verbatim>\<open>math.pi / 2\<close>, exactly.\<close>

definition HALF_PI :: pyfloat where
  "HALF_PI = 884279719003555 / 562949953421312"

text \<open>\<^verbatim>\<open>math.isclose(a, b, rel_tol=1e-12, abs_tol=1e-12)\<close>\<close>

definition isclose :: "pyfloat \<Rightarrow> pyfloat \<Rightarrow> bool" where
  "isclose a b =
     (a = b \<or> \<bar>b - a\<bar> \<le> \<bar>b\<bar> / 10 ^ 12 \<or> \<bar>b - a\<bar> \<le> \<bar>a\<bar> / 10 ^ 12 \<or> \<bar>b - a\<bar> \<le> 1 / 10 ^ 12)"

datatype qasm_halt = Raised exn | Beyond_Floats

definition qasm_error :: "string \<Rightarrow> qasm_halt" where
  "qasm_error t = Raised (Exn QASMConversionError t)"

definition bad_float :: "string \<Rightarrow> qasm_halt" where
  "bad_float t = Raised (Exn ValueError (''could not convert string to float: '' @ py_repr t))"

fun read_floats :: "string list \<Rightarrow> qasm_halt + pyfloat list" where
  "read_floats [] = Inr []"
| "read_floats (p # ps) =
     (case read_float (strip p) of
        Not_Number \<Rightarrow> Inl (bad_float (strip p))
      | Nonfinite \<Rightarrow> Inl Beyond_Floats
      | Finite v \<Rightarrow> (case read_floats ps of Inl e \<Rightarrow> Inl e | Inr vs \<Rightarrow> Inr (v # vs)))"

definition read_arguments :: "string option \<Rightarrow> qasm_halt + pyfloat list" where
  "read_arguments g =
     (case g of
        None \<Rightarrow> Inr []
      | Some t \<Rightarrow> if t = [] then Inr [] else read_floats (split_on (CHR '','') t))"


section \<open>Gates\<close>

text \<open>\<^verbatim>\<open>GateOp(...)\<close>: the shape validator runs when the object is built.\<close>

definition new_gate_op :: "native_gate \<Rightarrow> int list \<Rightarrow> pyfloat list \<Rightarrow> qasm_halt + gate_op" where
  "new_gate_op g qs ps =
     (case validate_gate_shape \<lparr>op_gate = g, op_qubits = qs, op_params = ps\<rparr> of
        Inl e \<Rightarrow> Inl (Raised (Exn ValidationError (ir_error_text e)))
      | Inr op \<Rightarrow> Inr op)"

definition cz_map :: "(string \<times> native_gate \<times> bool) list" where
  "cz_map = [(''rx'', RX, True), (''ry'', RY, True), (''rz'', RZ, True), (''cz'', CZ, False), (''id'', ID, False)]"

definition cnot_simple :: "(string \<times> native_gate \<times> bool) list" where
  "cnot_simple = [(''sx'', X90, False), (''rz'', VIRTUAL_Z, True), (''cx'', CNOT, False), (''id'', ID, False)]"

definition quoted :: "string \<Rightarrow> string" where
  "quoted s = [CHR 0x27] @ s @ [CHR 0x27]"

definition mapped_gate :: "native_gate \<times> bool \<Rightarrow> pyfloat list \<Rightarrow> int list \<Rightarrow> qasm_halt + gate_op" where
  "mapped_gate row params qubits =
     (case row of (ir_gate, has_params) \<Rightarrow>
        if ir_gate = ID then new_gate_op ir_gate qubits [0]
        else new_gate_op ir_gate qubits (if has_params then params else []))"

definition openqasm_gate_to_ir_cz :: "string \<Rightarrow> pyfloat list \<Rightarrow> int list \<Rightarrow> qasm_halt + gate_op" where
  "openqasm_gate_to_ir_cz name params qubits =
     (case map_of cz_map name of
        None \<Rightarrow> Inl (qasm_error (''Gate '' @ quoted name @ '' not supported for cz''))
      | Some row \<Rightarrow> mapped_gate row params qubits)"

definition openqasm_gate_to_ir_cnot ::
    "(pyfloat \<Rightarrow> string) \<Rightarrow> string \<Rightarrow> pyfloat list \<Rightarrow> int list \<Rightarrow> qasm_halt + gate_op" where
  "openqasm_gate_to_ir_cnot float_repr name params qubits =
     (case map_of cnot_simple name of
        Some row \<Rightarrow> mapped_gate row params qubits
      | None \<Rightarrow>
          if name = ''ry'' \<and> length params = 1 then
            (if isclose (hd params) (- HALF_PI) then new_gate_op Y_MINUS_90 qubits []
             else Inl (qasm_error (''ry('' @ float_repr (hd params) @
               '') not representable in cnot (only ry(-'' @ [CHR 0xCF, CHR 0x80] @
               ''/2) maps to y_minus_90)'')))
          else Inl (qasm_error (''Gate '' @ quoted name @ '' not supported for cnot'')))"

definition openqasm_gate_to_ir ::
    "(pyfloat \<Rightarrow> string) \<Rightarrow> string \<Rightarrow> pyfloat list \<Rightarrow> int list \<Rightarrow> string \<Rightarrow> qasm_halt + gate_op" where
  "openqasm_gate_to_ir float_repr name params qubits target =
     (if target = ''cz'' then openqasm_gate_to_ir_cz name params qubits
      else if target = ''cnot'' then openqasm_gate_to_ir_cnot float_repr name params qubits
      else Inl (qasm_error (''Unsupported target: '' @ target)))"


section \<open>From text to circuits\<close>

record qasm_state =
  q_num_qubits :: "int option"
  q_gates :: "gate_op list"
  q_measurements :: "int list"

definition read_int_group :: "string \<Rightarrow> int" where
  "read_int_group ds = int (digits_val ds)"

definition skipped_line :: "string \<Rightarrow> bool" where
  "skipped_line line =
     (line = [] \<or> startswith line ''//'' \<or> re_match HEADER_RE line \<noteq> None
      \<or> re_match INCLUDE_RE line \<noteq> None \<or> re_match BIT_DECL_RE line \<noteq> None)"

definition read_gate ::
    "(pyfloat \<Rightarrow> string) \<Rightarrow> string \<Rightarrow> string \<times> string option \<times> string \<Rightarrow> qasm_halt + gate_op" where
  "read_gate float_repr target m =
     (case m of (name, args, operands) \<Rightarrow>
        (case read_arguments args of
           Inl e \<Rightarrow> Inl e
         | Inr params \<Rightarrow>
             openqasm_gate_to_ir float_repr name params
               (map read_int_group (re_findall QUBIT_REF_RE operands)) target))"

definition read_line ::
    "(pyfloat \<Rightarrow> string) \<Rightarrow> string \<Rightarrow> qasm_state \<Rightarrow> string \<Rightarrow> qasm_halt + qasm_state" where
  "read_line float_repr target st line =
     (if skipped_line line then Inr st
      else case re_match QUBIT_DECL_RE line of
        Some n \<Rightarrow>
          if q_num_qubits st \<noteq> None
          then Inl (qasm_error ''Multiple qubit register declarations are not supported'')
          else Inr (st\<lparr>q_num_qubits := Some (read_int_group n)\<rparr>)
      | None \<Rightarrow>
          (case re_match MEASURE_RE line of
             Some (b, q) \<Rightarrow> Inr (st\<lparr>q_measurements := q_measurements st @ [read_int_group q]\<rparr>)
           | None \<Rightarrow>
               (case re_match GATE_RE line of
                  Some m \<Rightarrow>
                    (case read_gate float_repr target m of
                       Inl e \<Rightarrow> Inl e
                     | Inr op \<Rightarrow> Inr (st\<lparr>q_gates := q_gates st @ [op]\<rparr>))
                | None \<Rightarrow> Inl (qasm_error (''Unsupported QASM line: '' @ py_repr line)))))"

fun read_lines ::
    "(pyfloat \<Rightarrow> string) \<Rightarrow> string \<Rightarrow> qasm_state \<Rightarrow> string list \<Rightarrow> qasm_halt + qasm_state" where
  "read_lines float_repr target st [] = Inr st"
| "read_lines float_repr target st (raw # rest) =
     (case read_line float_repr target st (strip raw) of
        Inl e \<Rightarrow> Inl e
      | Inr st' \<Rightarrow> read_lines float_repr target st' rest)"

definition placeholder_metadata :: "string \<Rightarrow> ir_metadata" where
  "placeholder_metadata now =
     \<lparr>source_hash = ''sha256:from-qasm'', compiled_at = now, compiler_version = ''0.1.0'',
      optimization_level = 2\<rparr>"

definition openqasm_to_ir ::
    "(pyfloat \<Rightarrow> string) \<Rightarrow> string \<Rightarrow> string \<Rightarrow> string \<Rightarrow> ir_metadata option
     \<Rightarrow> qasm_halt + native_gate_ir" where
  "openqasm_to_ir float_repr now qasm target metadata =
     (case read_lines float_repr target
             \<lparr>q_num_qubits = None, q_gates = [], q_measurements = []\<rparr> (splitlines (strip qasm)) of
        Inl e \<Rightarrow> Inl e
      | Inr st \<Rightarrow>
          (case q_num_qubits st of
             None \<Rightarrow> Inl (qasm_error ''No qubit register declaration found'')
           | Some n \<Rightarrow>
               (case make_ir \<lparr>ir_version = ''1.0'', ir_target = target, ir_num_qubits = n,
                        ir_gates = q_gates st, ir_measurements = q_measurements st,
                        ir_metadata = (case metadata of Some md \<Rightarrow> md
                                       | None \<Rightarrow> placeholder_metadata now)\<rparr> of
                  Inl e \<Rightarrow> Inl (qasm_error (ir_error_text e))
                | Inr ir \<Rightarrow> Inr ir)))"


section \<open>From circuits to text\<close>

definition ir_gate_to_openqasm_cz :: "string \<Rightarrow> pyfloat list \<Rightarrow> string \<Rightarrow> exn + string" where
  "ir_gate_to_openqasm_cz name params qubits_str =
     (if name \<in> {''rx'', ''ry'', ''rz''}
      then Inr (name @ ''('' @ join '', '' (map format_float params) @ '') '' @ qubits_str @ '';'')
      else if name = ''virtual_z'' then
        (case params of
           [] \<Rightarrow> Inl (Exn QASMConversionError
                   (''IR gate '' @ quoted ''virtual_z'' @ '' requires exactly one parameter''))
         | p # _ \<Rightarrow> Inr (''rz('' @ format_float p @ '') '' @ qubits_str @ '';''))
      else if name \<in> {''cz'', ''id''} then Inr (name @ '' '' @ qubits_str @ '';'')
      else Inl (Exn QASMConversionError
             (''IR gate '' @ quoted name @ '' has no OpenQASM mapping for cz'')))"

definition ir_gate_to_openqasm_cnot :: "string \<Rightarrow> pyfloat list \<Rightarrow> string \<Rightarrow> exn + string" where
  "ir_gate_to_openqasm_cnot name params qubits_str =
     (if name = ''x90'' then Inr (''sx '' @ qubits_str @ '';'')
      else if name = ''y_minus_90''
      then Inr (''ry('' @ format_float (- HALF_PI) @ '') '' @ qubits_str @ '';'')
      else if name = ''virtual_z'' then
        (case params of
           [] \<Rightarrow> Inl (Exn IndexError ''list index out of range'')
         | p # _ \<Rightarrow> Inr (''rz('' @ format_float p @ '') '' @ qubits_str @ '';''))
      else if name = ''cnot'' then Inr (''cx '' @ qubits_str @ '';'')
      else if name = ''id'' then Inr (''id '' @ qubits_str @ '';'')
      else Inl (Exn QASMConversionError
             (''IR gate '' @ quoted name @ '' has no OpenQASM mapping for cnot'')))"

definition operand_text :: "int \<Rightarrow> string" where
  "operand_text q = ''q['' @ show_int q @ '']''"

definition ir_gate_to_openqasm :: "gate_op \<Rightarrow> string \<Rightarrow> exn + string" where
  "ir_gate_to_openqasm op target =
     (let name = gate_value (op_gate op);
          qubits_str = join '', '' (map operand_text (op_qubits op))
      in if target = ''cz'' then ir_gate_to_openqasm_cz name (op_params op) qubits_str
         else if target = ''cnot'' then ir_gate_to_openqasm_cnot name (op_params op) qubits_str
         else Inl (Exn QASMConversionError (''Unsupported target: '' @ target)))"

fun gate_lines :: "string \<Rightarrow> gate_op list \<Rightarrow> exn + string list" where
  "gate_lines target [] = Inr []"
| "gate_lines target (op # ops) =
     (case ir_gate_to_openqasm op target of
        Inl e \<Rightarrow> Inl e
      | Inr l \<Rightarrow> (case gate_lines target ops of Inl e \<Rightarrow> Inl e | Inr ls \<Rightarrow> Inr (l # ls)))"

fun measure_lines :: "nat \<Rightarrow> int list \<Rightarrow> string list" where
  "measure_lines i [] = []"
| "measure_lines i (q # qs) =
     (''c['' @ show_nat i @ ''] = measure '' @ operand_text q @ '';'') # measure_lines (Suc i) qs"

definition header_lines :: "native_gate_ir \<Rightarrow> string list" where
  "header_lines ir =
     [''OPENQASM 3.0;'', ''include '' @ [CHR 0x22] @ ''stdgates.inc'' @ [CHR 0x22] @ '';'',
      ''qubit['' @ show_int (ir_num_qubits ir) @ ''] q;'']
     @ (if ir_measurements ir = [] then []
        else [''bit['' @ show_nat (length (ir_measurements ir)) @ ''] c;''])"

definition ir_to_openqasm :: "native_gate_ir \<Rightarrow> exn + string" where
  "ir_to_openqasm ir =
     (case gate_lines (ir_target ir) (ir_gates ir) of
        Inl e \<Rightarrow> Inl e
      | Inr ls \<Rightarrow>
          Inr (join newline (header_lines ir @ ls @ measure_lines 0 (ir_measurements ir)) @ newline))"

end
