(* ===== verification/Qasm_Props.thy ===== *)
theory Qasm_Props
  imports Qasm
begin

text \<open>
  What the OpenQASM conversion guarantees: the text that \<open>ir_to_openqasm\<close> prints for a
  circuit over the supported gates is read back as that circuit, with every parameter rounded
  to 15 significant digits and every \<open>id\<close> duration set to zero; whatever text is read, the
  result is a well-formed circuit; and what the reader does not notice or does not report as
  \<open>QASMConversionError\<close>.
\<close>

section \<open>Lines of text\<close>

text \<open>A line as it is printed: not empty, no line end in it, no blank at either end.\<close>

definition plain_line :: "string \<Rightarrow> bool" where
  "plain_line l = (l \<noteq> [] \<and> \<not> is_space (hd l) \<and> \<not> is_space (last l) \<and> list_all (\<lambda>c. \<not> is_line_end c) l)"

lemma splitlines_acc_line:
  "list_all (\<lambda>c. \<not> is_line_end c) l \<Longrightarrow>
   splitlines_acc False acc (l @ s) = splitlines_acc False (rev l @ acc) s"
  by (induction l arbitrary: acc) auto

lemma join_Cons: "ls \<noteq> [] \<Longrightarrow> join sep (l # ls) = l @ sep @ join sep ls"
  by (cases ls) (auto simp: join_def)

lemma splitlines_join: "list_all plain_line ls \<Longrightarrow> splitlines (join newline ls) = ls"
proof (induction ls)
  case Nil
  then show ?case by (simp add: join_def splitlines_def)
next
  case (Cons l ls)
  have l: "l \<noteq> []" "list_all (\<lambda>c. \<not> is_line_end c) l" using Cons.prems by (auto simp: plain_line_def)
  have nl: "newline = [CHR 0x0A]" "is_line_end (CHR 0x0A)" "byte (CHR 0x0A) \<noteq> 13"
    by (simp add: newline_def char_of_literals) code_simp+
  have s: "splitlines_acc False acc (newline @ x) = rev acc # splitlines_acc False [] x" for acc x
    unfolding nl(1) using nl(2,3) by simp
  show ?case
  proof (cases "ls = []")
    case True
    then show ?thesis using l splitlines_acc_line [OF l(2), of "[]" "[]"] by (simp add: join_def splitlines_def)
  next
    case False
    then show ?thesis
      using Cons l s splitlines_acc_line [OF l(2), of "[]" "newline @ join newline ls"]
      by (simp add: join_Cons splitlines_def)
  qed
qed

lemma join_ends:
  assumes "list_all plain_line ls" and "ls \<noteq> []"
  shows "join newline ls \<noteq> [] \<and> \<not> is_space (hd (join newline ls)) \<and> \<not> is_space (last (join newline ls))"
  using assms
proof (induction ls)
  case (Cons l ls)
  then show ?case
  proof (cases "ls = []")
    case False
    then show ?thesis using Cons by (simp add: join_Cons plain_line_def)
  qed (simp add: join_def plain_line_def)
qed simp

lemma printed_lines:
  "list_all plain_line ls \<Longrightarrow> ls \<noteq> [] \<Longrightarrow> splitlines (strip (join newline ls @ newline)) = ls"
  using join_ends strip_newline splitlines_join by metis


section \<open>Operands\<close>

lemma class_facts [simp]:
  "\<not> is_word (CHR ''['')" "\<not> is_word (CHR ''('')" "\<not> is_word (CHR '' '')" "\<not> is_word (CHR '','')"
  "\<not> is_word (CHR '';'')" "is_word (CHR ''q'')" "is_word (CHR ''c'')"
  "\<not> is_digit (CHR '']'')" "is_space (CHR '' '')" "\<not> is_space (CHR '';'')" "\<not> is_space (CHR ''q'')"
  "\<not> is_space (CHR ''c'')" "\<not> is_space (CHR ''='')" "\<not> is_space (CHR ''m'')" "\<not> is_space (CHR '','')"
  by code_simp+

definition index_text :: "int \<Rightarrow> string" where
  "index_text q = show_nat (nat q)"

lemma index_text_digits: "list_all is_digit (index_text q)" "index_text q \<noteq> []"
  by (simp_all add: index_text_def show_nat_digits)

lemma operand_text_index: "0 \<le> q \<Longrightarrow> operand_text q = ''q['' @ index_text q @ '']''"
  by (simp add: operand_text_def index_text_def show_int_def)

lemma read_index_text: "0 \<le> q \<Longrightarrow> read_int_group (index_text q) = q"
  by (simp add: read_int_group_def index_text_def digits_val_show_nat)

lemma leads_ref:
  assumes "list_all is_word w" and "w \<noteq> []" and "list_all is_digit n" and "n \<noteq> []"
  shows "leads QUBIT_REF_RE (w @ ''['' @ n @ '']'' @ r) n r"
  unfolding QUBIT_REF_RE_def using assms
  by (intro leads_bind [OF leads_run1] leads_bind [OF leads_lit] leads_ret) auto

lemma leads_operand: "0 \<le> q \<Longrightarrow> leads QUBIT_REF_RE (operand_text q @ r) (index_text q) r"
  using leads_ref [of "''q''" "index_text q" r] index_text_digits by (simp add: operand_text_index)

lemma leads_space: "w = [] \<or> w = '' '' \<Longrightarrow> \<not> is_space c \<Longrightarrow> leads p (c # r) x r' \<Longrightarrow> leads (re_space p) (w @ c # r) x r'"
  unfolding re_space_def by (rule leads_bind [OF leads_run]) auto

lemma leads_spaces: "\<not> is_space c \<Longrightarrow> leads p (c # r) x r' \<Longrightarrow> leads (re_spaces p) (CHR '' '' # c # r) x r'"
  unfolding re_spaces_def using leads_bind [OF leads_run1 [of is_space "'' ''" "c # r"]] by auto

lemma operand_text_hd: "\<exists>t. operand_text q = CHR ''q'' # t"
  by (simp add: operand_text_def)

lemma leads_next_operand: "0 \<le> q \<Longrightarrow> leads operand_re ('', '' @ operand_text q @ r) (index_text q) r"
proof -
  assume q: "0 \<le> q"
  obtain t where t: "operand_text q = CHR ''q'' # t" using operand_text_hd by blast
  have "leads (re_space QUBIT_REF_RE) ('' '' @ CHR ''q'' # t @ r) (index_text q) r"
    using leads_operand [OF q, of r] t by (intro leads_space) auto
  then have "leads (re_bind (re_lit '','') (\<lambda>_. re_space QUBIT_REF_RE)) ('','' @ '' '' @ operand_text q @ r)
      (index_text q) r" using t by (intro leads_bind [OF leads_lit]) simp
  then show ?thesis
    using leads_space [of "[]" "CHR '',''" _ "'' '' @ operand_text q @ r"] by (simp add: operand_re_def)
qed

lemma operand_stops: "operand_re (CHR '';'' # r) = []"
  by (simp add: operand_re_def re_space_def re_bind_def re_lit_def startswith_def)

abbreviation more_operands :: "int list \<Rightarrow> string" where
  "more_operands qs \<equiv> concat (map (\<lambda>q. '', '' @ operand_text q) qs)"

lemma leads_more_operands:
  "list_all (\<lambda>q. 0 \<le> q) qs \<Longrightarrow> length qs \<le> n \<Longrightarrow>
   leads (re_rounds n operand_re) (more_operands qs @ CHR '';'' # r) (map index_text qs) (CHR '';'' # r)"
proof (induction qs arbitrary: n)
  case Nil
  then show ?case by (simp add: leads_rounds_stop operand_stops)
next
  case (Cons q qs)
  then obtain k where k: "n = Suc k" "length qs \<le> k" by (cases n) auto
  have "leads operand_re ('', '' @ operand_text q @ more_operands qs @ CHR '';'' # r) (index_text q)
          (more_operands qs @ CHR '';'' # r)"
    using Cons.prems by (intro leads_next_operand) simp
  from leads_rounds [OF this Cons.IH, of k] Cons.prems k show ?case by (simp del: re_rounds.simps)
qed

lemma join_operands: "join '', '' (map operand_text (q # qs)) = operand_text q @ more_operands qs"
  by (simp add: join_def o_def)

lemma more_operands_length: "3 * length qs \<le> length (more_operands qs)"
  by (induction qs) (auto simp: operand_text_def)

lemma leads_operands:
  assumes "list_all (\<lambda>q. 0 \<le> q) (q # qs)"
  shows "leads (re_text operands_re) (join '', '' (map operand_text (q # qs)) @ CHR '';'' # r)
    (join '', '' (map operand_text (q # qs))) (CHR '';'' # r)"
proof (rule leads_text)
  have l: "length qs \<le> length (more_operands qs @ CHR '';'' # r)" using more_operands_length [of qs] by simp
  show "leads operands_re (join '', '' (map operand_text (q # qs)) @ CHR '';'' # r)
      (index_text q # map index_text qs) (CHR '';'' # r)"
    unfolding operands_re_def join_operands append_assoc
  proof (rule leads_bind)
    show "leads QUBIT_REF_RE (operand_text q @ more_operands qs @ CHR '';'' # r) (index_text q)
        (more_operands qs @ CHR '';'' # r)" using assms by (intro leads_operand) simp
    have "leads (re_star operand_re) (more_operands qs @ CHR '';'' # r) (map index_text qs) (CHR '';'' # r)"
      using leads_more_operands [OF _ l] assms by (simp add: leads_def re_star_def)
    then show "leads (re_bind (re_star operand_re) (\<lambda>qs. re_ret (index_text q # qs)))
        (more_operands qs @ CHR '';'' # r) (index_text q # map index_text qs) (CHR '';'' # r)"
      by (rule leads_bind) (rule leads_ret)
  qed
qed

lemma scan_operands:
  "list_all (\<lambda>q. 0 \<le> q) qs \<Longrightarrow> 3 * length qs < n \<Longrightarrow>
   re_scan n QUBIT_REF_RE (more_operands qs) = map index_text qs"
proof (induction qs arbitrary: n)
  case Nil
  have "QUBIT_REF_RE [] = []" by code_simp
  with Nil show ?case by (cases n) simp_all
next
  case (Cons q qs)
  obtain k where k: "n = Suc (Suc (Suc k))" "3 * length qs < k"
    using Cons.prems by (cases n; cases "n - 1"; cases "n - 2") auto
  have e: "QUBIT_REF_RE (CHR '','' # x) = []" "QUBIT_REF_RE (CHR '' '' # x) = []" for x
    by (simp_all add: QUBIT_REF_RE_def re_bind_def re_run1_def)
  have "leads QUBIT_REF_RE (operand_text q @ more_operands qs) (index_text q) (more_operands qs)"
    using Cons.prems by (intro leads_operand) simp
  from re_scan_leads [OF this, of k] show ?case
    using Cons k by (simp add: re_scan_skip e del: re_scan.simps)
qed

lemma findall_operands:
  assumes "list_all (\<lambda>q. 0 \<le> q) (q # qs)"
  shows "map read_int_group (re_findall QUBIT_REF_RE (join '', '' (map operand_text (q # qs)))) = q # qs"
proof -
  have "leads QUBIT_REF_RE (operand_text q @ more_operands qs) (index_text q) (more_operands qs)"
    using assms by (intro leads_operand) simp
  from re_scan_leads [OF this] have "re_findall QUBIT_REF_RE (join '', '' (map operand_text (q # qs))) =
      index_text q # re_scan (length (operand_text q @ more_operands qs)) QUBIT_REF_RE (more_operands qs)"
    unfolding re_findall_def join_operands by simp
  moreover have "3 * length qs < length (operand_text q @ more_operands qs)"
    using more_operands_length [of qs] by (simp add: operand_text_def)
  ultimately have "re_findall QUBIT_REF_RE (join '', '' (map operand_text (q # qs))) = map index_text (q # qs)"
    using assms scan_operands [of qs] by (simp del: re_scan.simps)
  then show ?thesis using assms by (simp add: read_index_text list_all_iff map_idI)
qed


section \<open>Printed lines\<close>

definition gate_text :: "string \<Rightarrow> string option \<Rightarrow> string \<Rightarrow> string" where
  "gate_text name args operands =
     name @ (case args of None \<Rightarrow> [] | Some t \<Rightarrow> ''('' @ t @ '')'') @ '' '' @ operands @ '';''"

definition operands_of :: "int list \<Rightarrow> string" where
  "operands_of qs = join '', '' (map operand_text qs)"

definition args_ok :: "string option \<Rightarrow> bool" where
  "args_ok args = (case args of None \<Rightarrow> True | Some t \<Rightarrow> list_all number_char t)"

lemma number_char_no_paren: "number_char c \<Longrightarrow> c \<noteq> CHR '')'' \<and> c \<noteq> CHR '','' \<and> \<not> is_line_end c"
proof -
  assume c: "number_char c"
  have "\<not> number_char (CHR '')'')" "\<not> number_char (CHR '','')" by code_simp+
  moreover have "is_line_end c \<Longrightarrow> is_space c" by (auto simp: is_line_end_def is_space_def in_range_def)
  ultimately show ?thesis using c number_char_plain by blast
qed

lemma leads_semicolon: "leads (re_space (re_bind (re_lit '';'') (\<lambda>_. re_ret x))) (CHR '';'' # r) x r"
proof -
  have "leads (re_bind (re_lit '';'') (\<lambda>_. re_ret x)) ('';'' @ r) x r"
    by (rule leads_bind [OF leads_lit leads_ret])
  then show ?thesis using leads_space [of "[]" "CHR '';''" _ r] by simp
qed

lemma operands_hd: "\<exists>t. operands_of (q # qs) = CHR ''q'' # t"
  using operand_text_hd [of q] unfolding operands_of_def join_operands by auto

lemma match_gate_text:
  assumes "list_all is_word name" and "name \<noteq> []" and "args_ok args"
    and "list_all (\<lambda>q. 0 \<le> q) (q # qs)"
  shows "re_match GATE_RE (gate_text name args (operands_of (q # qs)) @ r) = Some (name, args, operands_of (q # qs))"
proof -
  let ?ops = "operands_of (q # qs)"
  obtain t where t: "?ops = CHR ''q'' # t" using operands_hd by blast
  have rest: "leads (re_bind (re_text operands_re) (\<lambda>qs. re_space (re_bind (re_lit '';'') (\<lambda>_.
      re_ret (name, args, qs))))) (?ops @ CHR '';'' # r) (name, args, ?ops) r"
  proof (rule leads_bind)
    show "leads (re_text operands_re) (?ops @ CHR '';'' # r) ?ops (CHR '';'' # r)"
      using leads_operands [OF assms(4), of r] by (simp add: operands_of_def)
    show "leads (re_space (re_bind (re_lit '';'') (\<lambda>_. re_ret (name, args, ?ops)))) (CHR '';'' # r) (name, args, ?ops) r"
      by (rule leads_semicolon)
  qed
  have opt: "leads (re_opt arguments_re) ((case args of None \<Rightarrow> [] | Some t \<Rightarrow> ''('' @ t @ '')'') @ '' '' @ ?ops @ CHR '';'' # r)
      args ('' '' @ ?ops @ CHR '';'' # r)"
  proof (cases args)
    case None
    have "arguments_re ('' '' @ ?ops @ CHR '';'' # r) = []"
      unfolding arguments_re_def by (rule lit_fails) (simp add: startswith_def)
    then show ?thesis using None by (simp add: leads_opt_none)
  next
    case (Some a)
    then have "list_all (\<lambda>c. c \<noteq> CHR '')'') a"
      using assms(3) number_char_no_paren by (auto simp: args_ok_def list_all_iff)
    then have "leads arguments_re (''('' @ a @ '')'' @ '' '' @ ?ops @ CHR '';'' # r) a ('' '' @ ?ops @ CHR '';'' # r)"
      unfolding arguments_re_def
      by (intro leads_bind [OF leads_lit] leads_bind [OF leads_run] leads_ret) auto
    then show ?thesis using Some by (simp add: leads_opt)
  qed
  let ?a = "case args of None \<Rightarrow> [] | Some t \<Rightarrow> ''('' @ t @ '')''"
  have e: "gate_text name args ?ops @ r = name @ ?a @ '' '' @ ?ops @ CHR '';'' # r"
    by (simp add: gate_text_def)
  have "leads GATE_RE (gate_text name args ?ops @ r) (name, args, ?ops) r"
    unfolding GATE_RE_def e
  proof (rule leads_bind [OF leads_run1 [OF assms(1,2)]])
    show "?a @ '' '' @ ?ops @ CHR '';'' # r = [] \<or> \<not> is_word (hd (?a @ '' '' @ ?ops @ CHR '';'' # r))"
      by (cases args) simp_all
  qed (rule leads_bind [OF opt], use leads_spaces [OF _ rest [unfolded t append_Cons]] t in simp)
  then show ?thesis by (rule leads_match)
qed

definition qasm_names :: "string list" where
  "qasm_names = [''rx'', ''ry'', ''rz'', ''cz'', ''id'', ''sx'', ''cx'']"

lemma gate_text_start:
  "\<exists>d t. gate_text name args ops @ r = name @ d # t \<and> d \<in> {CHR ''('', CHR '' ''}"
  by (cases args) (auto simp: gate_text_def)

lemma names_words: "name \<in> set qasm_names \<Longrightarrow> list_all is_word name \<and> name \<noteq> []"
  by (auto simp: qasm_names_def) code_simp+

lemma gate_text_only_gate:
  assumes "name \<in> set qasm_names"
  shows "\<not> skipped_line (gate_text name args ops @ r) \<and> re_match QUBIT_DECL_RE (gate_text name args ops @ r) = None
    \<and> re_match MEASURE_RE (gate_text name args ops @ r) = None"
proof -
  obtain d t where g: "gate_text name args ops @ r = name @ d # t" "d \<in> {CHR ''('', CHR '' ''}"
    using gate_text_start by blast
  let ?l = "name @ d # t"
  have st: "\<not> startswith ?l w" if "w \<in> {''//'', ''OPENQASM'', ''include'', ''bit['', ''qubit[''}" for w
    using assms that g(2) by (auto simp: qasm_names_def startswith_def)
  have "QUBIT_REF_RE ?l = []"
    unfolding QUBIT_REF_RE_def using names_words [OF assms] g(2) by (intro run1_lit_fails) auto
  then have "MEASURE_RE ?l = []" unfolding MEASURE_RE_def by (rule bind_fails)
  moreover have "HEADER_RE ?l = []" "INCLUDE_RE ?l = []" "BIT_DECL_RE ?l = []" "QUBIT_DECL_RE ?l = []"
    by (simp_all add: HEADER_RE_def INCLUDE_RE_def BIT_DECL_RE_def QUBIT_DECL_RE_def register_re_def
        lit_fails st)
  moreover have "?l \<noteq> []" by simp
  ultimately show ?thesis unfolding g(1) skipped_line_def using st by (simp add: no_match)
qed

lemma read_gate_text:
  assumes "name \<in> set qasm_names" and "args_ok args" and "list_all (\<lambda>q. 0 \<le> q) (q # qs)"
  shows "read_line fr target st (gate_text name args (operands_of (q # qs)) @ r) =
    (case read_gate fr target (name, args, operands_of (q # qs)) of
       Inl e \<Rightarrow> Inl e | Inr op \<Rightarrow> Inr (st\<lparr>q_gates := q_gates st @ [op]\<rparr>))"
  using gate_text_only_gate [OF assms(1), of args "operands_of (q # qs)" r] match_gate_text [OF _ _ assms(2,3), of name r]
    names_words [OF assms(1)]
  by (simp add: read_line_def)


section \<open>Reading a printed gate\<close>

definition supported_gate :: "string \<Rightarrow> native_gate \<Rightarrow> bool" where
  "supported_gate target g =
     (if target = ''cz'' then g \<in> {RX, RY, RZ, CZ, ID}
      else target = ''cnot'' \<and> g \<in> {X90, Y_MINUS_90, VIRTUAL_Z, CNOT, ID})"

text \<open>What is read back: parameters to 15 digits, and no duration.\<close>

definition reread_op :: "gate_op \<Rightarrow> gate_op" where
  "reread_op op = op\<lparr>op_params :=
     (if op_gate op = ID then [0] else map (round_sig 15) (op_params op))\<rparr>"

definition float_range :: "pyfloat \<Rightarrow> bool" where
  "float_range v = (\<bar>round_sig 15 v\<bar> < max_double)"

lemma join_single: "join sep [x] = x"
  by (simp add: join_def)

lemma split_on_none: "d \<notin> set s \<Longrightarrow> split_on d s = [s]"
  by (induction s) auto

lemma format_float_args: "args_ok (Some (format_float v))"
  by (simp add: args_ok_def format_float_def format_g_chars)

lemma read_format_float: "float_range v \<Longrightarrow> read_float (format_float v) = Finite (round_sig 15 v)"
  by (simp add: format_float_def read_format_g finite_float_def float_range_def)

lemma read_arguments_float:
  assumes "float_range v"
  shows "read_arguments (Some (format_float v)) = Inr [round_sig 15 v]"
proof -
  have c: "list_all number_char (format_float v)" by (simp add: format_float_def format_g_chars)
  then have "list_all (\<lambda>c. \<not> is_space c) (format_float v)" "CHR '','' \<notin> set (format_float v)"
    using number_char_plain number_char_no_paren by (auto simp: list_all_iff)
  moreover have "read_float [] = Not_Number" by code_simp
  then have "format_float v \<noteq> []" using read_format_float [OF assms] by auto
  ultimately show ?thesis using read_format_float [OF assms]
    by (simp add: read_arguments_def split_on_none strip_no_space)
qed

lemma max_double_large: "2 < max_double"
  by (simp add: max_double_def)

lemma half_pi_reread: "float_range (- HALF_PI) \<and> isclose (round_sig 15 (- HALF_PI)) (- HALF_PI)"
proof -
  let ?r = "round_sig 15 (- HALF_PI)"
  have p: "power10 (- 14) = 1 / 10 ^ 14" by (simp add: power10_def)
  have "\<bar>?r - - HALF_PI\<bar> \<le> \<bar>- HALF_PI\<bar> * power10 (1 - int 15) / 2" by (rule round_sig_near) simp
  also have "\<dots> \<le> 1 / 10 ^ 12" by (simp add: p HALF_PI_def)
  finally have d: "\<bar>?r - - HALF_PI\<bar> \<le> 1 / 10 ^ 12" .
  then have "\<bar>?r\<bar> \<le> \<bar>HALF_PI\<bar> + 1 / 10 ^ 12" by linarith
  also have "\<dots> < 2" by (simp add: HALF_PI_def)
  also have "\<dots> < max_double" by (rule max_double_large)
  finally show ?thesis using d abs_minus_commute [of "- HALF_PI" ?r] by (simp add: float_range_def isclose_def)
qed

lemma new_gate_op_ok: "well_shaped \<lparr>op_gate = g, op_qubits = qs, op_params = ps\<rparr> \<Longrightarrow>
    new_gate_op g qs ps = Inr \<lparr>op_gate = g, op_qubits = qs, op_params = ps\<rparr>"
  using validate_gate_shape_iff [of "\<lparr>op_gate = g, op_qubits = qs, op_params = ps\<rparr>"
      "\<lparr>op_gate = g, op_qubits = qs, op_params = ps\<rparr>"]
  by (simp add: new_gate_op_def)

lemma shape_facts:
  "well_shaped op \<longleftrightarrow>
     (length (op_qubits op) = (if op_gate op \<in> {CZ, ISWAP, CP, CNOT} then 2 else 1)
      \<and> length (op_params op) = (if op_gate op \<in> {RX, RY, RZ, CP, ID, VIRTUAL_Z} then 1 else 0))"
  by (cases "op_gate op") (auto simp: well_shaped_def spec_of_def GATE_SPECS_def)

lemma reread_op_shape: "well_shaped op \<Longrightarrow> well_shaped (reread_op op)"
  by (auto simp: shape_facts reread_op_def)

text \<open>\<open>printed_as target op name args\<close>: the line a gate is printed as, and that it is read back.\<close>

definition printed_as :: "string \<Rightarrow> gate_op \<Rightarrow> string \<Rightarrow> string option \<Rightarrow> bool" where
  "printed_as target op name args =
     (name \<in> set qasm_names \<and> args_ok args
      \<and> ir_gate_to_openqasm op target = Inr (gate_text name args (operands_of (op_qubits op)))
      \<and> (\<forall>fr. read_gate fr target (name, args, operands_of (op_qubits op)) = Inr (reread_op op)))"

lemmas print_gate_defs = ir_gate_to_openqasm_def ir_gate_to_openqasm_cz_def ir_gate_to_openqasm_cnot_def
  gate_text_def qasm_names_def

lemmas read_gate_defs = read_gate_def read_arguments_float openqasm_gate_to_ir_def
  openqasm_gate_to_ir_cz_def openqasm_gate_to_ir_cnot_def cz_map_def cnot_simple_def mapped_gate_def
  read_arguments_def [of None] new_gate_op_ok

lemma printed_gate:
  assumes "supported_gate target (op_gate op)" and "well_shaped op" and "list_all float_range (op_params op)"
    and q: "list_all (\<lambda>q. 0 \<le> q) (op_qubits op)"
  shows "\<exists>name args. printed_as target op name args"
proof -
  obtain g qs ps where op: "op = \<lparr>op_gate = g, op_qubits = qs, op_params = ps\<rparr>" by (cases op) auto
  have t: "well_shaped (reread_op op)" using assms(2) by (rule reread_op_shape)
  have "qs \<noteq> []" using assms(2) op by (auto simp: shape_facts split: if_splits)
  then have f: "map read_int_group (re_findall QUBIT_REF_RE (operands_of qs)) = qs"
    using findall_operands [of "hd qs" "tl qs"] q op by (simp add: operands_of_def)
  have p: "printed_as target op name args" if
      "name \<in> set qasm_names" "args_ok args"
      "ir_gate_to_openqasm op target = Inr (gate_text name args (operands_of qs))"
      "\<And>fr. read_gate fr target (name, args, operands_of qs) = Inr (reread_op op)" for name args
    using that op by (simp add: printed_as_def)
  note defs = op print_gate_defs operands_of_def [symmetric] f
  note rdefs = read_gate_defs f reread_op_def op
  have one: "\<exists>p. ps = [p] \<and> float_range p" if "g \<in> {RX, RY, RZ, VIRTUAL_Z, ID}"
    using that assms(2,3) op by (cases ps) (auto simp: shape_facts)
  have none: "ps = []" if "g \<in> {CZ, X90, Y_MINUS_90, CNOT}"
    using that assms(2) op by (auto simp: shape_facts)
  have "(target = ''cz'' \<and> g \<in> {RX, RY, RZ}) \<or> (target = ''cnot'' \<and> g = VIRTUAL_Z)
      \<or> (target = ''cz'' \<and> g \<in> {CZ, ID}) \<or> (target = ''cnot'' \<and> g \<in> {X90, CNOT, ID})
      \<or> (target = ''cnot'' \<and> g = Y_MINUS_90)"
    using assms(1) op by (auto simp: supported_gate_def split: if_splits)
  then show ?thesis
  proof (elim disjE)
    assume a: "target = ''cz'' \<and> g \<in> {RX, RY, RZ}"
    then obtain v where v: "ps = [v]" "float_range v" using one by blast
    have "printed_as target op (gate_value g) (Some (format_float v))"
      by (rule p) (use a v t in \<open>auto simp: defs rdefs join_single format_float_args\<close>)
    then show ?thesis by blast
  next
    assume a: "target = ''cnot'' \<and> g = VIRTUAL_Z"
    then obtain v where v: "ps = [v]" "float_range v" using one by blast
    have "printed_as target op ''rz'' (Some (format_float v))"
      by (rule p) (use a v t in \<open>auto simp: defs rdefs format_float_args\<close>)
    then show ?thesis by blast
  next
    assume a: "target = ''cz'' \<and> g \<in> {CZ, ID}"
    have "printed_as target op (gate_value g) None"
      by (rule p) (use a t none in \<open>auto simp: defs rdefs args_ok_def\<close>)
    then show ?thesis by blast
  next
    assume a: "target = ''cnot'' \<and> g \<in> {X90, CNOT, ID}"
    have "printed_as target op (case g of X90 \<Rightarrow> ''sx'' | CNOT \<Rightarrow> ''cx'' | _ \<Rightarrow> ''id'') None"
      by (rule p) (use a t none in \<open>auto simp: defs rdefs args_ok_def\<close>)
    then show ?thesis by blast
  next
    assume a: "target = ''cnot'' \<and> g = Y_MINUS_90"
    have "printed_as target op ''ry'' (Some (format_float (- HALF_PI)))"
      by (rule p) (use a t none half_pi_reread in \<open>auto simp: defs rdefs format_float_args\<close>)
    then show ?thesis by blast
  qed
qed


section \<open>Reading the whole text\<close>

abbreviation one_line :: "string \<Rightarrow> bool" where
  "one_line \<equiv> list_all (\<lambda>c. \<not> is_line_end c)"

lemma digits_one_line: "list_all is_digit s \<Longrightarrow> one_line s"
  by (auto simp: list_all_iff is_digit_def is_line_end_def in_range_def)

lemma show_nat_one_line: "one_line (show_nat n)"
  using show_nat_digits by (rule digits_one_line)

lemma literal_one_line [simp]:
  "one_line '', ''" "one_line ''q[''" "one_line '']''" "one_line '' ''" "one_line '';''" "one_line ''(''"
  "one_line '')''" "one_line ''c[''" "one_line ''] = measure ''" "one_line ''qubit[''" "one_line ''] q;''"
  "one_line ''bit[''" "one_line ''] c;''"
  by code_simp+

lemma operand_one_line: "0 \<le> q \<Longrightarrow> one_line (operand_text q)"
  using show_nat_one_line [of "nat q"] literal_one_line(2,3) by (simp add: operand_text_def show_int_def)

lemma operands_one_line:
  assumes "list_all (\<lambda>q. 0 \<le> q) qs"
  shows "one_line (operands_of qs)"
proof -
  have "one_line (more_operands qs)" if "list_all (\<lambda>q. 0 \<le> q) qs" for qs
    using that
  proof (induction qs)
    case (Cons q qs)
    then show ?case using operand_one_line [of q] literal_one_line(1) by simp
  qed simp
  then show ?thesis using assms operand_one_line [of "hd qs"]
    by (cases qs) (simp_all add: operands_of_def join_operands [simplified], simp add: join_def)
qed

lemma gate_text_plain:
  assumes "name \<in> set qasm_names" and "args_ok args" and "list_all (\<lambda>q. 0 \<le> q) qs"
  shows "plain_line (gate_text name args (operands_of qs))"
proof -
  have n: "one_line name" "name \<noteq> []" "\<not> is_space (hd name)"
    using assms(1) unfolding qasm_names_def by (simp; elim disjE; code_simp)+
  have a: "one_line (case args of None \<Rightarrow> [] | Some t \<Rightarrow> ''('' @ t @ '')'')"
    using assms(2) number_char_no_paren literal_one_line(6,7)
    by (auto simp: args_ok_def list_all_iff split: option.splits)
  show ?thesis unfolding plain_line_def gate_text_def
    using n a operands_one_line [OF assms(3)] literal_one_line(4,5) by simp
qed

lemma read_gate_lines:
  assumes "\<forall>op \<in> set ops. supported_gate target (op_gate op) \<and> well_shaped op
      \<and> list_all float_range (op_params op) \<and> list_all (\<lambda>q. 0 \<le> q) (op_qubits op)"
  shows "\<exists>ls. gate_lines target ops = Inr ls \<and> list_all plain_line ls
    \<and> (\<forall>fr st rest. read_lines fr target st (ls @ rest) =
         read_lines fr target (st\<lparr>q_gates := q_gates st @ map reread_op ops\<rparr>) rest)"
  using assms
proof (induction ops)
  case Nil
  then show ?case by simp
next
  case (Cons op ops)
  then have h: "supported_gate target (op_gate op)" "well_shaped op" "list_all float_range (op_params op)"
    "list_all (\<lambda>q. 0 \<le> q) (op_qubits op)" by auto
  obtain name args where pr: "printed_as target op name args" using printed_gate [OF h] by blast
  let ?l = "gate_text name args (operands_of (op_qubits op))"
  have pl: "plain_line ?l" using pr h(4) by (simp add: printed_as_def gate_text_plain)
  then have sl: "strip ?l = ?l" using strip_plain by (simp add: plain_line_def)
  obtain q qs where q: "op_qubits op = q # qs"
    using h(2) by (cases "op_qubits op") (auto simp: shape_facts split: if_splits)
  have rd: "read_line fr target st ?l = Inr (st\<lparr>q_gates := q_gates st @ [reread_op op]\<rparr>)" for fr st
    using pr h(4) read_gate_text [of name args q qs fr target st "[]"] q by (simp add: printed_as_def)
  obtain ls where ls: "gate_lines target ops = Inr ls" "list_all plain_line ls"
    "\<And>fr st rest. read_lines fr target st (ls @ rest) =
         read_lines fr target (st\<lparr>q_gates := q_gates st @ map reread_op ops\<rparr>) rest"
    using Cons by auto
  have "gate_lines target (op # ops) = Inr (?l # ls)" using pr ls(1) by (simp add: printed_as_def)
  then show ?case using pl ls sl rd by (intro exI [of _ "?l # ls"]) simp
qed

text \<open>The keywords that only a header or a declaration starts with.\<close>

lemma not_skipped:
  assumes "l \<noteq> []" and "\<forall>w \<in> {''//'', ''OPENQASM'', ''include'', ''bit[''}. \<not> startswith l w"
  shows "\<not> skipped_line l"
  using assms
  by (simp add: skipped_line_def no_match HEADER_RE_def INCLUDE_RE_def BIT_DECL_RE_def register_re_def lit_fails)

lemma match_register:
  assumes "list_all is_digit n" and "n \<noteq> []" and "c \<in> {CHR ''q'', CHR ''c''}"
  shows "re_match (register_re kw) ((kw @ ''['') @ n @ '']'' @ '' '' @ [c] @ '';'') = Some n"
proof -
  have c: "is_word c" "\<not> is_space c" using assms(3) by auto
  have w: "leads (re_run1 is_word) ([c] @ '';'') [c] '';''" using c by (intro leads_run1) auto
  have "leads (re_bind (re_run1 is_word) (\<lambda>_. re_space (re_bind (re_lit '';'') (\<lambda>_. re_ret n)))) (c # '';'') n []"
    using leads_bind [OF w leads_semicolon [of n "[]"]] by simp
  from leads_spaces [OF c(2) this]
  have "leads (register_re kw) ((kw @ ''['') @ n @ '']'' @ '' '' @ [c] @ '';'') n []"
    unfolding register_re_def using assms
    by (intro leads_bind [OF leads_lit] leads_bind [OF leads_run1]) auto
  then show ?thesis by (rule leads_match)
qed

lemma match_measure:
  assumes "0 \<le> q"
  shows "re_match MEASURE_RE (''c['' @ show_nat i @ ''] = measure '' @ operand_text q @ '';'') = Some (show_nat i, index_text q)"
proof -
  obtain t where t: "operand_text q = CHR ''q'' # t" using operand_text_hd by blast
  have "leads (re_bind QUBIT_REF_RE (\<lambda>b. re_space (re_bind (re_lit '';'') (\<lambda>_. re_ret (show_nat i, b)))))
      (operand_text q @ '';'') (show_nat i, index_text q) []"
    by (rule leads_bind [OF leads_operand [OF assms]]) (rule leads_semicolon)
  from leads_spaces [OF _ this [unfolded t append_Cons]]
  have "leads (re_bind (re_lit ''measure'') (\<lambda>_. re_spaces (re_bind QUBIT_REF_RE (\<lambda>b.
      re_space (re_bind (re_lit '';'') (\<lambda>_. re_ret (show_nat i, b)))))))
      (''measure'' @ '' '' @ operand_text q @ '';'') (show_nat i, index_text q) []"
    unfolding t by (intro leads_bind [OF leads_lit]) simp
  then have "leads (re_space (re_bind (re_lit ''measure'') (\<lambda>_. re_spaces (re_bind QUBIT_REF_RE (\<lambda>b.
      re_space (re_bind (re_lit '';'') (\<lambda>_. re_ret (show_nat i, b))))))))
      ('' '' @ ''measure'' @ '' '' @ operand_text q @ '';'') (show_nat i, index_text q) []" (is "leads ?p _ _ _")
    using leads_space [of "'' ''" "CHR ''m''"] by simp
  then have "leads (re_bind (re_lit ''='') (\<lambda>_. ?p)) (''='' @ '' '' @ ''measure'' @ '' '' @ operand_text q @ '';'')
      (show_nat i, index_text q) []" by (rule leads_bind [OF leads_lit])
  then have "leads (re_space (re_bind (re_lit ''='') (\<lambda>_. ?p))) ('' '' @ ''='' @ '' '' @ ''measure'' @ '' '' @ operand_text q @ '';'')
      (show_nat i, index_text q) []"
    using leads_space [of "'' ''" "CHR ''=''"] by simp
  moreover have "leads QUBIT_REF_RE (''c'' @ ''['' @ show_nat i @ '']'' @ r) (show_nat i) r" for r
    by (rule leads_ref) (auto simp: show_nat_digits)
  ultimately have "leads MEASURE_RE (''c'' @ ''['' @ show_nat i @ '']'' @ '' '' @ ''='' @ '' '' @ ''measure'' @ '' '' @ operand_text q @ '';'')
      (show_nat i, index_text q) []"
    unfolding MEASURE_RE_def by (rule leads_bind [rotated])
  then show ?thesis using leads_match by fastforce
qed

lemma read_measure_line:
  assumes "0 \<le> q"
  shows "read_line fr target st (''c['' @ show_nat i @ ''] = measure '' @ operand_text q @ '';'') =
    Inr (st\<lparr>q_measurements := q_measurements st @ [q]\<rparr>)"
proof -
  let ?l = "''c['' @ show_nat i @ ''] = measure '' @ operand_text q @ '';''"
  have "\<not> skipped_line ?l" by (rule not_skipped) (simp_all add: startswith_def)
  moreover have "re_match QUBIT_DECL_RE ?l = None"
    by (rule no_match) (simp add: QUBIT_DECL_RE_def register_re_def lit_fails startswith_def)
  ultimately show ?thesis using match_measure [OF assms, of i] assms
    by (simp add: read_line_def read_index_text)
qed

lemma read_measure_lines:
  "list_all (\<lambda>q. 0 \<le> q) qs \<Longrightarrow>
   list_all plain_line (measure_lines i qs)
   \<and> read_lines fr target st (measure_lines i qs) = Inr (st\<lparr>q_measurements := q_measurements st @ qs\<rparr>)"
proof (induction qs arbitrary: i st)
  case (Cons q qs)
  let ?l = "''c['' @ show_nat i @ ''] = measure '' @ operand_text q @ '';''"
  have "one_line ?l"
    using Cons.prems show_nat_one_line [of i] operand_one_line [of q] literal_one_line(5,8,9) by simp
  then have pl: "plain_line ?l" by (simp add: plain_line_def)
  then have "strip ?l = ?l" using strip_plain unfolding plain_line_def by blast
  then show ?case using Cons pl read_measure_line [of q fr target st i] by simp
qed simp

lemma read_header_lines:
  assumes "0 \<le> ir_num_qubits ir" and "q_num_qubits st = None"
  shows "list_all plain_line (header_lines ir) \<and>
    read_lines fr target st (header_lines ir @ rest) =
    read_lines fr target (st\<lparr>q_num_qubits := Some (ir_num_qubits ir)\<rparr>) rest"
proof -
  let ?n = "index_text (ir_num_qubits ir)" and ?k = "show_nat (length (ir_measurements ir))"
  let ?inc = "''include '' @ [CHR 0x22] @ ''stdgates.inc'' @ [CHR 0x22] @ '';''"
  let ?q = "''qubit['' @ ?n @ ''] q;''" and ?b = "''bit['' @ ?k @ ''] c;''"
  have n: "show_int (ir_num_qubits ir) = ?n" using assms(1) by (simp add: show_int_def index_text_def)
  have hs: "skipped_line ''OPENQASM 3.0;''" "plain_line ''OPENQASM 3.0;''" by code_simp+
  have inc: "skipped_line ?inc" "plain_line ?inc" by code_simp+
  have bs: "skipped_line ?b"
    using match_register [of ?k "CHR ''c''" "''bit''"] show_nat_digits
    by (simp add: skipped_line_def BIT_DECL_RE_def)
  have qs: "\<not> skipped_line ?q" by (rule not_skipped) (simp_all add: startswith_def)
  have qm: "re_match QUBIT_DECL_RE ?q = Some ?n"
    using match_register [of ?n "CHR ''q''" "''qubit''"] index_text_digits by (simp add: QUBIT_DECL_RE_def)
  have one: "one_line ?q" "one_line ?b"
    using digits_one_line [OF index_text_digits(1)] show_nat_one_line literal_one_line(10-13) by simp_all
  have sp: "\<not> is_space (CHR ''b'')" by code_simp
  have pl: "plain_line ?q" "plain_line ?b" using one sp by (simp_all add: plain_line_def)
  have st: "strip l = l" if "plain_line l" for l using that strip_plain unfolding plain_line_def by blast
  have r: "read_lines fr target st' (l # ls) = read_lines fr target st' ls" if "skipped_line l" "plain_line l" for l ls st'
    using that st by (simp add: read_line_def)
  have q: "read_lines fr target st (?q # ls) = read_lines fr target (st\<lparr>q_num_qubits := Some (ir_num_qubits ir)\<rparr>) ls" for ls
    using qs qm st [OF pl(1)] assms by (simp add: read_line_def read_index_text)
  show ?thesis unfolding header_lines_def n using hs inc pl r [OF hs] r [OF inc] r [OF bs pl(2)] q by simp
qed


section \<open>What is read is a circuit\<close>

lemma new_gate_op_gate: "new_gate_op g qs ps = Inr op \<Longrightarrow> op_gate op = g"
  using validate_gate_shape_iff by (auto simp: new_gate_op_def split: sum.splits)

lemma read_gate_supported:
  assumes "read_gate fr target m = Inr op"
  shows "supported_gate target (op_gate op)"
proof -
  obtain name args ops where m: "m = (name, args, ops)" by (cases m)
  obtain params qubits where g: "openqasm_gate_to_ir fr name params qubits target = Inr op"
    using assms by (auto simp: m read_gate_def split: sum.splits)
  have row: "g \<in> op_gate ` {op} " if "mapped_gate (g, b) params qubits = Inr op" for g b
    using that by (auto simp: mapped_gate_def dest: new_gate_op_gate split: if_splits)
  show ?thesis using g row
    by (auto simp: openqasm_gate_to_ir_def openqasm_gate_to_ir_cz_def openqasm_gate_to_ir_cnot_def
        supported_gate_def cz_map_def cnot_simple_def dest!: new_gate_op_gate split: if_splits option.splits)
qed

text \<open>The exceptions that the reader can raise.\<close>

definition reader_exns :: "exn_class set" where
  "reader_exns = {QASMConversionError, ValueError, ValidationError}"

definition halts_well :: "qasm_halt \<Rightarrow> bool" where
  "halts_well h = (case h of Raised e \<Rightarrow> exn_class_of e \<in> reader_exns | Beyond_Floats \<Rightarrow> True)"

lemma halts_well_simps [simp]:
  "halts_well (qasm_error t)" "halts_well (bad_float t)" "halts_well Beyond_Floats"
  "halts_well (Raised (Exn ValidationError t))"
  by (simp_all add: halts_well_def qasm_error_def bad_float_def reader_exns_def)

lemma read_floats_halt: "read_floats ps = Inl h \<Longrightarrow> halts_well h"
  by (induction ps) (auto split: float_text.splits sum.splits)

lemma read_arguments_halt: "read_arguments args = Inl h \<Longrightarrow> halts_well h"
  by (auto simp: read_arguments_def dest: read_floats_halt split: option.splits if_splits)

lemma new_gate_op_halt: "new_gate_op g qs ps = Inl h \<Longrightarrow> halts_well h"
  by (auto simp: new_gate_op_def split: sum.splits)

lemma openqasm_gate_to_ir_halt: "openqasm_gate_to_ir fr name params qubits target = Inl h \<Longrightarrow> halts_well h"
  by (auto simp: openqasm_gate_to_ir_def openqasm_gate_to_ir_cz_def openqasm_gate_to_ir_cnot_def
      mapped_gate_def dest: new_gate_op_halt split: if_splits option.splits prod.splits)

lemma read_gate_halt: "read_gate fr target m = Inl h \<Longrightarrow> halts_well h"
  by (auto simp: read_gate_def dest: read_arguments_halt openqasm_gate_to_ir_halt split: sum.splits prod.splits)

lemma read_line_result:
  assumes "list_all (\<lambda>op. supported_gate target (op_gate op)) (q_gates st)"
  shows "case read_line fr target st l of Inl h \<Rightarrow> halts_well h
    | Inr st' \<Rightarrow> list_all (\<lambda>op. supported_gate target (op_gate op)) (q_gates st')"
  using assms
  by (auto simp: read_line_def dest: read_gate_halt read_gate_supported split: sum.splits option.splits)

lemma read_lines_result:
  assumes "list_all (\<lambda>op. supported_gate target (op_gate op)) (q_gates st)"
  shows "case read_lines fr target st ls of Inl h \<Rightarrow> halts_well h
    | Inr st' \<Rightarrow> list_all (\<lambda>op. supported_gate target (op_gate op)) (q_gates st')"
  using assms
proof (induction ls arbitrary: st)
  case (Cons l ls)
  then show ?case using read_line_result [OF Cons.prems, of fr "strip l"]
    by (cases "read_line fr target st (strip l)") simp_all
qed simp


section \<open>Properties\<close>

text \<open>A parameter with at most 15 significant digits.\<close>

definition short_decimal :: "pyfloat \<Rightarrow> bool" where
  "short_decimal v = (\<exists>k j. \<bar>v\<bar> = of_nat k * power10 j \<and> k < 10 ^ 15)"

lemma reread_short:
  assumes "op_gate op \<noteq> ID" and "list_all short_decimal (op_params op)"
  shows "reread_op op = op"
proof -
  have "map (round_sig 15) (op_params op) = op_params op"
    using assms(2) round_sig_short [of 15] by (auto simp: short_decimal_def list_all_iff intro!: map_idI)
  with assms(1) show ?thesis by (simp add: reread_op_def)
qed

lemma reread_well_formed:
  assumes "well_formed_ir ir" and "0 \<le> optimization_level md" and "optimization_level md \<le> 3"
  shows "well_formed_ir (ir\<lparr>ir_gates := map reread_op (ir_gates ir), ir_metadata := md\<rparr>)"
  using assms reread_op_shape by (auto simp: well_formed_ir_def reread_op_def)

text \<open>
  C4: \<open>ir_to_openqasm\<close> prints every well-formed circuit over the supported gates, and
  \<open>openqasm_to_ir\<close> reads the text back as the same circuit: the same register, gates,
  operands and measurements in the same order, with every parameter rounded to 15 significant
  digits and the duration of every \<open>id\<close> gate replaced by zero. A circuit without \<open>id\<close> gates
  whose parameters have at most 15 significant digits comes back unchanged.
\<close>

theorem qasm_round_trip:
  assumes "well_formed_ir ir"
    and "\<forall>op \<in> set (ir_gates ir). supported_gate (ir_target ir) (op_gate op) \<and> list_all float_range (op_params op)"
    and "0 \<le> optimization_level md" and "optimization_level md \<le> 3"
  shows "(\<exists>text. ir_to_openqasm ir = Inr text \<and>
      openqasm_to_ir fr now text (ir_target ir) (Some md) =
        Inr (ir\<lparr>ir_gates := map reread_op (ir_gates ir), ir_metadata := md\<rparr>))
    \<and> ((\<forall>op \<in> set (ir_gates ir). op_gate op \<noteq> ID \<and> list_all short_decimal (op_params op)) \<longrightarrow>
        map reread_op (ir_gates ir) = ir_gates ir)"
proof
  let ?t = "ir_target ir"
  have g: "\<forall>op \<in> set (ir_gates ir). supported_gate ?t (op_gate op) \<and> well_shaped op
      \<and> list_all float_range (op_params op) \<and> list_all (\<lambda>q. 0 \<le> q) (op_qubits op)"
    and m: "list_all (\<lambda>q. 0 \<le> q) (ir_measurements ir)" and n: "0 \<le> ir_num_qubits ir"
    using assms by (auto simp: well_formed_ir_def list_all_iff in_register_def)
  obtain ls where ls: "gate_lines ?t (ir_gates ir) = Inr ls" "list_all plain_line ls"
    "\<And>st rest. read_lines fr ?t st (ls @ rest) =
       read_lines fr ?t (st\<lparr>q_gates := q_gates st @ map reread_op (ir_gates ir)\<rparr>) rest"
    using read_gate_lines [OF g] by blast
  let ?ms = "measure_lines 0 (ir_measurements ir)"
  let ?ls = "header_lines ir @ ls @ ?ms" and ?st = "\<lparr>q_num_qubits = None, q_gates = [], q_measurements = []\<rparr>"
  have "header_lines ir \<noteq> []" by (simp add: header_lines_def)
  then have lines: "splitlines (strip (join newline ?ls @ newline)) = ?ls"
    using ls(2) read_header_lines [OF n, of ?st fr ?t "[]"] read_measure_lines [OF m, of 0 fr ?t ?st]
    by (intro printed_lines) simp_all
  have "read_lines fr ?t ?st ?ls = Inr \<lparr>q_num_qubits = Some (ir_num_qubits ir),
      q_gates = map reread_op (ir_gates ir), q_measurements = ir_measurements ir\<rparr>"
    using read_header_lines [OF n, of ?st fr ?t "ls @ ?ms"] ls(3) read_measure_lines [OF m, of 0 fr ?t] by simp
  moreover have "make_ir (ir\<lparr>ir_gates := map reread_op (ir_gates ir), ir_metadata := md\<rparr>) =
      Inr (ir\<lparr>ir_gates := map reread_op (ir_gates ir), ir_metadata := md\<rparr>)"
    using reread_well_formed [OF assms(1,3,4)] make_ir_iff by blast
  moreover have "ir_version ir = ''1.0''" using assms(1) by (simp add: well_formed_ir_def)
  ultimately have "openqasm_to_ir fr now (join newline ?ls @ newline) ?t (Some md) =
      Inr (ir\<lparr>ir_gates := map reread_op (ir_gates ir), ir_metadata := md\<rparr>)"
    unfolding openqasm_to_ir_def lines by (cases ir) simp
  then show "\<exists>text. ir_to_openqasm ir = Inr text \<and> openqasm_to_ir fr now text ?t (Some md) =
        Inr (ir\<lparr>ir_gates := map reread_op (ir_gates ir), ir_metadata := md\<rparr>)"
    using ls(1) by (simp add: ir_to_openqasm_def)
qed (auto intro!: map_idI reread_short)

definition bell_ir :: native_gate_ir where
  "bell_ir = \<lparr>ir_version = ''1.0'', ir_target = ''cnot'', ir_num_qubits = 2,
     ir_gates = [\<lparr>op_gate = Y_MINUS_90, op_qubits = [0], op_params = []\<rparr>,
                 \<lparr>op_gate = VIRTUAL_Z, op_qubits = [0], op_params = [1 / 2]\<rparr>,
                 \<lparr>op_gate = CNOT, op_qubits = [0, 1], op_params = []\<rparr>],
     ir_measurements = [0, 1], ir_metadata = sample_metadata\<rparr>"

lemma short_half: "short_decimal (1 / 2)"
  unfolding short_decimal_def by (rule exI [of _ 5], rule exI [of _ "- 1"]) (simp add: power10_def)

theorem qasm_round_trip_witness:
  "\<exists>text. ir_to_openqasm bell_ir = Inr text \<and>
     openqasm_to_ir (\<lambda>_. []) [] text ''cnot'' (Some sample_metadata) = Inr bell_ir"
proof -
  have wf: "well_formed_ir bell_ir"
    by (simp add: well_formed_ir_def bell_ir_def sample_metadata_def shape_facts legal_for_def
        LEGAL_GATES_def in_register_def)
  have "round_sig 15 (1 / 2) = 1 / 2" using short_half round_sig_short [of 15 "1 / 2"] by (auto simp: short_decimal_def)
  then have "float_range (1 / 2)" using max_double_large by (simp add: float_range_def)
  then have s: "\<forall>op \<in> set (ir_gates bell_ir). supported_gate (ir_target bell_ir) (op_gate op) \<and> list_all float_range (op_params op)"
    by (simp add: bell_ir_def supported_gate_def)
  have e: "\<forall>op \<in> set (ir_gates bell_ir). op_gate op \<noteq> ID \<and> list_all short_decimal (op_params op)"
    using short_half by (simp add: bell_ir_def)
  have l: "0 \<le> optimization_level sample_metadata" "optimization_level sample_metadata \<le> 3"
    by (simp_all add: sample_metadata_def)
  note r = qasm_round_trip [OF wf s l, of "\<lambda>_. []" "[]"]
  then have "map reread_op (ir_gates bell_ir) = ir_gates bell_ir" using e by blast
  with r show ?thesis by (simp add: bell_ir_def)
qed


text \<open>
  A line is read up to its first semicolon only. Whatever follows a gate on its line (a
  second gate, a measurement, text that is not OpenQASM) is dropped without an error.
\<close>

theorem rest_of_line_dropped:
  assumes "name \<in> set qasm_names" and "args_ok args" and "list_all (\<lambda>q. 0 \<le> q) (q # qs)"
  shows "read_line fr target st (gate_text name args (operands_of (q # qs)) @ rest) =
    read_line fr target st (gate_text name args (operands_of (q # qs)))"
  using read_gate_text [OF assms, of fr target st rest] read_gate_text [OF assms, of fr target st "[]"]
  by simp

theorem rest_of_line_dropped_witness:
  "let st = \<lparr>q_num_qubits = Some 2, q_gates = [], q_measurements = []\<rparr> in
   read_line (\<lambda>_. []) ''cz'' st ''cz q[0], q[1]; rx(0.5) q[0]; and more'' =
   read_line (\<lambda>_. []) ''cz'' st ''cz q[0], q[1];''"
proof -
  have t: "gate_text ''cz'' None (operands_of [0, 1]) = ''cz q[0], q[1];''" by code_simp
  show ?thesis
    using rest_of_line_dropped [of "''cz''" None 0 "[1]" "\<lambda>_. []" "''cz''" _ "'' rx(0.5) q[0]; and more''"]
    by (simp add: t qasm_names_def args_ok_def Let_def)
qed

end
