(* ===== verification/Heartbeat.thy ===== *)
theory Heartbeat
  imports Service
begin

text \<open>
  \<open>server/heartbeat.py\<close>: the periodic status report to the cloud. The client holds a reference
  to the consumer, whose state other tasks change; what the client sees of it is a function of
  the calls made so far (\<open>hb_consumer\<close>). Parameters: \<open>reason code\<close> is the reason phrase that
  the HTTP library has for a status code, \<open>str v\<close> is \<^verbatim>\<open>str(v)\<close> of a JSON value that is not a
  string. Log output is not modelled.

  The loop runs with fuel; \<open>heartbeat_keeps_going\<close> shows that it uses up any fuel unless it is
  stopped or cancelled, one report attempt and one pause per round.
\<close>

section \<open>The client\<close>

record consumer_view =
  v_current_job_id :: "string option"
  v_last_job_at :: "string option"
  v_redis_healthy :: bool

record heartbeat_client =
  hb_url :: string
  hb_qpu_id :: string
  hb_jwt_private_key :: string
  hb_jwt_key_id :: string
  hb_consumer :: "host_history \<Rightarrow> consumer_view"
  hb_interval :: int
  hb_connectivity :: "int list list option"
  hb_extra_headers :: headers
  hb_running :: bool

definition new_heartbeat_client ::
    "string \<Rightarrow> string \<Rightarrow> string \<Rightarrow> string \<Rightarrow> (host_history \<Rightarrow> consumer_view) \<Rightarrow> int
     \<Rightarrow> int list list option \<Rightarrow> headers option \<Rightarrow> heartbeat_client" where
  "new_heartbeat_client url qpu key kid consumer interval connectivity extra_headers =
     \<lparr>hb_url = url, hb_qpu_id = qpu, hb_jwt_private_key = key, hb_jwt_key_id = kid,
      hb_consumer = consumer, hb_interval = interval, hb_connectivity = connectivity,
      hb_extra_headers = (case extra_headers of Some hs \<Rightarrow> hs | None \<Rightarrow> []), hb_running = False\<rparr>"

record heartbeat_state = host_state +
  heartbeat :: heartbeat_client

type_synonym 'r hbprog = "(heartbeat_state, 'r) prog"


section \<open>One report\<close>

definition error_entry :: "(json \<Rightarrow> string) \<Rightarrow> string \<Rightarrow> string option" where
  "error_entry str text =
     (case json_loads text of
        Inr (JObj d) \<Rightarrow>
          map_option (\<lambda>v. case v of JStr t \<Rightarrow> t | _ \<Rightarrow> str v) (map_of d ''error'')
      | _ \<Rightarrow> None)"

definition format_heartbeat_error_response ::
    "(nat \<Rightarrow> string) \<Rightarrow> (json \<Rightarrow> string) \<Rightarrow> nat \<Rightarrow> string \<Rightarrow> string" where
  "format_heartbeat_error_response reason str code body =
     (case error_entry str body of
        Some t \<Rightarrow> t
      | None \<Rightarrow>
          let text = strip body
          in if text \<noteq> [] then str_take 800 text
             else if reason code \<noteq> [] then reason code else ''unknown error'')"

definition optional_json :: "('a \<Rightarrow> json) \<Rightarrow> 'a option \<Rightarrow> json" where
  "optional_json f x = (case x of None \<Rightarrow> JNull | Some v \<Rightarrow> f v)"

definition heartbeat_body :: "heartbeat_client \<Rightarrow> host_history \<Rightarrow> json" where
  "heartbeat_body c h =
     (let v = hb_consumer c h in
      JObj [(''current_job'', optional_json JStr (v_current_job_id v)),
            (''last_job_at'', optional_json JStr (v_last_job_at v)),
            (''redis_healthy'', JBool (v_redis_healthy v)),
            (''connectivity'', optional_json (\<lambda>es. JArr (map (\<lambda>e. JArr (map JInt e)) es)) (hb_connectivity c))])"

definition sign_heartbeat :: "host \<Rightarrow> heartbeat_client \<Rightarrow> string hbprog" where
  "sign_heartbeat w c =
     bind_p (get_p (\<lambda>s. h_clock w (trace s))) (\<lambda>now.
       call (\<lambda>h. sign_token (h_jwt_encode w h) now (hb_qpu_id c) (hb_jwt_private_key c)
                   DEFAULT_ISSUER DEFAULT_TTL (Some (hb_jwt_key_id c)))
            (H_Sign (token_claims now (hb_qpu_id c) DEFAULT_ISSUER DEFAULT_TTL)
                    (token_kid (hb_qpu_id c) (Some (hb_jwt_key_id c)))))"

definition heartbeat_headers :: "heartbeat_client \<Rightarrow> string \<Rightarrow> headers" where
  "heartbeat_headers c token = dict_merge [(''Authorization'', ''Bearer '' @ token)] (hb_extra_headers c)"

definition heartbeat_send :: "host \<Rightarrow> (nat \<Rightarrow> string) \<Rightarrow> (json \<Rightarrow> string) \<Rightarrow> unit hbprog" where
  "heartbeat_send w reason str =
     bind_p (get_p heartbeat) (\<lambda>c.
     bind_p (sign_heartbeat w c) (\<lambda>token.
     bind_p (get_p (\<lambda>s. heartbeat_body c (trace s))) (\<lambda>body.
     bind_p (call (\<lambda>h. h_post w h (hb_url c) (heartbeat_headers c token) body)
                  (H_Post (hb_url c) (heartbeat_headers c token) body)) (\<lambda>(code, text).
       if is_success code then ret ()
       else raise (Exn HeartbeatRejectedError
         (''HTTP '' @ show_nat code @ '' from heartbeat endpoint: '' @
          format_heartbeat_error_response reason str code text))))))"


section \<open>The loop\<close>

text \<open>Both clauses only log.\<close>

definition heartbeat_handler :: "exn \<Rightarrow> unit hbprog option" where
  "heartbeat_handler e =
     (if catches [HeartbeatRejectedError] e then Some (ret ())
      else if catches [PyException] e then Some (ret ()) else None)"

definition heartbeat_round :: "host \<Rightarrow> (nat \<Rightarrow> string) \<Rightarrow> (json \<Rightarrow> string) \<Rightarrow> unit hbprog" where
  "heartbeat_round w reason str =
     then_p (try_except (heartbeat_send w reason str) heartbeat_handler)
      (bind_p (get_p (\<lambda>s. hb_interval (heartbeat s))) (\<lambda>i. host_sleep w (of_int i)))"

definition heartbeat_stop :: "unit hbprog" where
  "heartbeat_stop = modify_p (\<lambda>s. s\<lparr>heartbeat := (heartbeat s)\<lparr>hb_running := False\<rparr>\<rparr>)"

text \<open>Another task may have called \<open>stop()\<close> while the loop was waiting.\<close>

definition heartbeat_stop_noticed :: "host \<Rightarrow> unit hbprog" where
  "heartbeat_stop_noticed w =
     bind_p (get_p (\<lambda>s. h_stop_requested w (trace s))) (\<lambda>b. if b then heartbeat_stop else ret ())"

fun heartbeat_while :: "nat \<Rightarrow> host \<Rightarrow> (nat \<Rightarrow> string) \<Rightarrow> (json \<Rightarrow> string) \<Rightarrow> unit hbprog" where
  "heartbeat_while 0 w reason str = hang"
| "heartbeat_while (Suc n) w reason str =
     then_p (heartbeat_stop_noticed w)
      (bind_p (get_p (\<lambda>s. hb_running (heartbeat s))) (\<lambda>running.
        if running then then_p (heartbeat_round w reason str) (heartbeat_while n w reason str) else ret ()))"

definition heartbeat_run :: "nat \<Rightarrow> host \<Rightarrow> (nat \<Rightarrow> string) \<Rightarrow> (json \<Rightarrow> string) \<Rightarrow> unit hbprog" where
  "heartbeat_run n w reason str =
     then_p (modify_p (\<lambda>s. s\<lparr>heartbeat := (heartbeat s)\<lparr>hb_running := True\<rparr>\<rparr>))
      (heartbeat_while n w reason str)"

definition heartbeat_close :: "host \<Rightarrow> unit hbprog" where
  "heartbeat_close w = then_p heartbeat_stop (host_close w ''heartbeat'')"


section \<open>What a round does\<close>

text \<open>
  \<open>send_events c r evs\<close>: the calls of one report and how they end: a failed signature; or a
  signature and one POST to the heartbeat URL under the signed token, which ends with the
  exception of the POST, with a rejection, or with success.
\<close>

inductive send_events :: "heartbeat_client \<Rightarrow> unit outcome \<Rightarrow> host_event list \<Rightarrow> bool" for c where
  unsigned: "send_events c (Raise e) [H_Sign claims kid (Inl e)]"
| unsent: "claim_sub claims = hb_qpu_id c \<Longrightarrow>
    send_events c (Raise e) [H_Sign claims kid (Inr t), H_Post (hb_url c) (heartbeat_headers c t) body (Inl e)]"
| rejected: "claim_sub claims = hb_qpu_id c \<Longrightarrow> \<not> is_success code \<Longrightarrow>
    send_events c (Raise (Exn HeartbeatRejectedError m))
      [H_Sign claims kid (Inr t), H_Post (hb_url c) (heartbeat_headers c t) body (Inr (code, text))]"
| accepted: "claim_sub claims = hb_qpu_id c \<Longrightarrow> is_success code \<Longrightarrow>
    send_events c (Ret ())
      [H_Sign claims kid (Inr t), H_Post (hb_url c) (heartbeat_headers c t) body (Inr (code, text))]"

inductive_cases send_events_RaiseE: "send_events c (Raise e) evs"

lemma heartbeat_send_shape:
  "wp (heartbeat_send w reason str) (\<lambda>r s'. \<exists>evs. s' = emits evs s \<and> send_events (heartbeat s) r evs) s"
  by (auto simp: heartbeat_send_def sign_heartbeat_def wp_rules token_claims_def
      intro: send_events.intros split: sum.splits)


section \<open>The loop as a protocol\<close>

text \<open>
  \<open>report_log c r evs\<close>: what the whole loop may do. It pauses after every report, whether the
  report succeeded or failed with an \<open>Exception\<close>; it ends when it has been stopped, or by an
  exception that is none (a cancellation) out of a report, or by whatever the pause raises.
\<close>

definition survived :: "unit outcome \<Rightarrow> bool" where
  "survived r = (case r of Ret _ \<Rightarrow> True | Raise e \<Rightarrow> is_exception e | Hang \<Rightarrow> False)"

abbreviation pause :: "heartbeat_client \<Rightarrow> exn + unit \<Rightarrow> host_event" where
  "pause c \<equiv> H_Sleep (of_int (hb_interval c))"

inductive report_log :: "heartbeat_client \<Rightarrow> unit outcome \<Rightarrow> host_event list \<Rightarrow> bool" for c where
  stopped: "report_log c (Ret ()) []"
| unfinished: "report_log c Hang []"
| next_round: "send_events c x sevs \<Longrightarrow> survived x \<Longrightarrow> report_log c r evs \<Longrightarrow>
    report_log c r (sevs @ pause c (Inr ()) # evs)"
| cancelled_sending: "send_events c (Raise e) sevs \<Longrightarrow> \<not> is_exception e \<Longrightarrow> report_log c (Raise e) sevs"
| pause_failed: "send_events c x sevs \<Longrightarrow> survived x \<Longrightarrow> report_log c (Raise e) (sevs @ [pause c (Inl e)])"

lemma heartbeat_handler_eq: "heartbeat_handler e = (if is_exception e then Some (ret ()) else None)"
proof (cases "catches [HeartbeatRejectedError] e")
  case True
  then have "exn_class_of e = HeartbeatRejectedError"
    by (cases "exn_class_of e") (auto simp: catches_def mro.simps)
  then show ?thesis using True by (simp add: heartbeat_handler_def is_exception_iff)
next
  case False
  then show ?thesis by (simp add: heartbeat_handler_def is_exception_def)
qed

text \<open>One round: a report that is survived and a pause, or a report that ends the loop.\<close>

definition round_events :: "heartbeat_client \<Rightarrow> unit outcome \<Rightarrow> host_event list \<Rightarrow> bool" where
  "round_events c r evs =
     (\<exists>x sevs. send_events c x sevs \<and>
        (if survived x then \<exists>a. evs = sevs @ [pause c a] \<and> r = (case a of Inl e \<Rightarrow> Raise e | Inr _ \<Rightarrow> Ret ())
         else evs = sevs \<and> r = x))"

lemma heartbeat_emits [simp]: "heartbeat (emits evs s) = heartbeat s"
  by (simp add: emits_def)

lemma heartbeat_round_shape:
  "wp (heartbeat_round w reason str) (\<lambda>r s'. \<exists>evs. s' = emits evs s \<and> round_events (heartbeat s) r evs) s"
  unfolding heartbeat_round_def wp_then wp_try_except
proof (rule wp_mono [OF heartbeat_send_shape], goal_cases)
  case (1 x s1)
  then obtain sevs where s1: "s1 = emits sevs s" "send_events (heartbeat s) x sevs" by blast
  have round: "round_events (heartbeat s) (Raise e) (sevs @ [pause (heartbeat s) (Inl e)])"
    "round_events (heartbeat s) (Ret ()) (sevs @ [pause (heartbeat s) (Inr ())])" if "survived x" for e
    using s1(2) that by (force simp: round_events_def)+
  have dead: "round_events (heartbeat s) x sevs" if "\<not> survived x" using s1(2) that by (auto simp: round_events_def)
  show ?case using round dead
    by (cases x)
       (auto simp: s1(1) survived_def heartbeat_handler_eq host_sleep_def wp_rules split: sum.splits outcome.splits)
qed

lemma round_events_cases:
  assumes "round_events c r evs"
  obtains (again) x sevs where "r = Ret ()" "evs = sevs @ [pause c (Inr ())]" "send_events c x sevs" "survived x"
  | (over) e where "r = Raise e" "report_log c (Raise e) evs"
proof -
  obtain x sevs where x: "send_events c x sevs" and r: "if survived x
      then \<exists>a. evs = sevs @ [pause c a] \<and> r = (case a of Inl e \<Rightarrow> Raise e | Inr _ \<Rightarrow> Ret ()) else evs = sevs \<and> r = x"
    using assms by (auto simp: round_events_def)
  have "x \<noteq> Hang" using x by (auto elim: send_events.cases)
  have p: "report_log c (Raise e) (sevs @ [pause c (Inl e)])" if "survived x" for e
    using x that by (rule report_log.pause_failed)
  from \<open>x \<noteq> Hang\<close> x r that p show ?thesis
    by (cases "survived x") (auto simp: survived_def intro: report_log.intros split: outcome.splits sum.splits)
qed

lemma heartbeat_while_log:
  "wp (heartbeat_while n w reason str) (\<lambda>r s'. \<exists>evs. trace s' = trace s @ evs \<and> report_log (heartbeat s) r evs
     \<and> (r = Ret () \<longrightarrow> \<not> hb_running (heartbeat s'))) s"
proof (induction n arbitrary: s)
  case 0
  then show ?case by (auto simp: wp_hang intro: report_log.intros)
next
  case (Suc n)
  let ?Q = "\<lambda>r s'. \<exists>evs. trace s' = trace s @ evs \<and> report_log (heartbeat s) r evs
     \<and> (r = Ret () \<longrightarrow> \<not> hb_running (heartbeat s'))"
  have round: "wp (then_p (heartbeat_round w reason str) (heartbeat_while n w reason str)) ?Q s"
    unfolding wp_then
  proof (rule wp_mono [OF heartbeat_round_shape], goal_cases)
    case (1 r s1)
    then obtain evs where s1: "s1 = emits evs s" and "round_events (heartbeat s) r evs" by blast
    from this(2) show ?case
    proof (cases rule: round_events_cases)
      case (again x sevs)
      have "wp (heartbeat_while n w reason str) ?Q s1"
        by (rule wp_mono [OF Suc.IH [of s1]])
           (use again s1 in \<open>auto intro: report_log.next_round\<close>)
      with again show ?thesis by simp
    next
      case (over e)
      with s1 show ?thesis by auto
    qed
  qed
  show ?case
    using round
    by (auto simp: heartbeat_stop_noticed_def heartbeat_stop_def wp_rules intro: report_log.intros)
qed

text \<open>Between two reports there is always a completed pause.\<close>

fun sends_report :: "host_event \<Rightarrow> bool" where
  "sends_report (H_Post _ _ _ _) = True"
| "sends_report _ = False"

definition paced :: "heartbeat_client \<Rightarrow> host_event list \<Rightarrow> bool" where
  "paced c evs = (\<forall>k. count_ev sends_report (take k evs) \<le> count_ev (\<lambda>ev. ev = pause c (Inr ())) (take k evs) + 1)"

lemma send_events_posts: "send_events c x sevs \<Longrightarrow> count_ev sends_report (take k sevs) \<le> 1"
  by (auto elim!: send_events.cases simp: take_Cons' count_ev_def)

lemma paced_short: "(\<And>k. count_ev sends_report (take k evs) \<le> 1) \<Longrightarrow> paced c evs"
  unfolding paced_def by (meson add_increasing le0 order_trans)

lemma report_log_paced: "report_log c r evs \<Longrightarrow> paced c evs"
proof (induction rule: report_log.induct)
  case (next_round x sevs r evs)
  show ?case unfolding paced_def
  proof
    fix k
    have "count_ev sends_report (take k sevs) \<le> 1" using next_round.hyps(1) by (rule send_events_posts)
    moreover have "count_ev sends_report (take (k - length sevs - 1) evs) \<le>
        count_ev (\<lambda>ev. ev = pause c (Inr ())) (take (k - length sevs - 1) evs) + 1"
      using next_round.IH by (simp add: paced_def)
    ultimately show "count_ev sends_report (take k (sevs @ pause c (Inr ()) # evs)) \<le>
        count_ev (\<lambda>ev. ev = pause c (Inr ())) (take k (sevs @ pause c (Inr ()) # evs)) + 1"
      by (cases "k - length sevs") (auto simp: trace_simps)
  qed
next
  case (pause_failed x sevs e)
  have "count_ev sends_report (take k sevs) \<le> 1" for k
    using pause_failed.hyps(1) by (rule send_events_posts)
  from this this [of "length sevs"] show ?case by (intro paced_short) (simp add: trace_simps take_Cons')
qed (auto simp: trace_simps intro: paced_short send_events_posts)


section \<open>Properties\<close>


text \<open>A cloud that rejects every report, and one request to stop after four calls.\<close>

definition rejecting_host :: host where
  "rejecting_host = quiet_host\<lparr>h_post := (\<lambda>_ _ _ _. Inr (422, ''{''  @ [CHR 0x22] @ ''error'' @ [CHR 0x22] @ '': 1}'')),
     h_stop_requested := (\<lambda>h. 4 \<le> length h)\<rparr>"

definition demo_heartbeat :: heartbeat_state where
  "demo_heartbeat = \<lparr>trace = [], fs = (\<lambda>_. None), environ = [],
     heartbeat = new_heartbeat_client ''https://cloud/hb'' ''qpu-1'' ''key'' ''kid''
       (\<lambda>_. \<lparr>v_current_job_id = None, v_last_job_at = None, v_redis_healthy = True\<rparr>) 30 None None\<rparr>"


text \<open>What keeps the loop alive: nobody stops or cancels it.\<close>

definition undisturbed :: "host \<Rightarrow> bool" where
  "undisturbed w = ((\<forall>h. \<not> h_stop_requested w h) \<and> (\<forall>h d. h_sleep w h d = Inr ())
     \<and> (\<forall>h claims key alg kid e. h_jwt_encode w h claims key alg kid = Inl e \<longrightarrow> is_exception e)
     \<and> (\<forall>h u hs b e. h_post w h u hs b = Inl e \<longrightarrow> is_exception e))"

fun signs_report :: "host_event \<Rightarrow> bool" where
  "signs_report (H_Sign _ _ _) = True"
| "signs_report _ = False"

lemma undisturbed_round:
  assumes "undisturbed w"
  shows "wp (heartbeat_round w reason str) (\<lambda>r s'. r = Ret () \<and> (\<exists>evs. s' = emits evs s
    \<and> count_ev signs_report evs = 1 \<and> count_ev (\<lambda>ev. ev = pause (heartbeat s) (Inr ())) evs = 1)) s"
proof -
  have "is_exception (Exn HeartbeatRejectedError m)" for m by (simp add: is_exception_iff)
  then show ?thesis using assms
    by (auto simp: heartbeat_round_def heartbeat_send_def sign_heartbeat_def sign_token_def host_sleep_def
        heartbeat_handler_eq undisturbed_def wp_rules trace_simps split: sum.splits)
qed

lemma undisturbed_while:
  assumes "undisturbed w" and "hb_running (heartbeat s)"
  shows "wp (heartbeat_while n w reason str) (\<lambda>r s'. r = Hang \<and> (\<exists>evs. s' = emits evs s
    \<and> count_ev signs_report evs = n \<and> count_ev (\<lambda>ev. ev = pause (heartbeat s) (Inr ())) evs = n)) s"
  using assms(2)
proof (induction n arbitrary: s)
  case 0
  then show ?case by (auto simp: wp_hang trace_simps intro: exI [of _ "[]"])
next
  case (Suc n)
  have "wp (then_p (heartbeat_round w reason str) (heartbeat_while n w reason str)) (\<lambda>r s'. r = Hang \<and> (\<exists>evs. s' = emits evs s
    \<and> count_ev signs_report evs = Suc n \<and> count_ev (\<lambda>ev. ev = pause (heartbeat s) (Inr ())) evs = Suc n)) s"
    unfolding wp_then
  proof (rule wp_mono [OF undisturbed_round [OF assms(1)]], goal_cases)
    case (1 r s1)
    then obtain evs where s1: "s1 = emits evs s" "r = Ret ()" "count_ev signs_report evs = 1"
      "count_ev (\<lambda>ev. ev = pause (heartbeat s) (Inr ())) evs = 1" by blast
    have "wp (heartbeat_while n w reason str) (\<lambda>r s'. r = Hang \<and> (\<exists>evs. s' = emits evs s
      \<and> count_ev signs_report evs = Suc n \<and> count_ev (\<lambda>ev. ev = pause (heartbeat s) (Inr ())) evs = Suc n)) s1"
      by (rule wp_mono [OF Suc.IH [of s1]]) (use Suc.prems s1 in \<open>auto simp: trace_simps\<close>)
    with s1 show ?case by simp
  qed
  then show ?case using Suc.prems assms(1)
    by (simp add: heartbeat_stop_noticed_def undisturbed_def wp_rules)
qed

text \<open>
  Unless it is stopped or cancelled the heartbeat loop never ends, even if every signature
  and every POST fails: after any number of rounds it is still going, and every round has made
  one report attempt and one pause.
\<close>

theorem heartbeat_keeps_going:
  assumes "undisturbed w"
  shows "\<exists>s' evs. heartbeat_run n w reason str s = (Hang, s') \<and> trace s' = trace s @ evs
    \<and> count_ev signs_report evs = n \<and> count_ev (\<lambda>ev. ev = H_Sleep (of_int (hb_interval (heartbeat s))) (Inr ())) evs = n"
proof -
  let ?c = "(heartbeat s)\<lparr>hb_running := True\<rparr>"
  have "wp (heartbeat_run n w reason str) (\<lambda>r s'. r = Hang \<and> (\<exists>evs. trace s' = trace s @ evs
    \<and> count_ev signs_report evs = n \<and> count_ev (\<lambda>ev. ev = pause (heartbeat s) (Inr ())) evs = n)) s"
    unfolding heartbeat_run_def wp_then wp_modify_p
    by simp (rule wp_mono [OF undisturbed_while [OF assms, of "s\<lparr>heartbeat := ?c\<rparr>"]], auto)
  then show ?thesis
    by (cases "heartbeat_run n w reason str s") (auto simp: wp_def)
qed

theorem heartbeat_keeps_going_witness:
  "fst (heartbeat_run 1000 (quiet_host\<lparr>h_post := (\<lambda>_ _ _ _. Inl (Exn TransportError ''refused''))\<rparr>)
     (\<lambda>_. []) (\<lambda>_. []) demo_heartbeat) = Hang"
proof -
  have "undisturbed (quiet_host\<lparr>h_post := (\<lambda>_ _ _ _. Inl (Exn TransportError ''refused''))\<rparr>)"
    by (simp add: undisturbed_def quiet_host_def is_exception_iff)
  from heartbeat_keeps_going [OF this, of 1000 "\<lambda>_. []" "\<lambda>_. []" demo_heartbeat] show ?thesis by auto
qed

end
