(* ===== verification/Loader.thy ===== *)
theory Loader
  imports Guard Config
begin

text \<open>
  The loader of \<open>server/executor.py\<close>: which execution backend a node runs. The import system
  and the objects it delivers are the operator's code; they are the fields of a \<open>python\<close>
  record over a type \<open>'m\<close> of modules and a type \<open>'o\<close> of objects. Log output is not modelled.
\<close>

section \<open>The import system\<close>

text \<open>
  \<open>py_import name\<close> is \<^verbatim>\<open>importlib.import_module(name)\<close>, \<open>py_getattr\<close> is \<^verbatim>\<open>getattr(module, name)\<close>,
  \<open>py_has_run x\<close> is \<^verbatim>\<open>hasattr(x, "run")\<close>, \<open>py_params x\<close> the number of parameters that
  \<^verbatim>\<open>inspect.signature\<close> finds, \<open>py_call x arg\<close> calls \<open>x\<close> with the settings or without argument.
  \<open>py_packages\<close> is \<open>None\<close> where \<^verbatim>\<open>packages_distributions\<close> cannot be imported, and otherwise
  what it returns; \<open>py_find_spec name\<close> says whether \<^verbatim>\<open>importlib.util.find_spec(name)\<close> found one.
\<close>

record ('m, 'o) python =
  py_import :: "string \<Rightarrow> exn + 'm"
  py_getattr :: "'m \<Rightarrow> string \<Rightarrow> exn + 'o"
  py_has_run :: "'o \<Rightarrow> bool"
  py_callable :: "'o \<Rightarrow> bool"
  py_params :: "'o \<Rightarrow> exn + nat"
  py_call :: "'o \<Rightarrow> settings option \<Rightarrow> exn + 'o"
  py_packages :: "(exn + string list) option"
  py_find_spec :: "string \<Rightarrow> exn + bool"

datatype 'o runner = Configured 'o | NoopExecutor

definition bind_sum :: "exn + 'a \<Rightarrow> ('a \<Rightarrow> exn + 'b) \<Rightarrow> exn + 'b" where
  "bind_sum x f = (case x of Inl e \<Rightarrow> Inl e | Inr y \<Rightarrow> f y)"

lemma bind_sum_Inr_iff: "bind_sum x f = Inr z \<longleftrightarrow> (\<exists>y. x = Inr y \<and> f y = Inr z)"
  by (simp add: bind_sum_def split: sum.splits)


section \<open>Loading by path\<close>

definition bad_path :: exn where
  "bad_path = Exn ExecutorError
     (''CODA_EXECUTOR_FACTORY must look like '' @ [CHR 0x27] @ ''package.module:factory_name'' @ [CHR 0x27])"

definition load_attr :: "('m, 'o) python \<Rightarrow> string \<Rightarrow> exn + 'o" where
  "load_attr py import_path =
     (case partition_on (CHR '':'') import_path of (module_name, sep, attr_name) \<Rightarrow>
        if \<not> sep \<or> module_name = [] \<or> attr_name = [] then Inl bad_path
        else bind_sum (py_import py module_name) (\<lambda>m. py_getattr py m attr_name))"

definition instantiate_factory :: "('m, 'o) python \<Rightarrow> string \<Rightarrow> settings \<Rightarrow> exn + 'o" where
  "instantiate_factory py import_path st =
     bind_sum (load_attr py import_path) (\<lambda>target.
       if py_has_run py target then Inr target
       else if \<not> py_callable py target
       then Inl (Exn ExecutorError (''Executor target '' @ py_repr import_path @ '' is not callable''))
       else bind_sum (py_params py target) (\<lambda>n.
         bind_sum (py_call py target (if n \<noteq> 0 then Some st else None)) (\<lambda>executor.
           if \<not> py_has_run py executor
           then Inl (Exn ExecutorError
             (''Executor factory '' @ py_repr import_path @ '' did not return a runner''))
           else Inr executor)))"


section \<open>Discovery\<close>

definition factory_module :: "string \<Rightarrow> string" where
  "factory_module pkg = pkg @ ''.executor_factory''"

definition skipped_package :: "string \<Rightarrow> bool" where
  "skipped_package pkg = (CHR ''.'' \<in> set pkg \<or> startswith pkg ''_'' \<or> pkg = ''coda_node'')"

text \<open>\<^verbatim>\<open>getattr(mod, "create_executor", None)\<close>: only a missing attribute is replaced by \<^verbatim>\<open>None\<close>.\<close>

definition getattr_or_none :: "('m, 'o) python \<Rightarrow> 'm \<Rightarrow> string \<Rightarrow> exn + 'o option" where
  "getattr_or_none py m name =
     (case py_getattr py m name of
        Inr x \<Rightarrow> Inr (Some x)
      | Inl e \<Rightarrow> if catches [AttributeError] e then Inr None else Inl e)"

definition candidate :: "('m, 'o) python \<Rightarrow> string \<Rightarrow> exn + string list" where
  "candidate py pkg =
     (if skipped_package pkg then Inr []
      else case py_find_spec py (factory_module pkg) of
        Inl e \<Rightarrow> if catches [ModuleNotFoundError, ValueError] e then Inr [] else Inl e
      | Inr found \<Rightarrow>
          if \<not> found then Inr []
          else (case py_import py (factory_module pkg) of
            Inl e \<Rightarrow> if catches [PyException] e then Inr [] else Inl e
          | Inr m \<Rightarrow>
              bind_sum (getattr_or_none py m ''create_executor'') (\<lambda>factory.
                Inr (case factory of
                       Some f \<Rightarrow> if py_callable py f then [factory_module pkg @ '':create_executor''] else []
                     | None \<Rightarrow> []))))"

fun candidates :: "('m, 'o) python \<Rightarrow> string list \<Rightarrow> exn + string list" where
  "candidates py [] = Inr []"
| "candidates py (pkg # pkgs) =
     bind_sum (candidate py pkg) (\<lambda>c. bind_sum (candidates py pkgs) (\<lambda>cs. Inr (c @ cs)))"

definition discover_executor_factories :: "('m, 'o) python \<Rightarrow> exn + string list" where
  "discover_executor_factories py =
     (case py_packages py of
        None \<Rightarrow> Inr []
      | Some pkgs \<Rightarrow> bind_sum pkgs (candidates py))"

definition load_executor :: "('m, 'o) python \<Rightarrow> settings \<Rightarrow> exn + 'o runner" where
  "load_executor py st =
     (if executor_factory st \<noteq> []
      then map_sum id Configured (instantiate_factory py (executor_factory st) st)
      else bind_sum (discover_executor_factories py) (\<lambda>discovered.
        case discovered of
          [path] \<Rightarrow> map_sum id Configured (instantiate_factory py path st)
        | _ \<Rightarrow> Inr NoopExecutor))"


section \<open>Lemmas\<close>

lemma instantiate_runs: "instantiate_factory py path st = Inr x \<Longrightarrow> py_has_run py x"
  by (auto simp: instantiate_factory_def bind_sum_Inr_iff split: if_splits)

text \<open>A package that offers a factory: what the convention asks for.\<close>

definition offers_factory :: "('m, 'o) python \<Rightarrow> string \<Rightarrow> bool" where
  "offers_factory py pkg =
     (\<not> skipped_package pkg \<and> py_find_spec py (factory_module pkg) = Inr True
      \<and> (\<exists>m f. py_import py (factory_module pkg) = Inr m \<and> py_getattr py m ''create_executor'' = Inr f
            \<and> py_callable py f))"

lemma candidate_iff:
  "candidate py pkg = Inr cs \<Longrightarrow> cs = (if offers_factory py pkg then [factory_module pkg @ '':create_executor''] else [])"
  by (auto simp: candidate_def offers_factory_def getattr_or_none_def bind_sum_Inr_iff
      split: if_splits sum.splits option.splits)

lemma candidates_offered:
  "candidates py pkgs = Inr cs \<Longrightarrow>
   cs = map (\<lambda>pkg. factory_module pkg @ '':create_executor'') (filter (offers_factory py) pkgs)"
proof (induction pkgs arbitrary: cs)
  case (Cons pkg pkgs)
  then obtain c cs' where "candidate py pkg = Inr c" "candidates py pkgs = Inr cs'" "cs = c @ cs'"
    by (auto simp: bind_sum_Inr_iff)
  then show ?case using Cons.IH candidate_iff [of py pkg c] by simp
qed simp

lemma partition_on_first: "d \<notin> set a \<Longrightarrow> partition_on d (a @ d # b) = (a, True, b)"
  by (induction a) auto

lemma load_offered:
  assumes "offers_factory py pkg" and "CHR '':'' \<notin> set pkg"
  shows "\<exists>f. load_attr py (factory_module pkg @ '':create_executor'') = Inr f \<and> py_callable py f"
proof -
  have "CHR '':'' \<notin> set (factory_module pkg)" using assms(2) by (simp add: factory_module_def)
  then have "partition_on (CHR '':'') (factory_module pkg @ '':create_executor'') = (factory_module pkg, True, ''create_executor'')"
    using partition_on_first [of "CHR '':''" "factory_module pkg"] by simp
  then show ?thesis using assms(1)
    by (auto simp: load_attr_def offers_factory_def bind_sum_def factory_module_def)
qed


section \<open>Properties\<close>

lemma configured_iff: "map_sum id Configured r = Inr c \<longleftrightarrow> (\<exists>x. r = Inr x \<and> c = Configured x)"
  by (cases r) auto

lemma case_single: "(case xs of [x] \<Rightarrow> f x | _ \<Rightarrow> c) = (if length xs = 1 then f (hd xs) else c)"
  by (auto split: list.splits)

lemma discovered_offered:
  "discover_executor_factories py = Inr ps \<Longrightarrow> ps \<noteq> [] \<Longrightarrow>
   \<exists>pkgs. py_packages py = Some (Inr pkgs)
     \<and> ps = map (\<lambda>pkg. factory_module pkg @ '':create_executor'') (filter (offers_factory py) pkgs)"
  by (auto simp: discover_executor_factories_def bind_sum_Inr_iff dest: candidates_offered split: option.splits)

text \<open>
  C22: a node never runs on a backend that cannot run jobs, and never ignores a configured one.
  What \<open>load_executor\<close> returns has a \<open>run\<close> method and comes from the configured path, or, when
  none is configured, from the only installed package that offers a factory by the naming
  convention; the no-op executor is chosen exactly if no path is configured and the number of
  discovered factories is not one; an error in loading is reported, not replaced by the no-op.
\<close>

theorem load_executor_resolves:
  "(load_executor py st = Inr NoopExecutor \<longleftrightarrow>
      executor_factory st = [] \<and> (\<exists>ps. discover_executor_factories py = Inr ps \<and> length ps \<noteq> 1))
   \<and> (\<forall>x. load_executor py st = Inr (Configured x) \<longrightarrow> py_has_run py x \<and>
       (if executor_factory st \<noteq> [] then instantiate_factory py (executor_factory st) st = Inr x
        else \<exists>pkgs pkg. py_packages py = Some (Inr pkgs) \<and> filter (offers_factory py) pkgs = [pkg]
          \<and> instantiate_factory py (factory_module pkg @ '':create_executor'') st = Inr x))"
proof (intro conjI allI impI)
  show "load_executor py st = Inr NoopExecutor \<longleftrightarrow>
      executor_factory st = [] \<and> (\<exists>ps. discover_executor_factories py = Inr ps \<and> length ps \<noteq> 1)"
    by (auto simp: load_executor_def configured_iff bind_sum_Inr_iff case_single split: if_splits)
  fix x
  assume l: "load_executor py st = Inr (Configured x)"
  have "\<exists>path. instantiate_factory py path st = Inr x \<and>
      (if executor_factory st \<noteq> [] then path = executor_factory st else discover_executor_factories py = Inr [path])"
    using l by (auto simp: load_executor_def configured_iff bind_sum_Inr_iff case_single length_Suc_conv split: if_splits)
  then obtain path where p: "instantiate_factory py path st = Inr x"
    "if executor_factory st \<noteq> [] then path = executor_factory st else discover_executor_factories py = Inr [path]" by blast
  show "py_has_run py x" using p(1) by (rule instantiate_runs)
  show "if executor_factory st \<noteq> [] then instantiate_factory py (executor_factory st) st = Inr x
        else \<exists>pkgs pkg. py_packages py = Some (Inr pkgs) \<and> filter (offers_factory py) pkgs = [pkg]
          \<and> instantiate_factory py (factory_module pkg @ '':create_executor'') st = Inr x"
    using p by (fastforce dest!: discovered_offered simp: map_eq_Cons_conv)
qed

text \<open>
  An installation with three packages, of which one offers a factory (object 0, which takes the
  settings and returns object 1, a runner).
\<close>

definition demo_python :: "(string, nat) python" where
  "demo_python = \<lparr>
     py_import = (\<lambda>name. Inr name), py_getattr = (\<lambda>m a. Inr 0),
     py_has_run = (\<lambda>x. x = 1), py_callable = (\<lambda>x. x = 0), py_params = (\<lambda>_. Inr 1),
     py_call = (\<lambda>_ arg. if arg = None then Inl (Exn TypeError []) else Inr 1),
     py_packages = Some (Inr [''numpy'', ''coda_node'', ''lab_driver'']),
     py_find_spec = (\<lambda>name. Inr (startswith name ''lab_driver''))\<rparr>"

lemma demo_loaded: "executor_factory st = [] \<Longrightarrow> load_executor demo_python st = Inr (Configured 1)"
  unfolding load_executor_def
  by (simp add: discover_executor_factories_def demo_python_def candidate_def skipped_package_def
      factory_module_def startswith_def getattr_or_none_def instantiate_factory_def load_attr_def bind_sum_def)

theorem load_executor_resolves_witness:
  "load_executor demo_python (default_settings quiet_host) = Inr (Configured 1) \<and> py_has_run demo_python 1
   \<and> filter (offers_factory demo_python) [''numpy'', ''coda_node'', ''lab_driver''] = [''lab_driver'']"
proof -
  have n: "executor_factory (default_settings quiet_host) = []" by (simp add: default_settings_def)
  note l = demo_loaded [OF n]
  from load_executor_resolves [of demo_python "default_settings quiet_host"] l n
  obtain pkg where "py_has_run demo_python 1"
    "filter (offers_factory demo_python) [''numpy'', ''coda_node'', ''lab_driver''] = [pkg]"
    by (auto simp: demo_python_def)
  moreover have "offers_factory demo_python ''lab_driver''"
    by (simp add: offers_factory_def demo_python_def skipped_package_def factory_module_def startswith_def)
  ultimately show ?thesis using l by (auto split: if_splits)
qed

end
