(* ===== verification/App.thy ===== *)
theory App
  imports Heartbeat Loader Consumer
begin

text \<open>
  \<open>server/app.py\<close>: how the parts are put together. \<open>lifespan_start\<close> is the lifespan up to its
  \<^verbatim>\<open>yield\<close>: settings, connection to the cloud, preflight of the guard, executor and clients
  (\<open>lifespan_prepare\<close>), then three background tasks. \<open>lifespan_stop\<close> is what follows the \<^verbatim>\<open>yield\<close>. The two endpoints read
  the guard and the consumer.

  The tasks themselves are the loops of \<open>Guard\<close>, \<open>Loop\<close> and \<open>Heartbeat\<close>; here they appear
  by name, as events that start, cancel and await them. Parameters: \<open>from_url\<close> is
  \<^verbatim>\<open>aioredis.from_url\<close> (it parses the URL and connects later), \<open>device x\<close> the \<^verbatim>\<open>device\<close>
  attribute of an executor and \<open>batches x\<close> whether it has a callable \<^verbatim>\<open>batch_run\<close>;
  \<open>env_data\<close> is how pydantic reads the environment for \<^verbatim>\<open>Settings()\<close>, and \<open>view\<close> is what the
  other tasks see of the consumer.
\<close>

section \<open>The guard inside the application\<close>

text \<open>A program of the guard, run on the files and the trace of the application.\<close>

definition with_guard :: "vpn_guard \<Rightarrow> 'r gprog \<Rightarrow> ('r \<times> vpn_guard) nprog" where
  "with_guard g m s =
     (case m \<lparr>trace = trace s, fs = fs s, environ = environ s, guard = g\<rparr> of
        (r, t) \<Rightarrow>
          (case r of Ret x \<Rightarrow> Ret (x, guard t) | Raise e \<Rightarrow> Raise e | Hang \<Rightarrow> Hang,
           \<lparr>trace = trace t, fs = fs t, environ = environ t, node_settings = node_settings s\<rparr>))"


section \<open>Startup\<close>

record 'o app_parts =
  app_guard :: vpn_guard
  app_runner :: "'o runner"
  app_webhook :: webhook_client
  app_consumer :: consumer
  app_heartbeat :: heartbeat_client

definition settings_guard :: "settings \<Rightarrow> vpn_guard" where
  "settings_guard st =
     new_guard (Some (vpn_probe_urls st)) (vpn_interface_hint st) (vpn_check_interval_sec st)
       (vpn_required st) (Some (node_connect_headers st))"

definition settings_webhook :: "settings \<Rightarrow> webhook_client" where
  "settings_webhook st =
     \<lparr>wc_qpu_id = qpu_id st, wc_private_key = jwt_private_key st, wc_key_id = jwt_key_id st,
      wc_max_retries = 3, wc_extra_headers = node_connect_headers st\<rparr>"

definition settings_heartbeat ::
    "settings \<Rightarrow> (host_history \<Rightarrow> consumer_view) \<Rightarrow> int list list option \<Rightarrow> heartbeat_client" where
  "settings_heartbeat st view connectivity =
     new_heartbeat_client (heartbeat_url st) (qpu_id st) (jwt_private_key st) (jwt_key_id st) view
       (heartbeat_interval_sec st) connectivity (Some (node_connect_headers st))"

definition preflight_failed :: "settings \<Rightarrow> vpn_status \<Rightarrow> bool" where
  "preflight_failed st vpn = (\<not> vs_ok vpn \<and> vpn_required st \<and> \<not> allow_degraded_startup st)"

definition runner_device :: "('o \<Rightarrow> device_spec option) \<Rightarrow> 'o runner \<Rightarrow> device_spec option" where
  "runner_device device r = (case r of Configured x \<Rightarrow> device x | NoopExecutor \<Rightarrow> None)"

definition runner_batches :: "('o \<Rightarrow> bool) \<Rightarrow> 'o runner \<Rightarrow> bool" where
  "runner_batches batches r = (case r of Configured x \<Rightarrow> batches x | NoopExecutor \<Rightarrow> False)"

definition build_parts ::
    "('m, 'o) python \<Rightarrow> (string \<Rightarrow> exn + unit) \<Rightarrow> ('o \<Rightarrow> device_spec option) \<Rightarrow> ('o \<Rightarrow> bool)
     \<Rightarrow> (host_history \<Rightarrow> consumer_view) \<Rightarrow> 'o option \<Rightarrow> settings \<Rightarrow> vpn_guard \<Rightarrow> exn + 'o app_parts" where
  "build_parts py from_url device batches view executor st g =
     bind_sum (from_url (redis_url st)) (\<lambda>_.
     bind_sum (case executor of Some x \<Rightarrow> Inr (Configured x) | None \<Rightarrow> load_executor py st) (\<lambda>runner.
     bind_sum (resolve_connectivity_from_device_spec (runner_device device runner)) (\<lambda>connectivity.
       let webhook = settings_webhook st
       in Inr \<lparr>app_guard = g, app_runner = runner, app_webhook = webhook,
            app_consumer = new_consumer webhook (qpu_id st) ''worker-0'' 60000 (runner_batches batches runner),
            app_heartbeat = settings_heartbeat st view connectivity\<rparr>)))"

definition start_tasks :: "('a, unit) hprog" where
  "start_tasks = for_p [''watch'', ''consumer'', ''heartbeat''] (\<lambda>t. note_event (H_Start_Task t))"

definition lifespan_prepare ::
    "nat \<Rightarrow> host \<Rightarrow> library \<Rightarrow> ('m, 'o) python \<Rightarrow> (string \<Rightarrow> exn + unit) \<Rightarrow> ('o \<Rightarrow> device_spec option)
     \<Rightarrow> ('o \<Rightarrow> bool) \<Rightarrow> (host_history \<Rightarrow> consumer_view) \<Rightarrow> 'o option \<Rightarrow> (environment \<Rightarrow> dict) \<Rightarrow> 'o app_parts nprog" where
  "lifespan_prepare n w lib py from_url device batches view executor env_data =
     then_p (load_settings env_data w lib)
     (then_p (connect_settings n w lib)
     (bind_p (get_p node_settings) (\<lambda>st.
      bind_p (with_guard (settings_guard st) (preflight w)) (\<lambda>(vpn, g).
        if preflight_failed st vpn
        then raise (Exn RuntimeError (''VPN preflight failed: '' @ vs_reason vpn))
        else from_sum (build_parts py from_url device batches view executor st g)))))"

definition lifespan_start ::
    "nat \<Rightarrow> host \<Rightarrow> library \<Rightarrow> ('m, 'o) python \<Rightarrow> (string \<Rightarrow> exn + unit) \<Rightarrow> ('o \<Rightarrow> device_spec option)
     \<Rightarrow> ('o \<Rightarrow> bool) \<Rightarrow> (host_history \<Rightarrow> consumer_view) \<Rightarrow> 'o option \<Rightarrow> (environment \<Rightarrow> dict) \<Rightarrow> 'o app_parts nprog" where
  "lifespan_start n w lib py from_url device batches view executor env_data =
     bind_p (lifespan_prepare n w lib py from_url device batches view executor env_data) (\<lambda>parts.
       then_p start_tasks (ret parts))"


section \<open>Shutdown\<close>

record 'o app_state = host_state +
  parts :: "'o app_parts"

type_synonym ('o, 'r) aprog = "('o app_state, 'r) prog"

definition cancel_task :: "string \<Rightarrow> ('a, unit) hprog" where
  "cancel_task t = note_event (H_Cancel_Task t)"

text \<open>\<^verbatim>\<open>with suppress(asyncio.CancelledError): await task\<close>\<close>

definition await_cancelled :: "host \<Rightarrow> string \<Rightarrow> ('a, unit) hprog" where
  "await_cancelled w t =
     try_except (call (\<lambda>h. h_await_task w h t) (H_Await_Task t))
       (\<lambda>e. if catches [CancelledError] e then Some (ret ()) else None)"

definition end_task :: "host \<Rightarrow> string \<Rightarrow> ('a, unit) hprog" where
  "end_task w t = then_p (cancel_task t) (await_cancelled w t)"

definition app_guard_stop :: "('o, unit) aprog" where
  "app_guard_stop = modify_p (\<lambda>s. s\<lparr>parts := (parts s)\<lparr>app_guard := (app_guard (parts s))\<lparr>g_running := False\<rparr>\<rparr>\<rparr>)"

definition app_heartbeat_close :: "host \<Rightarrow> ('o, unit) aprog" where
  "app_heartbeat_close w =
     then_p (modify_p (\<lambda>s. s\<lparr>parts := (parts s)\<lparr>app_heartbeat := (app_heartbeat (parts s))\<lparr>hb_running := False\<rparr>\<rparr>\<rparr>))
      (host_close w ''heartbeat'')"

definition app_drain :: "host \<Rightarrow> int \<Rightarrow> ('a, bool) hprog" where
  "app_drain w timeout = call (\<lambda>h. h_drain w h timeout) (H_Drain timeout)"

definition lifespan_stop :: "host \<Rightarrow> settings \<Rightarrow> ('o, unit) aprog" where
  "lifespan_stop w st =
     then_p app_guard_stop
     (then_p (end_task w ''watch'')
     (then_p (app_heartbeat_close w)
     (then_p (end_task w ''heartbeat'')
     (then_p (app_drain w (shutdown_drain_timeout_sec st))
     (then_p (end_task w ''consumer'')
     (then_p (host_close w ''webhook'')
     (then_p (host_close w ''redis'')
     (then_p (kill_openvpn_daemon w) (ret ())))))))))"


section \<open>Endpoints\<close>

fun state_value :: "service_state \<Rightarrow> string" where
  "state_value BOOTING = ''booting''"
| "state_value VPN_UNAVAILABLE = ''vpn_unavailable''"
| "state_value READY = ''ready''"
| "state_value DEGRADED = ''degraded''"

definition health :: "nat \<times> json" where
  "health = (200, JObj [(''status'', JStr ''ok'')])"

definition check_readiness :: "vpn_guard \<Rightarrow> consumer_view \<Rightarrow> bool \<times> json" where
  "check_readiness g v =
     (let r = (is_ready g \<and> v_redis_healthy v) in
      (r, JObj [(''ready'', JBool r), (''vpn_state'', JStr (state_value (g_state g))),
                (''redis_healthy'', JBool (v_redis_healthy v)),
                (''current_job'', optional_json JStr (v_current_job_id v))]))"

text \<open>\<open>in_time\<close>: the check ended within the five seconds of \<^verbatim>\<open>asyncio.wait_for\<close>.\<close>

definition ready :: "bool \<Rightarrow> vpn_guard \<Rightarrow> consumer_view \<Rightarrow> nat \<times> json" where
  "ready in_time g v =
     (if in_time then (case check_readiness g v of (r, body) \<Rightarrow> (if r then 200 else 503, body))
      else (503, JObj [(''ready'', JBool False), (''reason'', JStr ''health check timeout'')]))"

end
