(* ===== verification/Guard_Props.thy ===== *)
theory Guard_Props
  imports Guard
begin

text \<open>
  The properties of the VPN guard: what a preflight decides and in which order it looks, that
  the watch loop notifies exactly the changes of readiness, and what the parsers of the
  platform tools accept.
\<close>

section \<open>What the calls of a preflight look like\<close>

fun is_run :: "host_event \<Rightarrow> bool" where
  "is_run (H_Run _ _) = True"
| "is_run _ = False"

fun is_resolve :: "host_event \<Rightarrow> bool" where
  "is_resolve (H_Resolve _ _) = True"
| "is_resolve _ = False"

fun is_head :: "host_event \<Rightarrow> bool" where
  "is_head (H_Head _ _ _) = True"
| "is_head _ = False"

text \<open>A host name that did not resolve, a probe that got no answer below 500.\<close>

fun dns_failed :: "host_event \<Rightarrow> bool" where
  "dns_failed (H_Resolve _ (Inl _)) = True"
| "dns_failed _ = False"

fun probe_failed :: "host_event \<Rightarrow> bool" where
  "probe_failed (H_Head _ _ (Inr code)) = (500 \<le> code)"
| "probe_failed (H_Head _ _ (Inl _)) = True"
| "probe_failed _ = False"

fun probed_url :: "host_event \<Rightarrow> string option" where
  "probed_url (H_Head url _ _) = Some url"
| "probed_url _ = None"

definition probed :: "host_event list \<Rightarrow> string list" where
  "probed evs = List.map_filter probed_url evs"

fun notified_state :: "host_event \<Rightarrow> service_state option" where
  "notified_state (H_Notify st _) = Some st"
| "notified_state _ = None"

definition notifications :: "host_event list \<Rightarrow> service_state list" where
  "notifications evs = List.map_filter notified_state evs"

lemma map_filter_append: "List.map_filter f (xs @ ys) = List.map_filter f xs @ List.map_filter f ys"
  by (simp add: map_filter_def)

lemma probed_simps [trace_simps]:
  "probed [] = []" "probed (evs @ evs') = probed evs @ probed evs'"
  "probed (ev # evs) = (case probed_url ev of None \<Rightarrow> probed evs | Some u \<Rightarrow> u # probed evs)"
  by (simp_all add: probed_def map_filter_append map_filter_def split: option.splits)

lemma notifications_simps [trace_simps]:
  "notifications [] = []" "notifications (evs @ evs') = notifications evs @ notifications evs'"
  "notifications (ev # evs) =
     (case notified_state ev of None \<Rightarrow> notifications evs | Some u \<Rightarrow> u # notifications evs)"
  by (simp_all add: notifications_def map_filter_append map_filter_def split: option.splits)

lemma guard_emits [simp]: "guard (emits evs s) = guard s"
  by (simp add: emits_def)

lemma guard_update_emits [simp]: "guard_update f (emits evs s) = emits evs (guard_update f s)"
  by (simp add: emits_def)

lemma run_calls:
  "list_all is_run evs \<Longrightarrow> probed evs = [] \<and> notifications evs = [] \<and> \<not> list_ex dns_failed evs \<and> \<not> list_ex probe_failed evs"
  by (induction evs rule: list.induct) (auto simp: trace_simps elim!: is_run.elims)

lemma resolve_calls:
  "list_all is_resolve evs \<Longrightarrow> probed evs = [] \<and> notifications evs = [] \<and> \<not> list_ex probe_failed evs"
  by (induction evs rule: list.induct) (auto simp: trace_simps elim!: is_resolve.elims)

lemma head_calls:
  "list_all is_head evs \<Longrightarrow> notifications evs = [] \<and> \<not> list_ex dns_failed evs"
  by (induction evs rule: list.induct) (auto simp: trace_simps elim!: is_head.elims)

text \<open>Detection runs one tool, which may change files, and nothing else.\<close>

definition tool_run :: "'a host_state_scheme \<Rightarrow> 'r outcome \<Rightarrow> 'a host_state_scheme \<Rightarrow> bool" where
  "tool_run s r s' = (r \<noteq> Hang \<and> (\<exists>evs m. s' = emits evs (s\<lparr>fs := m\<rparr>) \<and> list_all is_run evs))"

lemma run_process_shape: "wp (run_process w args) (tool_run s) s"
proof -
  obtain r m where "h_run w (trace s) (fs s) args = (r, m)" by force
  then show ?thesis
    by (auto simp: wp_run_process tool_run_def split: sum.splits intro!: exI [of _ "[H_Run args r]"])
qed

lemma tool_shape: "wp (try_except (bind_p (run_process w args) (\<lambda>x. ret (f x))) no_tool) (tool_run s) s"
  unfolding wp_try_except wp_bind
  by (rule wp_mono [OF run_process_shape])
     (auto simp: wp_rules no_tool_def tool_run_def split: outcome.splits option.splits)

lemma detect_shape: "wp (detect_tun_interface w hint) (tool_run s) s"
  by (simp add: detect_tun_interface_def detect_any_def detect_hinted_def tool_shape split: option.splits)

lemma resolve_host_emits:
  "only_emits (resolve_host w h)
     (\<lambda>r evs. r \<noteq> Hang \<and> list_all is_resolve evs \<and> (\<forall>b. r = Ret b \<longrightarrow> (b \<longleftrightarrow> \<not> list_ex dns_failed evs)))"
  by (auto simp: only_emits_def resolve_host_def wp_rules split: sum.splits option.splits outcome.splits)

lemma dns_failures_emits:
  "only_emits (dns_failures w targets)
     (\<lambda>r evs. r \<noteq> Hang \<and> list_all is_resolve evs \<and> (\<forall>hs. r = Ret hs \<longrightarrow> (hs = [] \<longleftrightarrow> \<not> list_ex dns_failed evs)))"
proof (induction targets)
  case Nil
  then show ?case by (auto intro: only_emits_ret)
next
  case (Cons target targets)
  let ?R = "\<lambda>r evs. r \<noteq> Hang \<and> list_all is_resolve evs \<and> (\<forall>b. r = Ret b \<longrightarrow> (b \<longleftrightarrow> \<not> list_ex dns_failed evs))"
  let ?F = "\<lambda>b r evs. r \<noteq> Hang \<and> list_all is_resolve evs \<and> (\<forall>hs. r = Ret hs \<longrightarrow> (hs = [] \<longleftrightarrow> b \<and> \<not> list_ex dns_failed evs))"
  have one: "only_emits (case h of None \<Rightarrow> ret True | Some x \<Rightarrow> resolve_host w x) ?R" for h
    by (cases h) (auto intro: only_emits_ret resolve_host_emits)
  have rest: "only_emits (bind_p (dns_failures w targets) (\<lambda>fs. ret (if b then fs else x # fs))) (?F b)" for b x
    by (rule only_emits_bind [OF Cons.IH, where \<Psi> = "\<lambda>fs r evs. r = Ret (if b then fs else x # fs) \<and> evs = []"])
       (auto intro: only_emits_ret)
  have "only_emits (from_sum (url_hostname target)) (\<lambda>r evs. r \<noteq> Hang \<and> evs = [])"
    by (auto simp: only_emits_def wp_rules split: sum.splits intro: exI [of _ "[]"])
  moreover have "only_emits (bind_p (case h of None \<Rightarrow> ret True | Some x \<Rightarrow> resolve_host w x)
      (\<lambda>b. bind_p (dns_failures w targets) (\<lambda>fs. ret (if b then fs else the h # fs)))) (?F True)" for h
    by (rule only_emits_bind [OF one rest]) auto
  ultimately show ?case unfolding dns_failures.simps
    by (rule only_emits_bind) auto
qed

lemma probe_target_emits:
  "only_emits (probe_target w url hs)
     (\<lambda>r evs. r \<noteq> Hang \<and> list_all is_head evs \<and>
        (\<forall>p. r = Ret p \<longrightarrow> pr_target p = url \<and> probed evs = [url] \<and> (pr_ok p \<longleftrightarrow> \<not> list_ex probe_failed evs)))"
  by (auto simp: only_emits_def probe_target_def latency_since_def wp_rules trace_simps
      split: sum.splits option.splits outcome.splits)

lemma probe_all_emits:
  "only_emits (probe_all w hs targets)
     (\<lambda>r evs. r \<noteq> Hang \<and> list_all is_head evs \<and>
        (\<forall>ps. r = Ret ps \<longrightarrow> map pr_target ps = targets \<and> probed evs = targets
                \<and> (list_all pr_ok ps \<longleftrightarrow> \<not> list_ex probe_failed evs)))"
proof (induction targets)
  case Nil
  then show ?case by (auto intro!: only_emits_ret simp: trace_simps)
next
  case (Cons url targets)
  have rest: "only_emits (bind_p (probe_all w hs targets) (\<lambda>ps. ret (p # ps)))
     (\<lambda>r evs. r \<noteq> Hang \<and> list_all is_head evs \<and>
        (\<forall>ps. r = Ret ps \<longrightarrow> (\<exists>qs. ps = p # qs \<and> map pr_target qs = targets \<and> probed evs = targets
                \<and> (list_all pr_ok qs \<longleftrightarrow> \<not> list_ex probe_failed evs))))" for p
    by (rule only_emits_bind [OF Cons.IH, where \<Psi> = "\<lambda>ps r evs. r = Ret (p # ps) \<and> evs = []"])
       (auto intro: only_emits_ret)
  show ?case unfolding probe_all.simps
    by (rule only_emits_bind [OF probe_target_emits rest]) (auto simp: trace_simps)
qed


section \<open>The verdict of a preflight\<close>

text \<open>
  \<open>verdict g evs st\<close>: the status \<open>st\<close> is what the guard \<open>g\<close> has to conclude from the calls
  \<open>evs\<close>. Without an interface, or with a name that does not resolve, no probe is sent.
\<close>

definition verdict :: "vpn_guard \<Rightarrow> host_event list \<Rightarrow> vpn_status \<Rightarrow> bool" where
  "verdict g evs st =
     ((vs_ok st \<longleftrightarrow> \<not> g_vpn_required g \<or>
         (vs_interface_found st \<and> \<not> list_ex dns_failed evs \<and> \<not> list_ex probe_failed evs))
      \<and> (vs_ok st \<longrightarrow> probed evs = g_probe_targets g \<and> map pr_target (vs_probes st) = g_probe_targets g)
      \<and> (g_vpn_required g \<and> (\<not> vs_interface_found st \<or> list_ex dns_failed evs) \<longrightarrow> probed evs = [])
      \<and> notifications evs = [] \<and> (vs_reason st = [] \<longleftrightarrow> vs_ok st))"

definition verdict_state :: "vpn_status \<Rightarrow> service_state" where
  "verdict_state st = (if vs_ok st then READY else VPN_UNAVAILABLE)"

text \<open>A guard program that ended: its calls, and what became of the guard.\<close>

definition guard_run :: "guard_state \<Rightarrow> guard_state \<Rightarrow> (host_event list \<Rightarrow> vpn_guard \<Rightarrow> bool) \<Rightarrow> bool" where
  "guard_run s s' P = (\<exists>evs m g. s' = emits evs (s\<lparr>fs := m, guard := g\<rparr>) \<and> P evs g)"

lemma unavailable_run:
  "wp (unavailable found probes reason) Q s =
     Q (Ret \<lparr>vs_ok = False, vs_interface_found = found, vs_probes = probes, vs_reason = reason\<rparr>)
       (s\<lparr>guard := (guard s)\<lparr>g_state := VPN_UNAVAILABLE\<rparr>\<rparr>)"
  by (simp add: unavailable_def set_state_def wp_rules)

definition preflight_post :: "guard_state \<Rightarrow> vpn_status outcome \<Rightarrow> guard_state \<Rightarrow> bool" where
  "preflight_post s r s' = (case r of
       Ret st \<Rightarrow> guard_run s s' (\<lambda>evs g. g = (guard s)\<lparr>g_state := verdict_state st\<rparr> \<and> verdict (guard s) evs st)
     | Raise e \<Rightarrow> guard_run s s' (\<lambda>evs g. g = guard s \<and> notifications evs = [])
     | Hang \<Rightarrow> False)"

lemma preflight_probes_run:
  assumes g: "guard s = g" and pre: "s = emits evs0 (s0\<lparr>fs := m, guard := g\<rparr>)" "guard s0 = g"
    and evs0: "probed evs0 = []" "notifications evs0 = []" "\<not> list_ex probe_failed evs0"
    and dns: "g_vpn_required g \<Longrightarrow> found \<and> \<not> list_ex dns_failed evs0"
  shows "wp (preflight_probes w g found) (preflight_post s0) s"
  unfolding preflight_probes_def wp_bind
proof (rule only_emits_wp [OF probe_all_emits], goal_cases)
  case (1 r evs)
  note calls = head_calls [of evs]
  show ?case
  proof (cases r)
    case (Ret ps)
    have ps: "map pr_target ps = g_probe_targets g" "probed evs = g_probe_targets g"
      "filter (\<lambda>p. \<not> pr_ok p) ps = [] \<longleftrightarrow> \<not> list_ex probe_failed evs"
      using 1 Ret by (auto simp: filter_empty_conv list_all_iff)
    show ?thesis
      using Ret 1 calls ps evs0 dns pre g
      by (auto simp: Let_def wp_rules set_state_def unavailable_run preflight_post_def guard_run_def
          verdict_def verdict_state_def trace_simps
          intro!: exI [of _ "evs0 @ evs"] exI [of _ m])
  qed (use 1 calls pre evs0 in \<open>auto simp: preflight_post_def guard_run_def trace_simps
      intro!: exI [of _ "evs0 @ evs"] exI [of _ m]\<close>)
qed

lemma preflight_dns_run:
  assumes s1: "s1 = emits evs (s\<lparr>fs := m\<rparr>)" "list_all is_run evs"
    and found: "g_vpn_required (guard s) \<Longrightarrow> found"
  shows "wp (preflight_dns w (guard s) found) (preflight_post s) s1"
  unfolding preflight_dns_def wp_bind
proof (rule only_emits_wp [OF dns_failures_emits], goal_cases)
  case (1 r evs')
  note calls = run_calls [OF s1(2)] resolve_calls [of evs']
  have s2: "emits evs' s1 = emits (evs @ evs') (s\<lparr>fs := m, guard := guard s\<rparr>)" using s1 by simp
  show ?case
  proof (cases r)
    case (Ret hs)
    show ?thesis
    proof (cases "hs \<noteq> [] \<and> g_vpn_required (guard s)")
      case True
      then show ?thesis using Ret 1 s1 calls found
        by (auto simp: unavailable_run preflight_post_def guard_run_def verdict_def verdict_state_def
            trace_simps intro!: exI [of _ "evs @ evs'"] exI [of _ m])
    next
      case False
      have "wp (preflight_probes w (guard s) found) (preflight_post s) (emits evs' s1)"
        by (rule preflight_probes_run [OF _ s2])
           (use 1 Ret s1 calls False found in \<open>auto simp: trace_simps\<close>)
      then show ?thesis using Ret False by auto
    qed
  qed (use 1 s1 calls in \<open>auto simp: preflight_post_def guard_run_def trace_simps
      intro!: exI [of _ "evs @ evs'"] exI [of _ m]\<close>)
qed

lemma preflight_run: "wp (preflight w) (preflight_post s) s"
  unfolding preflight_def wp_bind wp_get_p outcome.case
proof (rule wp_mono [OF detect_shape], goal_cases)
  case (1 r s1)
  then obtain evs m where s1: "s1 = emits evs (s\<lparr>fs := m\<rparr>)" "list_all is_run evs" "r \<noteq> Hang"
    by (auto simp: tool_run_def)
  show ?case
  proof (cases r)
    case (Ret iface)
    then show ?thesis using s1 run_calls [OF s1(2)] preflight_dns_run [OF s1(1,2)]
      by (auto simp: unavailable_run preflight_post_def guard_run_def verdict_def verdict_state_def
          intro!: exI [of _ evs] exI [of _ m])
  next
    case (Raise e)
    then show ?thesis using s1 run_calls [OF s1(2)]
      by (auto simp: preflight_post_def guard_run_def intro!: exI [of _ evs] exI [of _ m])
  qed (use s1 in simp)
qed


definition demo_guard :: guard_state where
  "demo_guard = \<lparr>trace = [], fs = (\<lambda>_. None), environ = [],
     guard = new_guard (Some [''https://coda.example/api/health'']) (Some ''tun0'') 10 True None\<rparr>"

definition tunnel_host :: host where
  "tunnel_host = quiet_host\<lparr>h_run := (\<lambda>_ m _.
     (Inr \<lparr>returncode = 0, stdout = ''4: tun0: <POINTOPOINT,UP,LOWER_UP> mtu 1500'', stderr = []\<rparr>, m))\<rparr>"

lemma demo_preflight:
  "fst (preflight tunnel_host demo_guard) =
     Ret \<lparr>vs_ok = True, vs_interface_found = True,
        vs_probes = [\<lparr>pr_target = ''https://coda.example/api/health'', pr_ok = True, pr_latency_ms = Some 0, pr_error = None\<rparr>],
        vs_reason = []\<rparr>"
  by code_simp



section \<open>The watch loop is an edge detector\<close>

text \<open>
  The abstract monitor: it is told whether each check succeeded and announces every change,
  starting from \<open>up\<close>.
\<close>

fun edges :: "bool \<Rightarrow> bool list \<Rightarrow> service_state list" where
  "edges up [] = []"
| "edges up (ok # oks) =
     (if ok = up then edges ok oks else (if ok then READY else DEGRADED) # edges ok oks)"

text \<open>\<open>ticks w s oks s'\<close>: rounds of the loop lead from \<open>s\<close> to \<open>s'\<close>; \<open>oks\<close> are their verdicts.\<close>

inductive ticks :: "host \<Rightarrow> guard_state \<Rightarrow> bool list \<Rightarrow> guard_state \<Rightarrow> bool" where
  none: "ticks w s [] s"
| tick: "host_sleep w (of_int (g_check_interval (guard s))) s = (Ret (), s1) \<Longrightarrow>
     preflight w s1 = (Ret st, s2) \<Longrightarrow>
     watch_react w True (g_state (guard s1)) st s2 = (Ret (), s3) \<Longrightarrow>
     ticks w s3 oks s' \<Longrightarrow> ticks w s (vs_ok st # oks) s'"

text \<open>The state of the guard after a round, from the state before it and the verdict.\<close>

fun next_state :: "service_state \<Rightarrow> bool \<Rightarrow> service_state" where
  "next_state previous True = READY"
| "next_state previous False = (if previous = READY then DEGRADED else VPN_UNAVAILABLE)"

fun announced :: "service_state \<Rightarrow> bool \<Rightarrow> service_state list" where
  "announced previous True = (if previous \<in> {READY, BOOTING} then [] else [READY])"
| "announced previous False = (if previous = READY then [DEGRADED] else [])"

lemma keep_state: "g_state (guard s) = st \<Longrightarrow> s\<lparr>guard := (guard s)\<lparr>g_state := st\<rparr>\<rparr> = s"
  by auto

lemma watch_react_run:
  assumes "watch_react w True previous st s = (Ret (), s')"
    and "g_state (guard s) = verdict_state st"
  shows "\<exists>evs. s' = emits evs (s\<lparr>guard := (guard s)\<lparr>g_state := next_state previous (vs_ok st)\<rparr>\<rparr>)
    \<and> notifications evs = announced previous (vs_ok st)"
proof -
  have "wp (watch_react w True previous st) (\<lambda>r s'. r = Ret () \<longrightarrow>
      (\<exists>evs. s' = emits evs (s\<lparr>guard := (guard s)\<lparr>g_state := next_state previous (vs_ok st)\<rparr>\<rparr>)
       \<and> notifications evs = announced previous (vs_ok st))) s"
    using assms(2)
    by (cases "vs_ok st")
       (auto simp: watch_react_def notify_def set_state_def wp_rules verdict_state_def trace_simps keep_state
         split: sum.splits intro: exI [of _ "[]"] exI [of _ "[H_Notify READY (Inr ())]"])
  then show ?thesis using assms(1) by (simp add: wp_def)
qed

lemma tick_run:
  assumes "host_sleep w d s = (Ret (), s1)" and "preflight w s1 = (Ret st, s2)"
    and "watch_react w True (g_state (guard s1)) st s2 = (Ret (), s3)"
  shows "\<exists>evs. trace s3 = trace s @ evs \<and> notifications evs = announced (g_state (guard s)) (vs_ok st)
    \<and> guard s3 = (guard s)\<lparr>g_state := next_state (g_state (guard s)) (vs_ok st)\<rparr>"
proof -
  obtain u where s1: "s1 = emits [H_Sleep d u] s"
    using assms(1) by (auto simp: host_sleep_def call_def Let_def split: sum.splits)
  obtain evs m where s2: "s2 = emits evs (s1\<lparr>fs := m, guard := (guard s1)\<lparr>g_state := verdict_state st\<rparr>\<rparr>)"
    "notifications evs = []"
    using preflight_run [of w s1] assms(2) by (auto simp: wp_def preflight_post_def guard_run_def verdict_def)
  obtain evs' where s3: "s3 = emits evs' (s2\<lparr>guard := (guard s2)\<lparr>g_state := next_state (g_state (guard s1)) (vs_ok st)\<rparr>\<rparr>)"
    "notifications evs' = announced (g_state (guard s1)) (vs_ok st)"
    using watch_react_run [OF assms(3)] s2 by auto
  show ?thesis
    by (rule exI [of _ "[H_Sleep d u] @ evs @ evs'"]) (use s1 s2 s3 in \<open>simp add: trace_simps\<close>)
qed

lemma ticks_run:
  assumes "ticks w s oks s'"
  shows "\<exists>evs. trace s' = trace s @ evs
    \<and> (g_state (guard s) \<noteq> BOOTING \<longrightarrow> notifications evs = edges (is_ready (guard s)) oks)
    \<and> guard s' = (guard s)\<lparr>g_state := foldl next_state (g_state (guard s)) oks\<rparr>"
  using assms
proof (induction rule: ticks.induct)
  case (none w s)
  then show ?case by (simp add: trace_simps)
next
  case (tick w s s1 st s2 s3 oks s')
  from tick_run [OF tick(1-3)] obtain evs where evs: "trace s3 = trace s @ evs"
    "notifications evs = announced (g_state (guard s)) (vs_ok st)"
    "guard s3 = (guard s)\<lparr>g_state := next_state (g_state (guard s)) (vs_ok st)\<rparr>" by blast
  from tick.IH obtain evs' where evs': "trace s' = trace s3 @ evs'"
    "g_state (guard s3) \<noteq> BOOTING \<longrightarrow> notifications evs' = edges (is_ready (guard s3)) oks"
    "guard s' = (guard s3)\<lparr>g_state := foldl next_state (g_state (guard s3)) oks\<rparr>" by blast
  have "g_state (guard s3) \<noteq> BOOTING" "is_ready (guard s3) = vs_ok st"
    using evs(3) by (cases "vs_ok st"; simp add: is_ready_def)+
  then show ?case using evs evs'
    by (cases "vs_ok st") (auto simp: trace_simps is_ready_def)
qed

lemma watch_while_ticks:
  assumes "watch_while n w True s = (Ret (), s')" and "g_running (guard s)"
  shows "\<exists>oks s1. ticks w s oks s1 \<and> h_stop_requested w (trace s1)
    \<and> s' = s1\<lparr>guard := (guard s1)\<lparr>g_running := False\<rparr>\<rparr>"
  using assms
proof (induction n arbitrary: s)
  case (Suc n)
  show ?case
  proof (cases "h_stop_requested w (trace s)")
    case True
    then have "s' = s\<lparr>guard := (guard s)\<lparr>g_running := False\<rparr>\<rparr>" using Suc.prems
      by (auto simp: then_p_def bind_p_def stop_noticed_def stop_watch_def get_p_def modify_p_def ret_def)
    then show ?thesis using True ticks.none by blast
  next
    case False
    then obtain s1 st s2 s3 where t: "host_sleep w (of_int (g_check_interval (guard s))) s = (Ret (), s1)"
      "preflight w s1 = (Ret st, s2)" "watch_react w True (g_state (guard s1)) st s2 = (Ret (), s3)"
      "watch_while n w True s3 = (Ret (), s')" using Suc.prems
      by (auto simp: watch_tick_def then_p_def bind_p_def stop_noticed_def get_p_def ret_def
          split: prod.splits outcome.splits)
    have "g_running (guard s3)" using tick_run [OF t(1-3)] Suc.prems(2) by auto
    then show ?thesis using Suc.IH [OF t(4)] ticks.tick [OF t(1-3)] by blast
  qed
qed (simp add: hang_def)


text \<open>A run of two rounds: the probe of the first fails, the second succeeds, then a stop is requested.\<close>

definition flaky_host :: host where
  "flaky_host = tunnel_host\<lparr>h_head := (\<lambda>h _ _. Inr (if length h < 5 then 503 else 200)),
     h_stop_requested := (\<lambda>h. 10 \<le> length h)\<rparr>"

definition ready_guard :: guard_state where
  "ready_guard = demo_guard\<lparr>guard := (guard demo_guard)\<lparr>g_state := READY\<rparr>\<rparr>"

lemma flaky_watch:
  "fst (watch 3 flaky_host True ready_guard) = Ret ()" "g_state (guard ready_guard) \<noteq> BOOTING"
  "notifications (trace (snd (watch 3 flaky_host True ready_guard))) = [DEGRADED, READY]"
  by code_simp+



section \<open>The parsers of the platform tools\<close>

text \<open>A block of \<^verbatim>\<open>ifconfig\<close>: a header line that names the interface, and indented lines.\<close>

definition header_line :: "string \<Rightarrow> bool" where
  "header_line line = (line \<noteq> [] \<and> \<not> is_space (hd line))"

definition has_address :: "string \<Rightarrow> bool" where
  "has_address line = (\<not> header_line line \<and> startswith (strip line) ''inet '')"

definition interface_of :: "string \<Rightarrow> string" where
  "interface_of line = hd (split_on (CHR '':'') line)"

definition tunnel_block :: "string list \<Rightarrow> string \<Rightarrow> bool" where
  "tunnel_block ls i = (\<exists>pre hdr mid addr post. ls = pre @ hdr # mid @ addr # post \<and> header_line hdr
     \<and> interface_of hdr = i \<and> tunnel_name (Some i) \<and> list_all (Not \<circ> header_line) mid \<and> has_address addr)"

definition address_follows :: "string list \<Rightarrow> bool" where
  "address_follows ls = (\<exists>mid addr post. ls = mid @ addr # post \<and> list_all (Not \<circ> header_line) mid \<and> has_address addr)"

lemma address_follows_Cons:
  "address_follows (line # rest) \<longleftrightarrow> \<not> header_line line \<and> (has_address line \<or> address_follows rest)"
proof
  assume "address_follows (line # rest)"
  then obtain mid addr post where "line # rest = mid @ addr # post" "list_all (Not \<circ> header_line) mid" "has_address addr"
    by (auto simp: address_follows_def)
  then show "\<not> header_line line \<and> (has_address line \<or> address_follows rest)"
    by (cases mid) (auto simp: address_follows_def has_address_def)
next
  assume r: "\<not> header_line line \<and> (has_address line \<or> address_follows rest)"
  have "line # rest = [] @ line # rest" by simp
  moreover have "address_follows (line # rest)" if "address_follows rest"
  proof -
    from that obtain mid addr post where "rest = mid @ addr # post" "list_all (Not \<circ> header_line) mid" "has_address addr"
      by (auto simp: address_follows_def)
    then have "line # rest = (line # mid) @ addr # post" "list_all (Not \<circ> header_line) (line # mid)" using r by auto
    then show ?thesis using \<open>has_address addr\<close> unfolding address_follows_def by blast
  qed
  ultimately show "address_follows (line # rest)" using r unfolding address_follows_def
    by (metis list.pred_inject(1))
qed

lemma address_follows_Nil: "\<not> address_follows []"
  by (simp add: address_follows_def)

lemma tunnel_block_iff:
  "tunnel_block ls i \<longleftrightarrow> (\<exists>pre hdr rest. ls = pre @ hdr # rest \<and> header_line hdr \<and> interface_of hdr = i
     \<and> tunnel_name (Some i) \<and> address_follows rest)"
  unfolding tunnel_block_def address_follows_def by blast

lemma tunnel_block_Cons:
  "tunnel_block (line # rest) i \<longleftrightarrow>
     (header_line line \<and> interface_of line = i \<and> tunnel_name (Some i) \<and> address_follows rest) \<or> tunnel_block rest i"
  unfolding tunnel_block_iff
  by (auto simp: Cons_eq_append_conv)

lemma tunnel_block_Nil: "\<not> tunnel_block [] i"
  by (simp add: tunnel_block_def)

lemma darwin_scan_step:
  "darwin_scan cur (line # rest) =
     (if header_line line then darwin_scan (Some (interface_of line)) rest
      else if tunnel_name cur \<and> has_address line then cur
      else darwin_scan cur rest)"
  by (simp add: header_line_def has_address_def interface_of_def)

declare darwin_scan.simps(2) [simp del]

lemma darwin_scan_sound:
  "darwin_scan cur ls = Some i \<Longrightarrow>
     (cur = Some i \<and> tunnel_name cur \<and> address_follows ls) \<or> tunnel_block ls i"
proof (induction ls arbitrary: cur)
  case (Cons line rest)
  then show ?case
    by (auto simp: darwin_scan_step address_follows_Cons tunnel_block_Cons split: if_splits)
qed simp

lemma darwin_scan_complete:
  "(tunnel_name cur \<and> address_follows ls) \<or> tunnel_block ls i \<Longrightarrow> darwin_scan cur ls \<noteq> None"
proof (induction ls arbitrary: cur)
  case Nil
  then show ?case by (simp add: address_follows_Nil tunnel_block_Nil)
next
  case (Cons line rest)
  have "tunnel_name cur \<Longrightarrow> cur \<noteq> None" by (cases cur) (simp_all add: tunnel_name_def)
  then show ?case using Cons
    by (auto simp: darwin_scan_step address_follows_Cons tunnel_block_Cons)
qed

text \<open>
  On macOS, the interface reported is one of a \<^verbatim>\<open>utun\<close>/\<^verbatim>\<open>tun\<close> block of the \<^verbatim>\<open>ifconfig\<close> output that has an
  \<^verbatim>\<open>inet\<close> address, and none is reported only if there is no such block.
\<close>

theorem darwin_interface_iff:
  "(case parse_darwin_tun_interfaces out of
      Some i \<Rightarrow> tunnel_block (splitlines out) i
    | None \<Rightarrow> (\<forall>i. \<not> tunnel_block (splitlines out) i))"
proof (cases "parse_darwin_tun_interfaces out")
  case None
  then show ?thesis using darwin_scan_complete [of None "splitlines out"]
    by (auto simp: parse_darwin_tun_interfaces_def)
next
  case (Some i)
  then show ?thesis using darwin_scan_sound [of None "splitlines out" i]
    by (simp add: parse_darwin_tun_interfaces_def)
qed

lemma first_adapter_iff:
  "first_adapter hint as = Some n \<longleftrightarrow>
     (\<exists>pre a post. as = pre @ a # post \<and> tap_adapter hint a = Some n \<and> (\<forall>b \<in> set pre. tap_adapter hint b = None))"
  (is "_ \<longleftrightarrow> ?E as")
proof (induction as)
  case (Cons a as)
  have "?E (a # as) \<longleftrightarrow> tap_adapter hint a = Some n \<or> (tap_adapter hint a = None \<and> ?E as)"
  proof
    assume "?E (a # as)"
    then obtain pre x post where e: "a # as = pre @ x # post" "tap_adapter hint x = Some n"
      "\<forall>b \<in> set pre. tap_adapter hint b = None" by blast
    then show "tap_adapter hint a = Some n \<or> (tap_adapter hint a = None \<and> ?E as)"
      by (cases pre) auto
  next
    assume "tap_adapter hint a = Some n \<or> (tap_adapter hint a = None \<and> ?E as)"
    then show "?E (a # as)"
    proof (elim disjE conjE exE)
      assume "tap_adapter hint a = Some n"
      then show ?thesis by (intro exI [of _ "[]"] exI [of _ a] exI [of _ as]) simp
    next
      fix pre x post
      assume "tap_adapter hint a = None" "as = pre @ x # post" "tap_adapter hint x = Some n"
        "\<forall>b \<in> set pre. tap_adapter hint b = None"
      then show ?thesis by (intro exI [of _ "a # pre"] exI [of _ x] exI [of _ post]) simp
    qed
  qed
  then show ?case using Cons by (simp split: option.splits)
qed simp

text \<open>
  On Windows, from the JSON text of a list of adapters the interface reported is the name of the first adapter that
  is up, matches the hint and carries the mark of a tunnel driver; entries of any other shape
  are skipped.
\<close>

theorem windows_interface_first:
  assumes "plain_json (JArr adapters)"
  shows "\<exists>t. json_dumps (JArr adapters) = Some t \<and>
    (parse_windows_tun_interfaces t hint = Some n \<longleftrightarrow>
      (\<exists>pre d post status description.
         adapters = pre @ JObj d # post
         \<and> map_of d ''Name'' = Some (JStr n) \<and> map_of d ''InterfaceDescription'' = Some (JStr description)
         \<and> map_of d ''Status'' = Some (JStr status) \<and> lower status = ''up''
         \<and> hint_matches (lower_hint hint) n description
         \<and> list_ex (contains (lower description)) tap_markers
         \<and> (\<forall>b \<in> set pre. tap_adapter (lower_hint hint) b = None)))"
proof -
  obtain t where t: "json_dumps (JArr adapters) = Some t" "json_loads t = Inr (JArr adapters)"
    using json_round_trip [OF assms] by blast
  have "tap_adapter h a = Some n \<longleftrightarrow>
      (\<exists>d status description. a = JObj d \<and> map_of d ''Name'' = Some (JStr n)
         \<and> map_of d ''InterfaceDescription'' = Some (JStr description)
         \<and> map_of d ''Status'' = Some (JStr status) \<and> lower status = ''up''
         \<and> hint_matches h n description \<and> list_ex (contains (lower description)) tap_markers)" for h a
    by (auto simp: tap_adapter_def split: json.splits option.splits if_splits)
  then show ?thesis using t by (simp add: parse_windows_tun_interfaces_def first_adapter_iff) blast
qed

definition demo_adapter :: "string \<Rightarrow> string \<Rightarrow> json" where
  "demo_adapter name status = JObj [(''Name'', JStr name), (''InterfaceDescription'', JStr ''OpenVPN Wintun''), (''Status'', JStr status)]"

lemma hint_matches_None: "hint_matches (lower_hint None) n d"
  by (simp add: hint_matches_def lower_hint_def)

lemma map_of_adapter:
  "map_of [(''Name'', JStr n), (''InterfaceDescription'', JStr d), (''Status'', JStr st)] ''Name'' = Some (JStr n)"
  "map_of [(''Name'', JStr n), (''InterfaceDescription'', JStr d), (''Status'', JStr st)] ''InterfaceDescription'' = Some (JStr d)"
  "map_of [(''Name'', JStr n), (''InterfaceDescription'', JStr d), (''Status'', JStr st)] ''Status'' = Some (JStr st)"
  by simp_all

theorem windows_interface_first_witness:
  "\<exists>t. json_dumps (JArr [JNull, demo_adapter ''a'' ''Down'', demo_adapter ''b'' ''Up'']) = Some t
     \<and> parse_windows_tun_interfaces t None = Some ''b''"
proof -
  let ?as = "[JNull, demo_adapter ''a'' ''Down'', demo_adapter ''b'' ''Up'']"
  have "plain_json (JArr ?as)" by code_simp
  note found = windows_interface_first [OF this, of None "''b''"]
  have "?as = [JNull, demo_adapter ''a'' ''Down''] @ demo_adapter ''b'' ''Up'' # []
      \<and> lower ''Up'' = ''up'' \<and> list_ex (contains (lower ''OpenVPN Wintun'')) tap_markers
      \<and> (\<forall>b \<in> set [JNull, demo_adapter ''a'' ''Down'']. tap_adapter (lower_hint None) b = None)"
    by (intro conjI; code_simp)
  then show ?thesis using found unfolding demo_adapter_def
    by (metis (no_types, lifting) hint_matches_None map_of_adapter)
qed

text \<open>
  On Linux, a hinted interface is reported whatever its link state, as soon as the answer of
  \<^verbatim>\<open>ip link show\<close> names a device group, which it always does: the check looks for the letters
  \<^verbatim>\<open>up\<close> anywhere in the output, and \<^verbatim>\<open>group\<close> contains them.
\<close>

theorem hinted_link_state_ignored:
  assumes "h_system w \<notin> {''Darwin'', ''Windows''}" and "hint \<noteq> []"
    and "h_run w (trace s) (fs s) [''ip'', ''link'', ''show'', hint] = (Inr r, m)" and "returncode r = 0"
    and "contains (stdout r) ''group''"
  shows "fst (detect_tun_interface w (Some hint) s) = Ret (Some hint)"
proof -
  have "sublist ''up'' ''group''" by code_simp
  then have "contains (stdout r) ''up''" using assms(5) unfolding contains_iff by (rule sublist_order.order_trans)
  then show ?thesis using assms
    by (auto simp: detect_tun_interface_def detect_hinted_def hint_command_def try_except_def bind_p_def
        run_process_def ret_def)
qed

definition down_host :: host where
  "down_host = quiet_host\<lparr>h_run := (\<lambda>_ m _.
     (Inr \<lparr>returncode = 0,
        stdout = ''4: tun0: <POINTOPOINT,NOARP> mtu 1500 qdisc noop state DOWN mode DEFAULT group default qlen 500'',
        stderr = []\<rparr>, m))\<rparr>"

theorem hinted_link_state_ignored_witness:
  "fst (detect_tun_interface down_host (Some ''tun0'') demo_guard) = Ret (Some ''tun0'')"
proof -
  let ?r = "\<lparr>returncode = 0,
    stdout = ''4: tun0: <POINTOPOINT,NOARP> mtu 1500 qdisc noop state DOWN mode DEFAULT group default qlen 500'', stderr = []\<rparr>"
  have "contains (stdout ?r) ''group''" by code_simp
  then show ?thesis
    by (intro hinted_link_state_ignored [where r = ?r and m = "fs demo_guard"]) (simp_all add: down_host_def quiet_host_def)
qed

end
