(* ===== verification/Tunnel_Props.thy ===== *)
theory Tunnel_Props
  imports Service_Props Guard_Props
begin

text \<open>
  The OpenVPN daemon and the bundle: the wait for the tunnel ends in time, killing the daemon
  removes its PID file, and a bundle is complete before it has any effect on the machine.
\<close>

section \<open>Programs on the machine that end\<close>

lemma returns_run_process [returns_intros]: "returns (\<lambda>_. True) (run_process w args)"
  by (auto simp: returns_def wp_run_process split: prod.splits sum.splits)

lemma returns_fs_check [returns_intros]: "returns (\<lambda>_. True) (fs_check w op p)"
  by (auto simp: returns_def wp_fs_check split: option.splits)

lemma returns_case_option [returns_intros]:
  "(x = None \<Longrightarrow> returns I a) \<Longrightarrow> (\<And>y. x = Some y \<Longrightarrow> returns I (b y)) \<Longrightarrow> returns I (case x of None \<Rightarrow> a | Some y \<Rightarrow> b y)"
  by (cases x) auto

lemma read_text_returns [returns_intros]: "returns (\<lambda>_. True) (read_text w p)"
  unfolding read_text_def by (intro returns_intros)

lemma log_tail_returns [returns_intros]: "returns (\<lambda>_. True) (read_openvpn_log_tail w n)"
  unfolding read_openvpn_log_tail_def Let_def by (intro returns_intros) (auto intro: returns_intros split: if_splits)

lemma unlink_returns [returns_intros]: "returns (\<lambda>_. True) (unlink w p)"
  unfolding unlink_def by (intro returns_intros) auto

lemma signal_returns [returns_intros]: "returns (\<lambda>_. True) (signal_daemon w pid)"
  unfolding signal_daemon_def by (intro returns_intros) auto

lemma kill_returns [returns_intros]: "returns (\<lambda>_. True) (kill_openvpn_daemon w)"
  unfolding kill_openvpn_daemon_def path_exists_def
  by (intro returns_intros) (auto intro!: returns_intros split: if_splits)


section \<open>Waiting for the tunnel\<close>

text \<open>
  A monotonic clock that advances at least by the delay of every completed sleep: what
  \<^verbatim>\<open>time.monotonic\<close> and \<^verbatim>\<open>asyncio.sleep\<close> promise.
\<close>

definition clock_advances :: "host \<Rightarrow> bool" where
  "clock_advances w = ((\<forall>h ev. h_monotonic w h \<le> h_monotonic w (h @ [ev]))
     \<and> (\<forall>h d. h_monotonic w h + d \<le> h_monotonic w (h @ [H_Sleep d (Inr ())])))"

lemma clock_mono: "clock_advances w \<Longrightarrow> h_monotonic w h \<le> h_monotonic w (h @ evs)"
proof (induction evs rule: rev_induct)
  case (snoc ev evs)
  then show ?case unfolding clock_advances_def by (metis append.assoc order_trans)
qed simp

text \<open>
  A loop that polls until a deadline: it looks at the clock, asks \<open>check\<close>, is done or sleeps for the
  interval; after the deadline it does something else. With one round per interval it always ends.
\<close>

locale deadline_poll =
  fixes w :: host
    and loop :: "nat \<Rightarrow> rat \<Rightarrow> ('a, 'r) hprog"
    and check :: "('a, 'c) hprog"
    and found :: "'c \<Rightarrow> 'r option"
    and interval :: rat
    and expired :: "('a, 'r) hprog"
  assumes loop_Suc: "loop (Suc n) deadline = bind_p (monotonic w) (\<lambda>now.
        if now < deadline
        then bind_p check (\<lambda>x. case found x of
            Some y \<Rightarrow> ret y
          | None \<Rightarrow> then_p (host_sleep w interval) (loop n deadline))
        else expired)"
    and check_ends: "wp check (\<lambda>r s'. r \<noteq> Hang \<and> (\<exists>evs. trace s' = trace s @ evs)) s"
    and expired_ends: "wp expired (\<lambda>r s'. r \<noteq> Hang) s"
begin

lemma loop_ends:
  assumes clock: "clock_advances w" and "deadline - h_monotonic w (trace s) \<le> of_nat n * interval"
  shows "wp (loop (Suc n) deadline) (\<lambda>r s'. r \<noteq> Hang) s"
  using assms(2)
proof (induction n arbitrary: s)
  case 0
  then show ?case using expired_ends by (simp add: loop_Suc wp_bind wp_monotonic)
next
  case (Suc n)
  have "wp (bind_p check (\<lambda>x. case found x of
      Some y \<Rightarrow> ret y
    | None \<Rightarrow> then_p (host_sleep w interval) (loop (Suc n) deadline))) (\<lambda>r s'. r \<noteq> Hang) s"
    unfolding wp_bind
  proof (rule wp_mono [OF check_ends], goal_cases)
    case (1 r s1)
    then obtain evs where s1: "trace s1 = trace s @ evs" "r \<noteq> Hang" by blast
    let ?s2 = "emits [H_Sleep interval (Inr ())] s1"
    have "h_monotonic w (trace s1) + interval \<le> h_monotonic w (trace ?s2)"
      using clock unfolding clock_advances_def by simp
    then have "h_monotonic w (trace s) + interval \<le> h_monotonic w (trace ?s2)"
      using clock_mono [OF clock, of "trace s" evs] s1 by simp
    then have "wp (loop (Suc n) deadline) (\<lambda>r s'. r \<noteq> Hang) ?s2"
      using Suc.prems by (intro Suc.IH) (simp add: algebra_simps)
    then show ?case using s1(2)
      by (cases r) (auto simp: wp_then wp_call wp_ret host_sleep_def split: option.split sum.split)
  qed
  then show ?case using expired_ends by (subst loop_Suc) (simp add: wp_bind [of "monotonic w"] wp_monotonic)
qed

end

lemma timeout_ends:
  "wp (bind_p (read_openvpn_log_tail w 20) (\<lambda>d. then_p (kill_openvpn_daemon w) (raise (no_tunnel d)))) (\<lambda>r s'. r \<noteq> Hang) s"
proof -
  have "returns (\<lambda>_. True) (bind_p (read_openvpn_log_tail w 20) (\<lambda>d. then_p (kill_openvpn_daemon w) (raise (no_tunnel d))))"
    by (intro returns_intros)
  then show ?thesis by (auto simp: returns_def)
qed

lemma detect_ends: "wp (detect_tun_interface w hint) (\<lambda>r s'. r \<noteq> Hang \<and> (\<exists>evs. trace s' = trace s @ evs)) s"
  by (rule wp_mono [OF detect_shape]) (auto simp: tool_run_def)

interpretation tunnel_poll: deadline_poll w "\<lambda>n. poll_tunnel n w hint" "detect_tun_interface w hint" "\<lambda>x. x"
    TUNNEL_POLL_INTERVAL
    "bind_p (read_openvpn_log_tail w 20) (\<lambda>d. then_p (kill_openvpn_daemon w) (raise (no_tunnel d)))"
  for w hint
  by unfold_locales (auto simp: fun_eq_iff detect_ends timeout_ends intro!: arg_cong [where f = "bind_p (monotonic w)"]
    split: option.split)

text \<open>
  The wait for the tunnel ends: with a clock that advances by the delay of every completed
  sleep, 31 rounds (the timeout over the poll interval, and one) are enough, whatever the
  detection finds and whatever fails.
\<close>

theorem wait_for_tunnel_ends:
  assumes "clock_advances w"
  shows "fst (wait_for_tunnel 31 w hint s) \<noteq> Hang"
proof -
  have "wp (poll_tunnel (Suc 30) w hint (h_monotonic w (trace s) + TUNNEL_TIMEOUT)) (\<lambda>r s'. r \<noteq> Hang) s"
    by (rule tunnel_poll.loop_ends [OF assms]) (simp add: TUNNEL_TIMEOUT_def TUNNEL_POLL_INTERVAL_def)
  then show ?thesis by (simp add: wait_for_tunnel_def monotonic_def bind_get_p wp_iff)
qed

text \<open>A machine whose clock counts the seconds slept.\<close>

fun slept :: "host_event \<Rightarrow> rat" where
  "slept (H_Sleep d (Inr _)) = max d 0"
| "slept _ = 0"

definition ticking_host :: host where
  "ticking_host = quiet_host\<lparr>h_monotonic := (\<lambda>h. sum_list (map slept h))\<rparr>"

theorem wait_for_tunnel_ends_witness:
  "fst (wait_for_tunnel 31 ticking_host None empty_host_state) \<noteq> Hang"
proof -
  have "0 \<le> slept ev" for ev by (cases ev rule: slept.cases) auto
  then have "clock_advances ticking_host" by (simp add: clock_advances_def ticking_host_def)
  then show ?thesis by (rule wait_for_tunnel_ends)
qed


section \<open>Killing the daemon\<close>

lemma kill_attempt_run:
  assumes "fs s (OPENVPN_PID_PATH w) = Some f"
  shows "wp (bind_p (read_text w (OPENVPN_PID_PATH w)) (\<lambda>t. bind_p (from_sum (parse_pid t)) (\<lambda>pid.
      then_p (signal_daemon w pid) (then_p (unlink w (OPENVPN_PID_PATH w)) (ret True)))))
    (\<lambda>r s'. \<forall>b. r = Ret b \<longrightarrow> b \<and> fs s' (OPENVPN_PID_PATH w) = None
       \<and> (\<exists>pid. parse_pid (universal_newlines (file_content f)) = Inr pid
            \<and> (h_os_name w \<noteq> ''nt'' \<longrightarrow> H_Kill pid SIGTERM (Inr ()) \<in> set (trace s')))) s"
  using assms
  by (auto simp: read_text_def signal_daemon_def unlink_def wp_rules bytes_decode_def
      split: option.splits sum.splits prod.splits outcome.splits)

lemma kill_openvpn_run:
  "wp (kill_openvpn_daemon w) (\<lambda>r s'. \<forall>b. r = Ret b \<longrightarrow> fs s' (OPENVPN_PID_PATH w) = None
     \<and> (b \<longrightarrow> (\<exists>f pid. fs s (OPENVPN_PID_PATH w) = Some f
          \<and> parse_pid (universal_newlines (file_content f)) = Inr pid
          \<and> (h_os_name w \<noteq> ''nt'' \<longrightarrow> H_Kill pid SIGTERM (Inr ()) \<in> set (trace s'))))) s"
  (is "wp _ ?Q s")
proof -
  let ?p = "OPENVPN_PID_PATH w"
  have attempt: "wp (try_except (bind_p (read_text w ?p) (\<lambda>t. bind_p (from_sum (parse_pid t)) (\<lambda>pid.
        then_p (signal_daemon w pid) (then_p (unlink w ?p) (ret True)))))
      (\<lambda>e. if catches [PermissionError, ProcessLookupError, ValueError, TimeoutExpired] e
            then Some (then_p (unlink w ?p) (ret False)) else None)) ?Q (emits evs s)"
    if "fs s ?p = Some f" for f evs
    unfolding wp_try_except
    by (rule wp_mono [OF kill_attempt_run [where f = f]])
       (use that in \<open>auto simp: unlink_def wp_rules split: outcome.splits option.splits\<close>)
  show ?thesis
    using attempt by (auto simp: kill_openvpn_daemon_def path_exists_def wp_bind wp_then wp_fs_check wp_get_p wp_ret
        split: option.splits)
qed

text \<open>
  When \<^verbatim>\<open>kill_openvpn_daemon\<close> returns there is no PID file; it returns \<^verbatim>\<open>True\<close> only if there was one
  that named a process, and on POSIX that very process has been signalled.
\<close>

theorem kill_openvpn_contract:
  assumes "kill_openvpn_daemon w s = (Ret b, s')"
  shows "fs s' (OPENVPN_PID_PATH w) = None \<and> (b \<longrightarrow> (\<exists>f pid. fs s (OPENVPN_PID_PATH w) = Some f
    \<and> parse_pid (universal_newlines (file_content f)) = Inr pid
    \<and> (h_os_name w \<noteq> ''nt'' \<longrightarrow> H_Kill pid SIGTERM (Inr ()) \<in> set (trace s'))))"
  using kill_openvpn_run [of w s] assms by (simp add: wp_def)

definition daemon_running :: host_state where
  "daemon_running = empty_host_state\<lparr>fs := [OPENVPN_PID_PATH quiet_host \<mapsto> \<lparr>file_content = ''4711'' @ newline, file_mode = 420\<rparr>]\<rparr>"

theorem kill_openvpn_contract_witness:
  "fs (snd (kill_openvpn_daemon quiet_host daemon_running)) (OPENVPN_PID_PATH quiet_host) = None"
proof -
  have "fst (kill_openvpn_daemon quiet_host daemon_running) = Ret True" by code_simp
  then have "kill_openvpn_daemon quiet_host daemon_running = (Ret True, snd (kill_openvpn_daemon quiet_host daemon_running))"
    by (simp add: prod_eq_iff)
  from kill_openvpn_contract [OF this] show ?thesis by blast
qed
end
