(* ===== verification/Bundle_Props.thy ===== *)
theory Bundle_Props
  imports Tunnel_Props
begin

text \<open>
  Applying a connect bundle: the stages that only assign settings (\<open>assigns\<close>), the programs that
  leave the settings alone (\<open>keeps\<close>), and the property that a bundle acts on the machine only
  when it is complete.
\<close>

section \<open>Applying a bundle\<close>

text \<open>The outcome of a stage that only assigns settings: \<open>R\<close> relates them before and after.\<close>

definition assigns :: "(settings \<Rightarrow> settings \<Rightarrow> bool) \<Rightarrow> unit nprog \<Rightarrow> bool" where
  "assigns R m = (\<forall>s. wp m (\<lambda>r s'. \<exists>st'. s' = s\<lparr>node_settings := st'\<rparr> \<and> (r = Ret () \<longrightarrow> R (node_settings s) st')) s)"

lemma settings_self [simp]: "s = s\<lparr>node_settings := st\<rparr> \<longleftrightarrow> st = node_settings (s::node_state)"
proof
  assume "s = s\<lparr>node_settings := st\<rparr>"
  then have "node_settings s = node_settings (s\<lparr>node_settings := st\<rparr>)" by metis
  then show "st = node_settings s" by simp
qed simp

lemma assigns_then:
  assumes "assigns R m" "assigns T k" "\<And>a b c. R a b \<Longrightarrow> T b c \<Longrightarrow> U a c"
  shows "assigns U (then_p m k)"
  unfolding assigns_def wp_then
proof
  fix s :: node_state
  show "wp m (\<lambda>r s'. case r of
      Ret x \<Rightarrow> wp k (\<lambda>r s'. \<exists>st'. s' = s\<lparr>node_settings := st'\<rparr> \<and> (r = Ret () \<longrightarrow> U (node_settings s) st')) s'
    | Raise e \<Rightarrow> \<exists>st'. s' = s\<lparr>node_settings := st'\<rparr> \<and> (Raise e = Ret () \<longrightarrow> U (node_settings s) st')
    | Hang \<Rightarrow> \<exists>st'. s' = s\<lparr>node_settings := st'\<rparr> \<and> (Hang = Ret () \<longrightarrow> U (node_settings s) st')) s"
  proof (rule wp_mono [OF assms(1) [unfolded assigns_def, rule_format]], goal_cases)
    case (1 r s1)
    then obtain st where st: "s1 = s\<lparr>node_settings := st\<rparr>" "r = Ret () \<longrightarrow> R (node_settings s) st" by blast
    show ?case
    proof (cases r)
      case (Ret u)
      have "wp k (\<lambda>r s'. \<exists>st'. s' = s\<lparr>node_settings := st'\<rparr> \<and> (r = Ret () \<longrightarrow> U (node_settings s) st')) s1"
        by (rule wp_mono [OF assms(2) [unfolded assigns_def, rule_format]]) (use st Ret assms(3) in auto)
      then show ?thesis using Ret by simp
    qed (use st in auto)
  qed
qed

lemma assigns_mono: "assigns R m \<Longrightarrow> (\<And>a b. R a b \<Longrightarrow> T a b) \<Longrightarrow> assigns T m"
  unfolding assigns_def by (blast intro: wp_mono)

lemma assigns_seq: "assigns R m \<Longrightarrow> assigns T k \<Longrightarrow> assigns (R OO T) (then_p m k)"
  by (erule (1) assigns_then) auto

lemma assigns_sum: "(\<And>v. x = Inr v \<Longrightarrow> assigns R (f v)) \<Longrightarrow> assigns R (bind_p (from_sum x) f)"
  by (cases x) (auto simp: assigns_def wp_bind wp_from_sum)

lemma assigns_assign: "accepting lib \<Longrightarrow> assigns (\<lambda>a b. b = upd a) (assign lib upd)"
  by (auto simp: assigns_def assign_accepting wp_modify_p)

definition same_node :: "settings \<Rightarrow> settings \<Rightarrow> bool" where
  "same_node a b = (node_token b = node_token a \<and> node_auto_vpn b = node_auto_vpn a
     \<and> node_vpn_profile_path b = node_vpn_profile_path a)"

definition keeps_keys :: "settings \<Rightarrow> settings \<Rightarrow> bool" where
  "keeps_keys a b = (jwt_private_key b = jwt_private_key a \<and> jwt_key_id b = jwt_key_id a)"

definition keeps_identity :: "settings \<Rightarrow> settings \<Rightarrow> bool" where
  "keeps_identity a b = (qpu_id b = qpu_id a \<and> native_gate_set b = native_gate_set a)"

definition keeps_endpoints :: "settings \<Rightarrow> settings \<Rightarrow> bool" where
  "keeps_endpoints a b = (redis_url b = redis_url a \<and> webapp_url b = webapp_url a)"

lemmas keeping = same_node_def keeps_keys_def keeps_identity_def keeps_endpoints_def

lemma as_str_iff: "as_str d k = Inr v \<longleftrightarrow> text_value (map_of d k) = Some v"
  by (simp add: as_str_def split: option.splits)

lemma apply_identity_assigns:
  assumes "accepting lib"
  shows "assigns (\<lambda>a b. text_value (map_of d ''qpu_id'') = Some (qpu_id b)
      \<and> text_value (map_of d ''native_gate_set'') = Some (native_gate_set b) \<and> same_node a b \<and> keeps_keys a b)
    (apply_identity lib d)"
  using assms
  by (auto simp: assigns_def apply_identity_def assign_accepting wp_rules as_str_iff keeping split: sum.splits)

lemma apply_credential_assigns:
  assumes "accepting lib"
  shows "assigns (\<lambda>a b. (case text_value (map_of d k) of Some v \<Rightarrow> b = upd v a | None \<Rightarrow> b = a \<and> cur a \<noteq> []))
    (apply_credential lib d k cur upd)"
  using assms
  by (auto simp: assigns_def apply_credential_def assign_accepting wp_rules split: option.splits)

lemma apply_path_assigns:
  assumes "accepting lib"
  shows "assigns (\<lambda>a b. b = a \<or> (\<exists>v. b = upd v a)) (apply_path lib d k upd)"
  using assms by (auto simp: assigns_def apply_path_def assign_accepting wp_rules split: option.splits)

definition url_key :: "dict \<Rightarrow> string" where
  "url_key d = (if map_of d ''webapp_url'' \<noteq> None then ''webapp_url'' else ''cloud_base_url'')"

lemma text_value_nonempty: "text_value v = Some t \<Longrightarrow> t \<noteq> []"
  by (auto simp: text_value_def split: option.splits json.splits if_splits)

lemma apply_endpoints_assigns:
  assumes "accepting lib"
  shows "assigns (\<lambda>a b. text_value (map_of d ''redis_url'') = Some (redis_url b)
      \<and> text_value (map_of d (url_key d)) = Some (webapp_url b) \<and> same_node a b \<and> keeps_keys a b \<and> keeps_identity a b)
    (apply_endpoints lib d)"
proof -
  let ?K = "\<lambda>a b. same_node a b \<and> keeps_keys a b \<and> keeps_identity a b"
  have paths: "assigns (\<lambda>a b. ?K a b \<and> keeps_endpoints a b)
     (then_p (apply_path lib d ''connect_path'' (\<lambda>v st. st\<lparr>connect_path := v\<rparr>))
       (then_p (apply_path lib d ''heartbeat_path'' (\<lambda>v st. st\<lparr>heartbeat_path := v\<rparr>))
         (apply_path lib d ''webhook_path'' (\<lambda>v st. st\<lparr>webhook_path := v\<rparr>))))"
    by (intro assigns_then [where R = "\<lambda>a b. ?K a b \<and> keeps_endpoints a b" and T = "\<lambda>a b. ?K a b \<and> keeps_endpoints a b"]
        assigns_mono [OF apply_path_assigns [OF assms]]) (auto simp: keeping)
  show ?thesis unfolding apply_endpoints_def url_key_def [symmetric]
    by (intro assigns_sum assigns_then [OF assigns_assign [OF assms], where T =
          "\<lambda>a b. text_value (map_of d (url_key d)) = Some (webapp_url b) \<and> ?K a b \<and> redis_url b = redis_url a"]
        assigns_then [OF assigns_assign [OF assms] paths])
       (auto simp: keeping as_str_iff)
qed

text \<open>What every bundle that is accepted leaves in the settings.\<close>

definition bundle_taken :: "dict \<Rightarrow> settings \<Rightarrow> settings \<Rightarrow> bool" where
  "bundle_taken d a b =
     (text_value (map_of d ''qpu_id'') = Some (qpu_id b)
      \<and> text_value (map_of d ''native_gate_set'') = Some (native_gate_set b)
      \<and> text_value (map_of d ''redis_url'') = Some (redis_url b)
      \<and> text_value (map_of d (url_key d)) = Some (webapp_url b)
      \<and> jwt_private_key b = (case text_value (map_of d ''jwt_private_key'') of Some v \<Rightarrow> v | None \<Rightarrow> jwt_private_key a)
      \<and> jwt_key_id b = (case text_value (map_of d ''jwt_key_id'') of Some v \<Rightarrow> v | None \<Rightarrow> jwt_key_id a)
      \<and> jwt_private_key b \<noteq> [] \<and> jwt_key_id b \<noteq> [] \<and> same_node a b)"

definition apply_connection :: "library \<Rightarrow> dict \<Rightarrow> unit nprog" where
  "apply_connection lib d =
     then_p (apply_identity lib d)
     (then_p (apply_credential lib d ''jwt_private_key'' jwt_private_key (\<lambda>v st. st\<lparr>jwt_private_key := v\<rparr>))
     (then_p (apply_credential lib d ''jwt_key_id'' jwt_key_id (\<lambda>v st. st\<lparr>jwt_key_id := v\<rparr>))
       (apply_endpoints lib d)))"

lemma apply_connection_assigns:
  assumes "accepting lib"
  shows "assigns (bundle_taken d) (apply_connection lib d)"
  unfolding apply_connection_def
proof (rule assigns_mono [OF assigns_seq [OF apply_identity_assigns [OF assms]
        assigns_seq [OF apply_credential_assigns [OF assms]
          assigns_seq [OF apply_credential_assigns [OF assms] apply_endpoints_assigns [OF assms]]]]],
       elim relcomppE conjE, goal_cases)
  case (1 a b a1 a2 a3)
  then show ?case
    by (cases "text_value (map_of d ''jwt_private_key'')"; cases "text_value (map_of d ''jwt_key_id'')")
       (simp_all add: bundle_taken_def keeping text_value_nonempty)
qed

text \<open>Programs that leave a part of the state alone.\<close>

definition keeps :: "('s \<Rightarrow> 'b) \<Rightarrow> ('s, 'a) prog \<Rightarrow> bool" where
  "keeps g m = (\<forall>s. wp m (\<lambda>r s'. g s' = g s) s)"

named_theorems keeps_intros "programs that leave a part of the state alone"

lemma keeps_simple [keeps_intros]: "keeps g (ret x)" "keeps g (raise e)" "keeps g hang" "keeps g (from_sum r)" "keeps g (get_p f)"
  by (auto simp: keeps_def wp_rules split: sum.splits)

lemma keepsI: "(\<And>s r s'. m s = (r, s') \<Longrightarrow> g s' = g s) \<Longrightarrow> keeps g m"
  by (auto simp: keeps_def intro: wpI)

lemma keepsD: "keeps g m \<Longrightarrow> m s = (r, s') \<Longrightarrow> g s' = g s"
  unfolding keeps_def using wp_run by fastforce

lemma keeps_bind [keeps_intros]:
  assumes "keeps g m" "\<And>x. keeps g (f x)"
  shows "keeps g (bind_p m f)"
proof (rule keepsI)
  fix s r s'
  assume run: "bind_p m f s = (r, s')"
  obtain r1 s1 where m: "m s = (r1, s1)" by force
  show "g s' = g s"
    using run m keepsD [OF assms(1) m] keepsD [OF assms(2)] by (cases r1) (auto simp: bind_p_def)
qed

lemma keeps_then [keeps_intros]: "keeps g m \<Longrightarrow> keeps g k \<Longrightarrow> keeps g (then_p m k)"
  unfolding then_p_def by (rule keeps_bind)

lemma keeps_try_except [keeps_intros]:
  assumes "keeps g m" "\<And>e k. h e = Some k \<Longrightarrow> keeps g k"
  shows "keeps g (try_except m h)"
proof (rule keepsI)
  fix s r s'
  assume run: "try_except m h s = (r, s')"
  obtain r1 s1 where m: "m s = (r1, s1)" by force
  show "g s' = g s"
    using run m keepsD [OF assms(1) m] keepsD [OF assms(2)]
    by (cases r1) (auto simp: try_except_def split: option.splits)
qed

lemma keeps_if [keeps_intros]: "(b \<Longrightarrow> keeps g m) \<Longrightarrow> (\<not> b \<Longrightarrow> keeps g k) \<Longrightarrow> keeps g (if b then m else k)"
  by simp

lemma keeps_option [keeps_intros]:
  "(x = None \<Longrightarrow> keeps g a) \<Longrightarrow> (\<And>y. x = Some y \<Longrightarrow> keeps g (b y)) \<Longrightarrow> keeps g (case x of None \<Rightarrow> a | Some y \<Rightarrow> b y)"
  by (cases x) auto

lemma keeps_modify [keeps_intros]: "(\<And>s. g (f s) = g s) \<Longrightarrow> keeps g (modify_p f)"
  by (simp add: keeps_def wp_rules)

lemma keeps_settings [keeps_intros]:
  "keeps node_settings (call reply ev)" "keeps node_settings (run_process w args)" "keeps node_settings (popen w args env)"
  "keeps node_settings (fs_check w op p)" "keeps node_settings (monotonic w)"
  by (auto simp: keeps_def wp_rules split: sum.splits prod.splits option.splits)

lemma keeps_files [keeps_intros]:
  "keeps node_settings (write_text w p t)" "keeps node_settings (chmod w p m)" "keeps node_settings (read_text w p)"
  "keeps node_settings (unlink w p)" "keeps node_settings (open_append w p)" "keeps node_settings (path_exists w p)"
  unfolding write_text_def chmod_def read_text_def unlink_def open_append_def path_exists_def
  by (intro keeps_intros; auto)+

lemma keeps_tool: "keeps node_settings (try_except (bind_p (run_process w args) (\<lambda>x. ret (f x))) no_tool)"
  by (intro keeps_intros) (auto simp: no_tool_def intro: keeps_intros split: if_splits)

lemma keeps_detect [keeps_intros]: "keeps node_settings (detect_tun_interface w hint)"
  by (simp add: detect_tun_interface_def detect_any_def detect_hinted_def keeps_tool split: option.splits)

lemma keeps_profile [keeps_intros]: "keeps node_settings (write_vpn_profile w p t)"
  unfolding write_vpn_profile_def write_secure_text_def make_parent_def by (intro keeps_intros)

lemma keeps_kill [keeps_intros]: "keeps node_settings (kill_openvpn_daemon w)"
  unfolding kill_openvpn_daemon_def signal_daemon_def
  by (intro keeps_intros) (auto intro!: keeps_intros split: if_splits)

lemma keeps_log [keeps_intros]: "keeps node_settings (read_openvpn_log_tail w n)"
  unfolding read_openvpn_log_tail_def Let_def by (intro keeps_intros) (auto intro: keeps_intros split: if_splits)

lemma keeps_start [keeps_intros]: "keeps node_settings (start_openvpn w p)"
  unfolding start_openvpn_def by (intro keeps_intros)

lemma keeps_poll [keeps_intros]: "keeps node_settings (poll_tunnel n w hint deadline)"
proof (induction n)
  case (Suc n)
  then show ?case unfolding poll_tunnel.simps host_sleep_def by (intro keeps_intros)
qed (simp add: keeps_intros)

lemma keeps_tunnel [keeps_intros]: "keeps node_settings (start_tunnel n w st)"
  unfolding start_tunnel_def wait_for_tunnel_def by (intro keeps_intros)

definition keeps_connection :: "settings \<Rightarrow> settings \<Rightarrow> bool" where
  "keeps_connection a b = (same_node a b \<and> keeps_keys a b \<and> keeps_identity a b \<and> keeps_endpoints a b)"

lemma keeps_connection_trans: "keeps_connection a b \<Longrightarrow> keeps_connection b c \<Longrightarrow> keeps_connection a c"
  by (simp add: keeps_connection_def keeping)

lemma bundle_taken_kept: "bundle_taken d a b \<Longrightarrow> keeps_connection b c \<Longrightarrow> bundle_taken d a c"
  by (auto simp: bundle_taken_def keeps_connection_def keeping)

lemma assigns_ret: "assigns (=) (ret ())"
  by (simp add: assigns_def wp_ret)

lemma apply_vpn_settings_assigns:
  assumes "accepting lib"
  shows "assigns keeps_connection (apply_vpn_settings lib vpn)"
proof -
  have ret: "assigns keeps_connection (ret ())"
    by (rule assigns_mono [OF assigns_ret]) (simp add: keeps_connection_def keeping)
  have upd: "assigns keeps_connection (assign lib (\<lambda>st. st\<lparr>vpn_required := b\<rparr>))"
    "assigns keeps_connection (assign lib (\<lambda>st. st\<lparr>vpn_interface_hint := h\<rparr>))"
    "assigns keeps_connection (assign lib (\<lambda>st. st\<lparr>vpn_check_interval_sec := i\<rparr>))"
    "assigns keeps_connection (assign lib (\<lambda>st. st\<lparr>vpn_probe_targets := ts\<rparr>))" for b h i ts
    by (rule assigns_mono [OF assigns_assign [OF assms]]; simp add: keeps_connection_def keeping)+
  note seq = assigns_then [where R = keeps_connection and T = keeps_connection and U = keeps_connection]
  have opt: "assigns keeps_connection a \<Longrightarrow> (\<And>y. x = Some y \<Longrightarrow> assigns keeps_connection (f y)) \<Longrightarrow>
      assigns keeps_connection (case x of None \<Rightarrow> a | Some y \<Rightarrow> f y)" for a :: "unit nprog" and x :: "'x option" and f
    by (cases x) auto
  show ?thesis unfolding apply_vpn_settings_def
  proof (intro seq, goal_cases)
    case 1 then show ?case by (intro opt ret) (auto intro: ret upd split: json.splits)
  next
    case 2 then show ?case by (intro opt upd) (auto intro: ret upd split: json.splits)
  next
    case 3 then show ?case by (auto intro: ret upd split: option.splits)
  next
    case 4 then show ?case by (auto intro: ret upd split: option.splits)
  qed (auto intro: keeps_connection_trans)
qed

lemma apply_vpn_run:
  assumes "accepting lib"
  shows "wp (apply_vpn n w lib vpn) (\<lambda>r s'.
    (keeps_connection (node_settings s) (node_settings s') \<or> (r \<noteq> Ret () \<and> trace s' = trace s \<and> fs s' = fs s))
    \<and> (r = Ret () \<and> vpn_required (node_settings s') \<longrightarrow> text_value (map_of vpn ''client_profile_ovpn'') \<noteq> None)) s"
  (is "wp _ ?Q s")
  unfolding apply_vpn_def wp_then
proof (rule wp_mono [OF apply_vpn_settings_assigns [OF assms, unfolded assigns_def, rule_format]], goal_cases)
  case (1 r s1)
  then obtain st where st: "s1 = s\<lparr>node_settings := st\<rparr>" "r = Ret () \<longrightarrow> keeps_connection (node_settings s) st" by blast
  let ?V = "bind_p (get_p node_settings) (\<lambda>st. case text_value (map_of vpn ''client_profile_ovpn'') of
      None \<Rightarrow> if vpn_required st then raise no_profile else ret ()
    | Some profile \<Rightarrow> if node_auto_vpn st
        then then_p (write_vpn_profile w (node_vpn_profile_path st) profile) (start_tunnel n w st) else ret ())"
  show ?case
  proof (cases r)
    case (Ret u)
    have "keeps node_settings ?V" by (intro keeps_intros)
    then have "node_settings s' = node_settings s1" if "?V s1 = (r', s')" for r' s' using that by (rule keepsD)
    then have "wp ?V (\<lambda>r s'. node_settings s' = st) s1" using st(1) by (intro wpI) simp
    moreover have "wp ?V (\<lambda>r s'. r = Ret () \<and> node_settings s' = st \<and> vpn_required st \<longrightarrow>
        text_value (map_of vpn ''client_profile_ovpn'') \<noteq> None) s1"
      using st by (auto simp: wp_bind wp_get_p wp_ret wp_raise intro: wpI split: option.splits)
    ultimately have "wp ?V (\<lambda>r s'. node_settings s' = st \<and> (r = Ret () \<and> node_settings s' = st \<and> vpn_required st \<longrightarrow>
        text_value (map_of vpn ''client_profile_ovpn'') \<noteq> None)) s1" by (rule wp_conj)
    then have "wp ?V ?Q s1" by (rule wp_mono) (use st Ret in auto)
    then show ?thesis using Ret by simp
  qed (use st in auto)
qed

lemma then_p_assoc: "then_p (then_p a b) c = then_p a (then_p b c)"
  by (simp add: then_p_def bind_p_assoc)

definition apply_vpn_section :: "nat \<Rightarrow> host \<Rightarrow> library \<Rightarrow> dict \<Rightarrow> unit nprog" where
  "apply_vpn_section n w lib d = (case map_of d ''vpn'' of Some (JObj vpn) \<Rightarrow> apply_vpn n w lib vpn | _ \<Rightarrow> ret ())"

lemma apply_node_bundle_stages:
  "apply_node_bundle n w lib (JObj d) = then_p (apply_connection lib d) (apply_vpn_section n w lib d)"
  by (simp add: apply_node_bundle_def bundle_dict_def from_sum_def bind_p_ret apply_connection_def
      apply_vpn_section_def then_p_assoc)


end
