(* ===== verification/App_Props.thy ===== *)
theory App_Props
  imports App Service_Props Bundle_Props Guard_Props
begin

text \<open>
  The application as a whole. Startup: no background task is started unless everything before it
  succeeded, and the parts then agree with the settings. Shutdown: the order of its steps, and
  what is left undone when a background task has crashed. Readiness: what the probe answers.
\<close>

section \<open>No task before everything is ready\<close>

fun no_task :: "host_event \<Rightarrow> bool" where
  "no_task (H_Start_Task _) = False"
| "no_task _ = True"

lemma settings_emits_no_task [emits_intros]: "emits_all no_task (load_settings env_data w lib)"
  by (rule load_settings_emits) simp

lemma detect_emits [emits_intros]: "emits_all no_task (detect_tun_interface w hint)"
  unfolding detect_tun_interface_def detect_any_def detect_hinted_def no_tool_def
  by (auto intro!: emits_intros split: if_splits option.split)

lemma write_secure_emits [emits_intros]: "emits_all no_task (write_secure_text w p t)"
  unfolding write_secure_text_def by (auto intro!: emits_intros)

lemma kill_openvpn_emits [emits_intros]: "emits_all no_task (kill_openvpn_daemon w)"
  unfolding kill_openvpn_daemon_def signal_daemon_def
  by (auto intro!: emits_intros split: if_splits)

lemma poll_tunnel_emits [emits_intros]: "emits_all no_task (poll_tunnel n w hint deadline)"
  by (induction n) (auto intro!: emits_intros simp: read_openvpn_log_tail_def Let_def split: if_splits)

lemma start_tunnel_emits [emits_intros]: "emits_all no_task (start_tunnel n w st)"
  unfolding start_tunnel_def start_openvpn_def wait_for_tunnel_def open_append_def
  by (auto intro!: emits_intros split: option.split)

lemma apply_vpn_emits [emits_intros]: "emits_all no_task (apply_vpn n w lib vpn)"
  unfolding apply_vpn_def apply_vpn_settings_def write_vpn_profile_def
  by (intro emits_intros; simp)

lemma apply_identity_emits [emits_intros]: "emits_all no_task (apply_identity lib d)"
  unfolding apply_identity_def by (intro emits_intros)

lemma apply_endpoints_emits [emits_intros]: "emits_all no_task (apply_endpoints lib d)"
  unfolding apply_endpoints_def apply_path_def by (intro emits_intros)

lemma install_bundle_emits [emits_intros]: "emits_all no_task (install_bundle n w lib b)"
  unfolding install_bundle_def apply_node_bundle_def apply_credential_def persist_runtime_config_def
  by (intro emits_intros; simp)

lemma connect_loop_emits [emits_intros]: "emits_all no_task (connect_loop w lib auth payload k attempt n le)"
proof (induction n arbitrary: attempt le)
  case (Suc n)
  have "emits_all no_task (connect_attempt w auth payload attempt n)"
    unfolding connect_attempt_def connect_once_def connect_handler_def Let_def
    by (auto intro!: emits_intros split: exn.splits if_splits sum.split)
  with Suc show ?case by (auto intro!: emits_intros)
qed (simp add: connect_give_up_def emits_intros)

lemma fetch_bundle_emits [emits_intros]: "emits_all no_task (fetch_bundle n w lib connectivity)"
  unfolding fetch_bundle_def fetch_node_bundle_def fetch_reconnect_bundle_def ensure_persisted_vpn_def
    resolve_machine_fingerprint_def post_connect_def sign_connect_def Let_def
  by (auto intro!: emits_intros)

lemma connect_settings_emits [emits_intros]: "emits_all no_task (connect_settings n w lib)"
  unfolding connect_settings_def connectivity_payload_for_connect_def resolve_machine_fingerprint_def
    install_failed_def Let_def
  by (auto intro!: emits_intros split: if_splits)

lemma dns_failures_no_task [emits_intros]: "emits_all no_task (dns_failures w ts)"
  by (induction ts) (auto intro!: emits_intros simp: resolve_host_def split: option.split if_splits)

lemma probe_all_no_task [emits_intros]: "emits_all no_task (probe_all w hs ts)"
  by (induction ts) (auto intro!: emits_intros simp: probe_target_def latency_since_def split: if_splits)

lemma preflight_emits [emits_intros]: "emits_all no_task (preflight w)"
  unfolding preflight_def preflight_dns_def preflight_probes_def unavailable_def set_state_def Let_def
  by (auto intro!: emits_intros)


section \<open>Startup\<close>

lemma with_guard_emits [emits_intros]:
  assumes "emits_all P m"
  shows "emits_all P (with_guard g m)"
  unfolding emits_all_def
  using emits_allD [OF assms] by (fastforce simp: wp_def with_guard_def split: prod.split)

lemma with_guard_preflight:
  "wp (with_guard g (preflight w))
     (on_return (\<lambda>(vpn, g') s'. node_settings s' = node_settings s \<and> g' = g\<lparr>g_state := verdict_state vpn\<rparr>)) s"
proof -
  let ?s = "\<lparr>trace = trace s, fs = fs s, environ = environ s, guard = g\<rparr>"
  obtain r t where run: "preflight w ?s = (r, t)" by force
  then have "preflight_post ?s r t" using preflight_run [of w ?s] by (simp add: wp_def)
  then show ?thesis using run
    by (auto simp: wp_def with_guard_def on_return_def preflight_post_def guard_run_def split: outcome.splits)
qed

text \<open>What the parts of a started application have in common with its settings.\<close>

definition same_identity :: "settings \<Rightarrow> 'o app_parts \<Rightarrow> bool" where
  "same_identity st ps =
     (wc_qpu_id (app_webhook ps) = qpu_id st \<and> wc_private_key (app_webhook ps) = jwt_private_key st
      \<and> wc_key_id (app_webhook ps) = jwt_key_id st \<and> c_webhook (app_consumer ps) = app_webhook ps
      \<and> c_stream (app_consumer ps) = ''qpu:'' @ qpu_id st @ '':jobs''
      \<and> hb_qpu_id (app_heartbeat ps) = qpu_id st \<and> hb_jwt_private_key (app_heartbeat ps) = jwt_private_key st
      \<and> hb_jwt_key_id (app_heartbeat ps) = jwt_key_id st \<and> hb_url (app_heartbeat ps) = heartbeat_url st
      \<and> g_probe_targets (app_guard ps) = vpn_probe_urls st \<and> g_vpn_required (app_guard ps) = vpn_required st)"

definition guard_settled :: "settings \<Rightarrow> vpn_guard \<Rightarrow> bool" where
  "guard_settled st g =
     (g_state g \<in> {READY, VPN_UNAVAILABLE}
      \<and> (vpn_required st \<and> \<not> allow_degraded_startup st \<longrightarrow> is_ready g))"

lemma build_parts_identity:
  assumes "build_parts py from_url device batches view executor st ((settings_guard st)\<lparr>g_state := v\<rparr>) = Inr ps"
  shows "same_identity st ps \<and> app_guard ps = (settings_guard st)\<lparr>g_state := v\<rparr>"
  using assms
  by (auto simp: build_parts_def bind_sum_Inr_iff Let_def same_identity_def settings_webhook_def new_consumer_def
      settings_heartbeat_def new_heartbeat_client_def settings_guard_def new_guard_def)

lemma prepare_emits: "emits_all no_task (lifespan_prepare n w lib py from_url device batches view executor env_data)"
  unfolding lifespan_prepare_def by (intro emits_intros)

lemma prepare_run:
  "wp (lifespan_prepare n w lib py from_url device batches view executor env_data)
     (on_return (\<lambda>ps s'. same_identity (node_settings s') ps \<and> guard_settled (node_settings s') (app_guard ps))) s"
proof -
  have checked: "wp (bind_p (with_guard (settings_guard st) (preflight w)) (\<lambda>(vpn, g).
        if preflight_failed st vpn
        then raise (Exn RuntimeError (''VPN preflight failed: '' @ vs_reason vpn))
        else from_sum (build_parts py from_url device batches view executor st g)))
      (on_return (\<lambda>ps s'. same_identity (node_settings s') ps \<and> guard_settled (node_settings s') (app_guard ps))) s1"
    if "st = node_settings s1" for st s1
    unfolding wp_bind
    by (rule wp_mono [OF with_guard_preflight])
       (auto simp: on_return_def wp_rules that preflight_failed_def guard_settled_def is_ready_def verdict_state_def
         split: outcome.splits sum.splits if_splits dest!: build_parts_identity)
  show ?thesis unfolding lifespan_prepare_def
    by (intro wp_last_then) (simp add: wp_bind [of "get_p node_settings"] wp_get_p checked)
qed

lemma start_tasks_run:
  "then_p start_tasks (ret x) s =
     (Ret x, emits [H_Start_Task ''watch'', H_Start_Task ''consumer'', H_Start_Task ''heartbeat''] s)"
  by (simp add: start_tasks_def note_event_def then_p_def bind_p_def modify_p_def ret_def)


text \<open>A first start with a token, on a machine without a tunnel, in degraded mode.\<close>

definition demo_start :: "nat app_parts nprog" where
  "demo_start = lifespan_start 0 cloud_host demo_library demo_python (\<lambda>_. Inr ()) (\<lambda>_. None) (\<lambda>_. False)
     (\<lambda>_. \<lparr>v_current_job_id = None, v_last_job_at = None, v_redis_healthy = True\<rparr>) None (\<lambda>_. [])"

lemma demo_preflight_run:
  assumes "g_interface_hint g = None" "g_vpn_required g"
  shows "\<exists>vpn evs. with_guard g (preflight cloud_host) s = (Ret (vpn, g\<lparr>g_state := VPN_UNAVAILABLE\<rparr>), emits evs s)"
  using assms
  by (cases s) (auto simp: with_guard_def preflight_def detect_tun_interface_def detect_any_def run_process_def cloud_host_def
      quiet_host_def unavailable_def set_state_def splitlines_def try_except_def bind_p_def then_p_def get_p_def
      modify_p_def ret_def emits_def)

lemma demo_parts:
  assumes "executor_factory st = []"
  shows "\<exists>ps. build_parts demo_python (\<lambda>_. Inr ()) (\<lambda>_. None) batches view None st g = Inr ps
    \<and> app_runner ps = Configured 1"
  using demo_loaded [OF assms]
  by (simp add: build_parts_def bind_sum_def runner_device_def resolve_connectivity_from_device_spec_def Let_def)

lemma demo_started:
  "\<exists>ps s'. demo_start empty_node = (Ret ps, s') \<and> qpu_id (node_settings s') = ''q1'' \<and> app_runner ps = Configured 1
     \<and> on_disk cloud_host s'"
proof -
  obtain s1 where s1: "load_settings (\<lambda>_. []) cloud_host demo_library empty_node = (Ret (), s1)"
    "node_settings s1 = (default_settings quiet_host)\<lparr>node_token := ''once'', allow_degraded_startup := True\<rparr>"
    using demo_load by (auto simp: wp_def split: prod.splits)
  then obtain s2 where s2: "connect_settings 0 cloud_host demo_library s1 = (Ret (), s2)"
    "node_settings s2 = provisioned ((node_settings s1)\<lparr>node_machine_fingerprint := machine_fingerprint cloud_host\<rparr>)"
    using demo_connect_from [of s1] by (auto simp: default_settings_def)
  let ?st = "node_settings s2"
  have st: "vpn_interface_hint ?st = None" "vpn_required ?st" "executor_factory ?st = []" "qpu_id ?st = ''q1''"
    "allow_degraded_startup ?st"
    by (simp_all add: s2 s1 provisioned_def default_settings_def)
  obtain vpn evs where g: "with_guard (settings_guard ?st) (preflight cloud_host) s2 =
      (Ret (vpn, (settings_guard ?st)\<lparr>g_state := VPN_UNAVAILABLE\<rparr>), emits evs s2)"
    using demo_preflight_run [of "settings_guard ?st" s2] st by (auto simp: settings_guard_def new_guard_def)
  obtain ps where ps: "build_parts demo_python (\<lambda>_. Inr ()) (\<lambda>_. None) (\<lambda>_. False)
      (\<lambda>_. \<lparr>v_current_job_id = None, v_last_job_at = None, v_redis_healthy = True\<rparr>) None ?st
      ((settings_guard ?st)\<lparr>g_state := VPN_UNAVAILABLE\<rparr>) = Inr ps" "app_runner ps = Configured 1"
    using demo_parts st by blast
  define s' where "s' = emits (evs @ [H_Start_Task ''watch'', H_Start_Task ''consumer'', H_Start_Task ''heartbeat'']) s2"
  have built: "from_sum (Inr ps) t = (Ret ps, t)" for t by (simp add: from_sum_def ret_def)
  have s': "demo_start empty_node = (Ret ps, s')"
    using s1(1) s2(1) g ps st
    by (simp add: demo_start_def lifespan_start_def lifespan_prepare_def then_p_def [of "load_settings _ _ _"]
        then_p_def [of "connect_settings _ _ _"] bind_p_def get_p_def preflight_failed_def built
        start_tasks_run s'_def)
  moreover have "on_disk cloud_host s2"
    using wp_run [OF connect_persists s2(1)] by simp
  moreover have "node_settings s' = ?st" "fs s' = fs s2" by (simp_all add: s'_def emits_def)
  ultimately show ?thesis using ps(2) st by (auto simp: on_disk_def)
qed



section \<open>Shutdown\<close>

lemma parts_emits [simp]:
  "parts (emits evs s) = parts s" "parts_update f (emits evs s) = emits evs (parts_update f s)"
  by (simp_all add: emits_def)

lemma keeps_parts [keeps_intros]:
  "keeps parts (call reply ev)" "keeps parts (run_process w args)" "keeps parts (fs_check w op p)"
  by (auto simp: keeps_def wp_rules split: sum.splits prod.splits option.splits)

lemma keeps_parts_kill: "keeps parts (kill_openvpn_daemon w)"
  unfolding kill_openvpn_daemon_def signal_daemon_def path_exists_def read_text_def unlink_def
  by (intro keeps_intros) (auto intro!: keeps_intros split: if_splits)

fun is_kill_event :: "host_event \<Rightarrow> bool" where
  "is_kill_event (H_File _ _ _) = True"
| "is_kill_event (H_Run _ _) = True"
| "is_kill_event (H_Kill _ _ _) = True"
| "is_kill_event _ = False"

lemma kill_shape:
  "wp (kill_openvpn_daemon w) (\<lambda>r s'. parts s' = parts s \<and> (\<exists>evs. trace s' = trace s @ evs \<and> list_all is_kill_event evs)
     \<and> (\<forall>b. r = Ret b \<longrightarrow> fs s' (OPENVPN_PID_PATH w) = None)) s"
proof -
  have "emits_all is_kill_event (kill_openvpn_daemon w)"
    unfolding kill_openvpn_daemon_def signal_daemon_def
    by (auto intro!: emits_intros split: if_splits)
  from wp_conj [OF keeps_parts_kill [unfolded keeps_def, rule_format]
      wp_conj [OF this [unfolded emits_all_def, rule_format] kill_openvpn_run]]
  show ?thesis by (rule wp_mono) auto
qed

text \<open>The end of a task that was cancelled, and the events of a shutdown.\<close>

definition ended :: "exn + unit \<Rightarrow> bool" where
  "ended r = (case r of Inr _ \<Rightarrow> True | Inl e \<Rightarrow> catches [CancelledError] e)"

definition shutdown_events :: "int \<Rightarrow> exn + unit \<Rightarrow> exn + unit \<Rightarrow> bool \<Rightarrow> exn + unit \<Rightarrow> host_event list" where
  "shutdown_events timeout r1 r2 drained r3 =
     [H_Cancel_Task ''watch'', H_Await_Task ''watch'' r1,
      H_Close ''heartbeat'' (Inr ()), H_Cancel_Task ''heartbeat'', H_Await_Task ''heartbeat'' r2,
      H_Drain timeout (Inr drained), H_Cancel_Task ''consumer'', H_Await_Task ''consumer'' r3,
      H_Close ''webhook'' (Inr ()), H_Close ''redis'' (Inr ())]"

lemma wp_end_task:
  "wp (end_task w t) Q s = (let r = h_await_task w (trace s @ [H_Cancel_Task t]) t;
       s' = emits [H_Cancel_Task t, H_Await_Task t r] s
     in if ended r then Q (Ret ()) s' else Q (Raise (projl r)) s')"
  by (auto simp: end_task_def cancel_task_def await_cancelled_def wp_rules ended_def Let_def split: sum.split)

lemma wp_host_close:
  "wp (host_close w c) Q s = (case h_close w (trace s) c of Inl e \<Rightarrow> Q (Raise e) (emits [H_Close c (Inl e)] s) | Inr _ \<Rightarrow> Q (Ret ()) (emits [H_Close c (Inr ())] s))"
  by (simp add: host_close_def wp_call split: sum.split)

lemma wp_app_steps:
  "wp app_guard_stop Q s = Q (Ret ()) (s\<lparr>parts := (parts s)\<lparr>app_guard := (app_guard (parts s))\<lparr>g_running := False\<rparr>\<rparr>\<rparr>)"
  "wp (app_heartbeat_close w) Q s = wp (host_close w ''heartbeat'') Q
     (s\<lparr>parts := (parts s)\<lparr>app_heartbeat := (app_heartbeat (parts s))\<lparr>hb_running := False\<rparr>\<rparr>\<rparr>)"
  "wp (app_drain w timeout) R t = (case h_drain w (trace t) timeout of
     Inl e \<Rightarrow> R (Raise e) (emits [H_Drain timeout (Inl e)] t) | Inr b \<Rightarrow> R (Ret b) (emits [H_Drain timeout (Inr b)] t))"
  by (simp_all add: app_guard_stop_def app_heartbeat_close_def app_drain_def wp_rules)

text \<open>
  C16: an orderly shutdown. When it completes, it has stopped the watch task, then the heartbeat
  (client first, then its task), only then drained the consumer, cancelled it after the drain, and
  closed the webhook and Redis clients after that; every task had ended. The OpenVPN daemon is
  killed last, and leaves no PID file.
\<close>

theorem shutdown_in_order:
  assumes "lifespan_stop w st s = (Ret (), s')"
  shows "\<exists>r1 r2 drained r3 evs.
    trace s' = trace s @ shutdown_events (shutdown_drain_timeout_sec st) r1 r2 drained r3 @ evs
    \<and> list_all ended [r1, r2, r3] \<and> list_all is_kill_event evs \<and> fs s' (OPENVPN_PID_PATH w) = None
    \<and> \<not> g_running (app_guard (parts s')) \<and> \<not> hb_running (app_heartbeat (parts s'))"
proof -
  define Q where "Q = on_return (\<lambda>(_::unit) (s'::'a app_state). \<exists>r1 r2 drained r3 evs.
    trace s' = trace s @ shutdown_events (shutdown_drain_timeout_sec st) r1 r2 drained r3 @ evs
    \<and> list_all ended [r1, r2, r3] \<and> list_all is_kill_event evs \<and> fs s' (OPENVPN_PID_PATH w) = None
    \<and> \<not> g_running (app_guard (parts s')) \<and> \<not> hb_running (app_heartbeat (parts s')))"
  have raised: "Q (Raise e) t" for e t by (simp add: Q_def on_return_def)
  have last: "wp (then_p (kill_openvpn_daemon w) (ret ())) Q
      (emits (shutdown_events (shutdown_drain_timeout_sec st) r1 r2 drained r3) s1)"
    if "trace s1 = trace s" "ended r1" "ended r2" "ended r3"
      "\<not> g_running (app_guard (parts s1))" "\<not> hb_running (app_heartbeat (parts s1))" for s1 r1 r2 drained r3
    unfolding wp_then
    by (rule wp_mono [OF kill_shape])
       (use that in \<open>(auto simp: Q_def on_return_def wp_ret split: outcome.split), blast\<close>)
  have "wp (lifespan_stop w st) Q s"
    unfolding lifespan_stop_def
    by (auto simp: wp_then [of "app_guard_stop"] wp_then [of "end_task _ _"] wp_then [of "app_heartbeat_close _"]
        wp_then [of "app_drain _ _"] wp_then [of "host_close _ _"] wp_app_steps wp_end_task wp_host_close Let_def
        raised intro!: last [unfolded shutdown_events_def] split: sum.split)
  then show ?thesis using assms by (simp add: wp_def Q_def on_return_def)
qed

text \<open>A node that is running with a tunnel; every task ends by its cancellation.\<close>

definition running_parts :: "nat app_parts" where
  "running_parts =
     \<lparr>app_guard = (settings_guard (default_settings quiet_host))\<lparr>g_state := READY, g_running := True\<rparr>, app_runner = NoopExecutor,
      app_webhook = settings_webhook (default_settings quiet_host),
      app_consumer = new_consumer (settings_webhook (default_settings quiet_host)) ''q1'' ''worker-0'' 60000 False,
      app_heartbeat = (settings_heartbeat (default_settings quiet_host)
        (\<lambda>_. \<lparr>v_current_job_id = None, v_last_job_at = None, v_redis_healthy = True\<rparr>) None)\<lparr>hb_running := True\<rparr>\<rparr>"

definition running_app :: "nat app_state" where
  "running_app = \<lparr>trace = [], fs = fs daemon_running, environ = [], parts = running_parts\<rparr>"

lemma wp_kill_quiet:
  assumes "fs s = fs daemon_running"
  shows "wp (then_p (kill_openvpn_daemon quiet_host) (ret ())) (\<lambda>r _. r = Ret ()) s"
proof -
  have "parse_pid (universal_newlines (''4711'' @ newline)) = Inr 4711" by code_simp
  moreover have "bytes_decode (''4711'' @ newline) = Inr (''4711'' @ newline)" by code_simp
  moreover have "h_fs_error quiet_host h op p = None" "h_os_name quiet_host \<noteq> ''nt''" "h_kill quiet_host h pid sig = Inr ()"
    for h op p pid sig by (simp_all add: quiet_host_def)
  ultimately show ?thesis using assms
    by (simp add: kill_openvpn_daemon_def path_exists_def read_text_def signal_daemon_def unlink_def wp_rules
        daemon_running_def)
qed

lemma quiet_answers:
  "h_await_task quiet_host h t = Inl (Exn CancelledError [])" "h_close quiet_host h c = Inr ()"
  "h_drain quiet_host h k = Inr True"
  by (simp_all add: quiet_host_def)

theorem shutdown_in_order_witness:
  "\<exists>s'. lifespan_stop quiet_host (default_settings quiet_host) running_app = (Ret (), s')
     \<and> fs s' (OPENVPN_PID_PATH quiet_host) = None \<and> fs running_app (OPENVPN_PID_PATH quiet_host) \<noteq> None"
proof -
  have "wp (lifespan_stop quiet_host (default_settings quiet_host)) (\<lambda>r _. r = Ret ()) running_app"
    by (simp add: lifespan_stop_def wp_then [of "app_guard_stop"] wp_then [of "end_task _ _"]
        wp_then [of "app_heartbeat_close _"] wp_then [of "app_drain _ _"] wp_then [of "host_close _ _"]
        wp_app_steps wp_end_task wp_host_close Let_def quiet_answers ended_def wp_kill_quiet running_app_def)
  then obtain s' where s': "lifespan_stop quiet_host (default_settings quiet_host) running_app = (Ret (), s')"
    by (auto simp: wp_def split: prod.splits)
  moreover have "fs running_app (OPENVPN_PID_PATH quiet_host) \<noteq> None"
    by (simp add: running_app_def daemon_running_def)
  ultimately show ?thesis using shutdown_in_order [OF s'] by blast
qed

text \<open>
  C36: a crashed task breaks the shutdown. If awaiting the watch task raises anything but a
  cancellation, the shutdown ends there with that exception: the consumer is not drained, no client
  is closed and the OpenVPN daemon is left running.
\<close>

theorem shutdown_stops_at_crashed_task:
  assumes "h_await_task w (trace s @ [H_Cancel_Task ''watch'']) ''watch'' = Inl e" "\<not> catches [CancelledError] e"
  shows "\<exists>s'. lifespan_stop w st s = (Raise e, s') \<and> fs s' = fs s
    \<and> trace s' = trace s @ [H_Cancel_Task ''watch'', H_Await_Task ''watch'' (Inl e)]"
proof -
  have "wp (lifespan_stop w st) (\<lambda>r s'. r = Raise e \<and> fs s' = fs s
    \<and> trace s' = trace s @ [H_Cancel_Task ''watch'', H_Await_Task ''watch'' (Inl e)]) s"
    using assms
    by (simp add: lifespan_stop_def wp_then [of "app_guard_stop"] wp_then [of "end_task _ _"]
        wp_app_steps wp_end_task ended_def Let_def)
  then show ?thesis by (auto simp: wp_def split: prod.splits)
qed

definition crashed_host :: host where
  "crashed_host = quiet_host\<lparr>h_await_task := (\<lambda>_ t.
     Inl (if t = ''watch'' then Exn PermissionError ''ip'' else Exn CancelledError []))\<rparr>"

theorem shutdown_stops_at_crashed_task_witness:
  "\<exists>s'. lifespan_stop crashed_host (default_settings quiet_host) running_app = (Raise (Exn PermissionError ''ip''), s')
     \<and> fs s' (OPENVPN_PID_PATH crashed_host) \<noteq> None"
proof -
  have "h_await_task crashed_host (trace running_app @ [H_Cancel_Task ''watch'']) ''watch'' = Inl (Exn PermissionError ''ip'')"
    by (simp add: crashed_host_def)
  moreover have "\<not> catches [CancelledError] (Exn PermissionError ''ip'')" by code_simp
  ultimately obtain s' where "lifespan_stop crashed_host (default_settings quiet_host) running_app = (Raise (Exn PermissionError ''ip''), s')"
    "fs s' = fs running_app"
    using shutdown_stops_at_crashed_task by blast
  then show ?thesis by (simp add: running_app_def daemon_running_def crashed_host_def OPENVPN_PID_PATH_def)
qed


section \<open>Readiness\<close>

text \<open>
  \<^verbatim>\<open>GET /ready\<close> answers 200 or 503, and 200 exactly if the check ended in time, the guard is ready
  and Redis is healthy; so a node that started without a degraded mode is ready as soon as Redis is.
  The body's \<^verbatim>\<open>ready\<close> agrees with the status, and names the state and the current job except on a timeout.
\<close>

theorem ready_answer:
  "fst (ready in_time g v) = (if in_time \<and> g_state g = READY \<and> v_redis_healthy v then 200 else 503)"
  "\<exists>d. snd (ready in_time g v) = JObj d \<and> map_of d ''ready'' = Some (JBool (fst (ready in_time g v) = 200))
     \<and> (map_of d ''vpn_state'' = (if in_time then Some (JStr (state_value (g_state g))) else None))
     \<and> (map_of d ''current_job'' = (if in_time then Some (optional_json JStr (v_current_job_id v)) else None))"
  by (simp_all add: ready_def check_readiness_def is_ready_def Let_def)

end
