(* ===== verification/Daemon.thy ===== *)
theory Daemon
  imports Service
begin

text \<open>
  \<open>server/daemon.py\<close>: the node server as a background process, tracked by a PID file. The
  loop of \<open>stop_daemon\<close> runs with fuel; \<open>Daemon_Props\<close> shows how much is enough. The path of
  the Python interpreter (\<^verbatim>\<open>sys.executable\<close>) is the argument \<open>executable\<close>.
\<close>

section \<open>The PID file\<close>

definition DAEMON_PID_PATH :: "host \<Rightarrow> string" where
  "DAEMON_PID_PATH w = h_tmp w @ ''/coda-node.pid''"

definition DAEMON_LOG_PATH :: "host \<Rightarrow> string" where
  "DAEMON_LOG_PATH w = h_tmp w @ ''/coda-node.log''"

definition read_daemon_pid :: "host \<Rightarrow> ('a, int option) hprog" where
  "read_daemon_pid w =
     bind_p (path_exists w (DAEMON_PID_PATH w)) (\<lambda>there.
       if \<not> there then ret None
       else try_except
         (bind_p (read_text w (DAEMON_PID_PATH w)) (\<lambda>t. bind_p (from_sum (parse_pid t)) (\<lambda>pid. ret (Some pid))))
         (\<lambda>e. if catches [ValueError, OSError] e then Some (ret None) else None))"

definition os_kill :: "host \<Rightarrow> int \<Rightarrow> os_signal \<Rightarrow> ('a, unit) hprog" where
  "os_kill w pid sig = call (\<lambda>h. h_kill w h pid sig) (H_Kill pid sig)"

definition process_exists :: "host \<Rightarrow> int \<Rightarrow> ('a, bool) hprog" where
  "process_exists w pid =
     try_except (then_p (os_kill w pid SIG0) (ret True))
       (\<lambda>e. if catches [ProcessLookupError, PermissionError, OSError] e then Some (ret False) else None)"

definition is_daemon_running :: "host \<Rightarrow> ('a, bool) hprog" where
  "is_daemon_running w =
     bind_p (read_daemon_pid w) (\<lambda>pid.
       case pid of None \<Rightarrow> ret False | Some p \<Rightarrow> process_exists w p)"

record daemon_info =
  d_running :: bool
  d_pid :: "int option"
  d_pid_file :: string
  d_log_file :: string
  d_log_exists :: bool

definition daemon_status :: "host \<Rightarrow> ('a, daemon_info) hprog" where
  "daemon_status w =
     bind_p (read_daemon_pid w) (\<lambda>pid.
     bind_p (case pid of None \<Rightarrow> ret False | Some p \<Rightarrow> process_exists w p) (\<lambda>running.
     bind_p (path_exists w (DAEMON_LOG_PATH w)) (\<lambda>log_exists.
       ret \<lparr>d_running = running, d_pid = (if running then pid else None), d_pid_file = DAEMON_PID_PATH w,
            d_log_file = DAEMON_LOG_PATH w, d_log_exists = log_exists\<rparr>)))"


section \<open>Starting\<close>

definition show_pid :: "int option \<Rightarrow> string" where
  "show_pid pid = (case pid of None \<Rightarrow> ''None'' | Some p \<Rightarrow> show_int p)"

definition already_running :: "int option \<Rightarrow> exn" where
  "already_running pid = Exn RuntimeError (''Daemon already running (PID '' @ show_pid pid @ '')'')"

definition daemon_env :: "string \<Rightarrow> int \<Rightarrow> string option \<Rightarrow> environment \<Rightarrow> environment" where
  "daemon_env address bind_port token env =
     (let env = dict_set env ''CODA_HOST'' address;
          env = dict_set env ''CODA_PORT'' (show_int bind_port)
      in case token of None \<Rightarrow> env | Some t \<Rightarrow> if t = [] then env else dict_set env ''CODA_NODE_TOKEN'' t)"

definition daemon_command :: "string \<Rightarrow> string \<Rightarrow> int \<Rightarrow> string list" where
  "daemon_command executable address bind_port =
     [executable, ''-m'', ''uvicorn'', ''coda_node.server.app:app'', ''--host'', address,
      ''--port'', show_int bind_port, ''--log-level'', ''warning'']"

text \<open>\<^verbatim>\<open>0o644\<close> is 420. The log handle is only closed by the \<^verbatim>\<open>finally\<close> clause.\<close>

definition spawn_daemon ::
    "host \<Rightarrow> string \<Rightarrow> string \<Rightarrow> int \<Rightarrow> string option \<Rightarrow> ('a, int) hprog" where
  "spawn_daemon w executable address bind_port token =
     bind_p (get_p (\<lambda>s. daemon_env address bind_port token (environ s))) (\<lambda>env.
     then_p (open_append w (DAEMON_LOG_PATH w))
     (bind_p (popen w (daemon_command executable address bind_port) (Some env)) (\<lambda>pid.
      then_p (write_text w (DAEMON_PID_PATH w) (show_int pid @ newline))
      (then_p (if h_os_name w \<noteq> ''nt'' then chmod w (DAEMON_PID_PATH w) 420 else ret ())
       (ret pid)))))"

definition start_daemon ::
    "host \<Rightarrow> string \<Rightarrow> string \<Rightarrow> int \<Rightarrow> string option \<Rightarrow> ('a, int) hprog" where
  "start_daemon w executable address bind_port token =
     bind_p (is_daemon_running w) (\<lambda>running.
       if running then bind_p (read_daemon_pid w) (\<lambda>pid. raise (already_running pid))
       else bind_p (path_exists w (DAEMON_PID_PATH w)) (\<lambda>stale.
         then_p (if stale then unlink_existing w (DAEMON_PID_PATH w) else ret ())
          (spawn_daemon w executable address bind_port token)))"


section \<open>Stopping\<close>

fun await_exit :: "nat \<Rightarrow> host \<Rightarrow> int \<Rightarrow> rat \<Rightarrow> ('a, unit) hprog" where
  "await_exit 0 w pid deadline = hang"
| "await_exit (Suc n) w pid deadline =
     bind_p (monotonic w) (\<lambda>now.
       if now < deadline then
         bind_p (process_exists w pid) (\<lambda>alive.
           if \<not> alive then ret ()
           else then_p (host_sleep w (1 / 10)) (await_exit n w pid deadline))
       else then_p (os_kill w pid SIGKILL) (host_sleep w (1 / 2)))"

definition terminate :: "nat \<Rightarrow> host \<Rightarrow> int \<Rightarrow> rat \<Rightarrow> ('a, unit) hprog" where
  "terminate n w pid timeout =
     (if h_os_name w = ''nt''
      then then_p (run_process w [''taskkill'', ''/PID'', show_int pid, ''/T'', ''/F'']) (ret ())
      else then_p (os_kill w pid SIGTERM)
        (bind_p (monotonic w) (\<lambda>now. await_exit n w pid (now + timeout))))"

definition stop_daemon :: "nat \<Rightarrow> host \<Rightarrow> rat \<Rightarrow> ('a, bool) hprog" where
  "stop_daemon n w timeout =
     bind_p (read_daemon_pid w) (\<lambda>found.
       case found of
         None \<Rightarrow> ret False
       | Some pid \<Rightarrow>
           bind_p (process_exists w pid) (\<lambda>alive.
             if \<not> alive then then_p (unlink w (DAEMON_PID_PATH w)) (ret False)
             else try_except
               (then_p (terminate n w pid timeout) (then_p (unlink w (DAEMON_PID_PATH w)) (ret True)))
               (\<lambda>e. if catches [PermissionError, ProcessLookupError, TimeoutExpired] e
                    then Some (then_p (unlink w (DAEMON_PID_PATH w)) (ret False)) else None)))"


section \<open>The log\<close>

text \<open>The slice \<^verbatim>\<open>xs[-k:]\<close>: for \<^verbatim>\<open>k = 0\<close> it is \<^verbatim>\<open>xs[0:]\<close>, for a negative \<^verbatim>\<open>k\<close> it drops elements.\<close>

definition last_slice :: "int \<Rightarrow> 'a list \<Rightarrow> 'a list" where
  "last_slice k xs = (if 0 < k then drop (length xs - nat k) xs else drop (nat (- k)) xs)"

definition tail_daemon_log :: "host \<Rightarrow> int \<Rightarrow> ('a, string) hprog" where
  "tail_daemon_log w lines =
     bind_p (path_exists w (DAEMON_LOG_PATH w)) (\<lambda>there.
       if \<not> there then ret []
       else try_except
         (bind_p (read_text w (DAEMON_LOG_PATH w)) (\<lambda>t. ret (join newline (last_slice lines (splitlines t)))))
         (\<lambda>e. if catches [OSError] e then Some (ret []) else None))"

end
