(* ===== verification/Cli.thy ===== *)
theory Cli
  imports Daemon "HOL-Library.List_Lexorder" "HOL-Library.Char_ord"
begin

text \<open>
  \<open>server/cli.py\<close>: the \<^verbatim>\<open>coda\<close> command. \<open>cli_main\<close> starts from what argparse read
  (\<open>namespace\<close>, whose shape is that of the parser); its result is the code of the
  \<^verbatim>\<open>SystemExit\<close> it ends with, or \<open>None\<close> when it returns. \<open>env_data\<close> is how pydantic
  reads the environment, and \<open>n\<close> the fuel of \<open>stop_daemon\<close>. Text that is not ASCII is
  written as its UTF-8 bytes.
\<close>

section \<open>Arguments\<close>

record start_args =
  arg_host :: "string option"
  arg_port :: "int option"
  arg_node_token :: "string option"
  arg_daemon :: bool

datatype command = Start start_args | Stop | Status | Doctor | Reset | Stop_Vpn | Logs int

record namespace =
  arg_reset :: bool
  arg_command :: "command option"

definition set_variable :: "string \<Rightarrow> string \<Rightarrow> ('a, unit) hprog" where
  "set_variable name v = modify_p (\<lambda>s. s\<lparr>environ := dict_set (environ s) name v\<rparr>)"

definition set_nonempty :: "string \<Rightarrow> string option \<Rightarrow> ('a, unit) hprog" where
  "set_nonempty name v =
     (case v of None \<Rightarrow> ret () | Some t \<Rightarrow> if t = [] then ret () else set_variable name t)"

definition apply_overrides :: "start_args \<Rightarrow> ('a, unit) hprog" where
  "apply_overrides args =
     then_p (set_nonempty ''CODA_HOST'' (arg_host args))
     (then_p (case arg_port args of None \<Rightarrow> ret () | Some p \<Rightarrow> set_variable ''CODA_PORT'' (show_int p))
       (set_nonempty ''CODA_NODE_TOKEN'' (arg_node_token args)))"


section \<open>Output\<close>

definition BANNER_WIDTH :: nat where
  "BANNER_WIDTH = 48"

text \<open>The characters of the frame, the middle dot, the arrow and the check mark.\<close>

definition box :: "char \<Rightarrow> string" where
  "box c = [CHR 0xE2, CHR 0x94, c]"

definition rule :: "nat \<Rightarrow> string" where
  "rule k = concat (replicate k (box (CHR 0x80)))"

definition dotted :: "string \<Rightarrow> string \<Rightarrow> string" where
  "dotted a b = a @ ''  '' @ [CHR 0xC2, CHR 0xB7] @ ''  '' @ b"

definition arrow :: string where
  "arrow = [CHR 0xE2, CHR 0x86, CHR 0x92]"

definition check_mark :: string where
  "check_mark = [CHR 0xE2, CHR 0x9C, CHR 0x93]"

text \<open>The formats \<^verbatim>\<open>{s:<k}\<close> and \<^verbatim>\<open>{s:^k}\<close>, which count code points.\<close>

definition pad_right :: "nat \<Rightarrow> string \<Rightarrow> string" where
  "pad_right k s = s @ replicate (k - code_points s) (CHR '' '')"

definition pad_both :: "nat \<Rightarrow> string \<Rightarrow> string" where
  "pad_both k s =
     (let total = k - code_points s; left = total div 2
      in replicate left (CHR '' '') @ s @ replicate (total - left) (CHR '' ''))"

definition print_banner :: "string \<Rightarrow> (string \<times> string) list \<Rightarrow> ('a, unit) hprog" where
  "print_banner title rows =
     for_p
       ([[],
         ''  '' @ box (CHR 0x8C) @ rule (BANNER_WIDTH - 2) @ box (CHR 0x90),
         ''  '' @ box (CHR 0x82) @ pad_both (BANNER_WIDTH - 2) title @ box (CHR 0x82),
         ''  '' @ box (CHR 0x94) @ rule (BANNER_WIDTH - 2) @ box (CHR 0x98),
         []]
        @ map (\<lambda>(label, v). ''  '' @ pad_right 14 label @ v) rows
        @ [[], ''  '' @ rule BANNER_WIDTH, []])
       say"

definition print_status :: "string \<Rightarrow> string \<Rightarrow> ('a, unit) hprog" where
  "print_status label v = say (''  '' @ pad_right 2 arrow @ '' '' @ pad_right 14 label @ v)"

definition start_mode :: "string \<Rightarrow> string" where
  "start_mode token = (if token \<noteq> [] then ''token'' else ''env'')"


section \<open>Reset\<close>

text \<open>Paths are compared by their components, on Windows without regard to case.\<close>

definition path_key :: "host \<Rightarrow> string \<Rightarrow> string list" where
  "path_key w p = split_on (CHR ''/'') (if h_os_name w = ''nt'' then lower p else p)"

definition fixed_paths :: "host \<Rightarrow> string list" where
  "fixed_paths w =
     [PERSISTED_CONFIG_PATH w, PERSISTED_PRIVATE_KEY_PATH w, OPENVPN_PID_PATH w, OPENVPN_LOG_PATH w,
      DAEMON_PID_PATH w, DAEMON_LOG_PATH w, h_tmp w @ ''/coda-node.ovpn'']"

text \<open>The two paths that the persisted configuration may name.\<close>

definition configured_paths :: "json \<Rightarrow> string list" where
  "configured_paths data =
     (case data of
        JObj d \<Rightarrow> List.map_filter
          (\<lambda>k. case map_of d k of Some (JStr v) \<Rightarrow> if v = [] then None else Some v | _ \<Rightarrow> None)
          [''jwt_private_key_path'', ''node_vpn_profile_path'']
      | _ \<Rightarrow> [])"

definition read_reset_paths :: "host \<Rightarrow> ('a, string list) hprog" where
  "read_reset_paths w =
     bind_p (path_exists w (PERSISTED_CONFIG_PATH w)) (\<lambda>there.
     bind_p (if there
             then try_except
               (bind_p (read_text w (PERSISTED_CONFIG_PATH w)) (\<lambda>t. from_sum (json_loads t)))
               (\<lambda>e. if catches [OSError, JSONDecodeError] e then Some (ret (JObj [])) else None)
             else ret (JObj [])) (\<lambda>data.
       ret (sort_key (path_key w) (remdups (fixed_paths w @ configured_paths data)))))"

text \<open>One path of the loop; the result says whether a file was removed.\<close>

definition reset_path :: "host \<Rightarrow> string \<Rightarrow> ('a, bool) hprog" where
  "reset_path w p =
     bind_p (path_exists w p) (\<lambda>there.
       if there
       then then_p (unlink_existing w p)
             (then_p (say (''  '' @ check_mark @ '' Removed '' @ p)) (ret True))
       else then_p (say (''  - Not found '' @ p)) (ret False))"

fun reset_files :: "host \<Rightarrow> bool \<Rightarrow> string list \<Rightarrow> ('a, bool) hprog" where
  "reset_files w removed_any [] = ret removed_any"
| "reset_files w removed_any (p # ps) =
     bind_p (reset_path w p) (\<lambda>r. reset_files w (removed_any \<or> r) ps)"

definition reset :: "nat \<Rightarrow> host \<Rightarrow> ('a, int) hprog" where
  "reset n w =
     then_p (say ''Resetting persisted Coda runtime state...'')
     (bind_p (stop_daemon n w 10) (\<lambda>daemon_stopped.
      then_p (say (if daemon_stopped then ''  Stopped Coda daemon'' else ''  No Coda daemon running''))
     (bind_p (kill_openvpn_daemon w) (\<lambda>vpn_killed.
      then_p (say (if vpn_killed then ''  Stopped managed OpenVPN daemon'' else ''  No managed VPN process found''))
     (bind_p (read_reset_paths w) (\<lambda>ps.
      bind_p (reset_files w False ps) (\<lambda>removed_any.
      then_p (if removed_any then ret () else say ''  No persisted runtime files found'') (ret 0))))))))"


section \<open>Doctor\<close>

definition or_text :: "string \<Rightarrow> string \<Rightarrow> string" where
  "or_text v d = (if v = [] then d else v)"

definition or_option :: "string option \<Rightarrow> string \<Rightarrow> string" where
  "or_option v d = (case v of None \<Rightarrow> d | Some t \<Rightarrow> or_text t d)"

definition doctor :: "(environment \<Rightarrow> dict) \<Rightarrow> host \<Rightarrow> library \<Rightarrow> int nprog" where
  "doctor env_data w lib =
     then_p (load_settings env_data w lib)
     (bind_p (get_p node_settings) (\<lambda>st.
      bind_p (detect_tun_interface w (vpn_interface_hint st)) (\<lambda>iface.
      bind_p (path_exists w (OPENVPN_PID_PATH w)) (\<lambda>pid_exists.
      then_p (print_banner (dotted ''C O D A'' ''D O C T O R'')
        [(''WEBAPP'', webapp_url st), (''CONNECT'', connect_url st), (''REDIS'', or_text (redis_url st) ''not set'')])
     (then_p (print_status ''EXECUTOR'' (or_text (executor_factory st) ''NoopExecutor''))
     (then_p (print_status ''OPENVPN'' (or_option (openvpn_binary w) ''not found''))
     (then_p (print_status ''VPN IFACE'' (or_option iface ''not detected''))
     (then_p (print_status ''VPN PID'' (if pid_exists then ''present'' else ''absent''))
       (ret 0)))))))))"


section \<open>The commands\<close>

definition start_banner :: "string \<Rightarrow> settings \<Rightarrow> ('a, unit) hprog" where
  "start_banner title st =
     print_banner (dotted ''C O D A'' title)
       [(''WEBAPP'', webapp_url st), (''ENDPOINT'', host_address st @ '':'' @ show_int (port st)),
        (''MODE'', start_mode (node_token st))]"

definition report_started :: "host \<Rightarrow> int \<Rightarrow> ('a, int option) hprog" where
  "report_started w pid =
     then_p (for_p
       [''  Started daemon (PID '' @ show_int pid @ '')'', ''  Log file: '' @ DAEMON_LOG_PATH w, [],
        ''  Use '' @ [CHR 0x27] @ ''coda stop'' @ [CHR 0x27] @ '' to stop the daemon'',
        ''  Use '' @ [CHR 0x27] @ ''coda status'' @ [CHR 0x27] @ '' to check daemon status'',
        ''  Use '' @ [CHR 0x27] @ ''coda logs'' @ [CHR 0x27] @ '' to view log output''] say)
      (ret None)"

definition run_daemon :: "host \<Rightarrow> string \<Rightarrow> settings \<Rightarrow> ('a, int option) hprog" where
  "run_daemon w executable st =
     bind_p (is_daemon_running w) (\<lambda>running.
       if running
       then bind_p (daemon_status w) (\<lambda>status.
         then_p (say (''Daemon already running (PID '' @ show_pid (d_pid status) @ '')'')) (ret (Some 1)))
       else then_p (start_banner ''D A E M O N'' st)
         (try_except
           (bind_p (start_daemon w executable (host_address st) (port st)
                     (if node_token st = [] then None else Some (node_token st)))
              (report_started w))
           (\<lambda>exc. if catches [RuntimeError] exc
              then Some (then_p (say (''  Failed to start daemon: '' @ exn_text exc)) (ret (Some 1)))
              else None)))"

definition uvicorn_run :: "host \<Rightarrow> string \<Rightarrow> string \<Rightarrow> int \<Rightarrow> ('a, unit) hprog" where
  "uvicorn_run w app address bind_port =
     call (\<lambda>h. h_serve w h app address bind_port) (H_Serve app address bind_port)"

definition run_start ::
    "(environment \<Rightarrow> dict) \<Rightarrow> host \<Rightarrow> library \<Rightarrow> string \<Rightarrow> start_args \<Rightarrow> int option nprog" where
  "run_start env_data w lib executable args =
     then_p (apply_overrides args)
     (then_p (load_settings env_data w lib)
     (bind_p (get_p node_settings) (\<lambda>st.
       if arg_daemon args then run_daemon w executable st
       else then_p (start_banner ''N O D E'' st)
         (then_p (uvicorn_run w ''coda_node.server.app:app'' (host_address st) (port st)) (ret None)))))"

definition run_stop :: "nat \<Rightarrow> host \<Rightarrow> ('a, int option) hprog" where
  "run_stop n w =
     bind_p (is_daemon_running w) (\<lambda>running.
       if \<not> running then then_p (say ''No daemon is running'') (ret (Some 1))
       else bind_p (daemon_status w) (\<lambda>status.
         then_p (say (''Stopping daemon (PID '' @ show_pid (d_pid status) @ '')...''))
         (bind_p (stop_daemon n w 10) (\<lambda>stopped.
           if stopped then then_p (say ''  Daemon stopped'') (ret (Some 0))
           else then_p (say ''  Failed to stop daemon'') (ret (Some 1))))))"

definition status_pid :: "int option \<Rightarrow> string" where
  "status_pid pid = (case pid of None \<Rightarrow> ''-'' | Some p \<Rightarrow> if p = 0 then ''-'' else show_int p)"

definition status_interface :: "(environment \<Rightarrow> dict) \<Rightarrow> host \<Rightarrow> library \<Rightarrow> unit nprog" where
  "status_interface env_data w lib =
     try_except
       (then_p (load_settings env_data w lib)
       (bind_p (get_p node_settings) (\<lambda>st.
        bind_p (detect_tun_interface w (vpn_interface_hint st)) (\<lambda>iface.
          print_status ''VPN IFACE'' (or_option iface ''not detected'')))))
       (\<lambda>e. if is_exception e then Some (print_status ''VPN IFACE'' ''unknown'') else None)"

definition run_status :: "(environment \<Rightarrow> dict) \<Rightarrow> host \<Rightarrow> library \<Rightarrow> int option nprog" where
  "run_status env_data w lib =
     bind_p (daemon_status w) (\<lambda>status.
     then_p (print_banner (dotted ''C O D A'' ''S T A T U S'')
       [(''DAEMON'', if d_running status then ''running'' else ''stopped''),
        (''PID'', status_pid (d_pid status)), (''PID FILE'', DAEMON_PID_PATH w)])
     (then_p (print_status ''LOG FILE'' (DAEMON_LOG_PATH w))
     (then_p (print_status ''LOG EXISTS'' (if d_log_exists status then ''yes'' else ''no''))
     (then_p (status_interface env_data w lib)
       (ret (Some (if d_running status then 0 else 1)))))))"

definition run_logs :: "host \<Rightarrow> int \<Rightarrow> ('a, int option) hprog" where
  "run_logs w lines =
     bind_p (tail_daemon_log w lines) (\<lambda>log_output.
       if log_output = [] then then_p (say (''No log file found at '' @ DAEMON_LOG_PATH w)) (ret (Some 1))
       else then_p (say log_output) (ret (Some 0)))"

definition run_stop_vpn :: "host \<Rightarrow> ('a, int option) hprog" where
  "run_stop_vpn w =
     bind_p (kill_openvpn_daemon w) (\<lambda>killed.
     then_p (say ''Stopping Coda VPN service...'')
     (then_p (say (if killed then ''  '' @ check_mark @ '' Stopped managed OpenVPN daemon''
                   else ''  No managed VPN process found''))
       (ret (Some (if killed then 0 else 1)))))"

text \<open>\<^verbatim>\<open>parser.error\<close> exits with code 2.\<close>

definition cli_main ::
    "nat \<Rightarrow> (environment \<Rightarrow> dict) \<Rightarrow> host \<Rightarrow> library \<Rightarrow> string \<Rightarrow> namespace \<Rightarrow> int option nprog" where
  "cli_main n env_data w lib executable args =
     (if arg_reset args \<or> arg_command args = Some Reset
      then bind_p (reset n w) (\<lambda>code. ret (Some code))
      else case arg_command args of
        Some (Start a) \<Rightarrow> run_start env_data w lib executable a
      | Some Stop \<Rightarrow> run_stop n w
      | Some Status \<Rightarrow> run_status env_data w lib
      | Some (Logs lines) \<Rightarrow> run_logs w lines
      | Some Doctor \<Rightarrow> bind_p (doctor env_data w lib) (\<lambda>code. ret (Some code))
      | Some Stop_Vpn \<Rightarrow> run_stop_vpn w
      | _ \<Rightarrow> ret (Some 2))"

end
