(* ===== verification/Daemon_Props.thy ===== *)
theory Daemon_Props
  imports Daemon Tunnel_Props
begin

text \<open>
  The daemon: starting leaves a PID file that names the spawned process and refuses while a
  process answers; stopping ends in time, removes the PID file and kills by force only after
  the grace period.
\<close>

section \<open>Reading the PID file\<close>

text \<open>\<open>pid_in w m\<close>: the PID that the files \<open>m\<close> hold, as \<open>read_daemon_pid\<close> reads it.\<close>

definition pid_in :: "host \<Rightarrow> files \<Rightarrow> int option" where
  "pid_in w m =
     (case m (DAEMON_PID_PATH w) of
        None \<Rightarrow> None
      | Some f \<Rightarrow> if utf8_valid (file_content f)
          then (case parse_pid (universal_newlines (file_content f)) of Inr pid \<Rightarrow> Some pid | Inl _ \<Rightarrow> None)
          else None)"

text \<open>What a query does: it changes no file and sends no signal but signal 0.\<close>

fun query_event :: "host_event \<Rightarrow> bool" where
  "query_event (H_File op _ _) = (op \<in> {Fs_Exists, Fs_Read})"
| "query_event (H_Kill _ sig _) = (sig = SIG0)"
| "query_event _ = False"

definition queried :: "('a, 'r) hprog \<Rightarrow> ('a host_state_scheme \<Rightarrow> 'r \<Rightarrow> host_event list \<Rightarrow> bool) \<Rightarrow> bool" where
  "queried m \<Phi> = (\<forall>s. wp m (\<lambda>r s'. r \<noteq> Hang \<and> (\<exists>evs. s' = emits evs s \<and> list_all query_event evs
     \<and> (\<forall>x. r = Ret x \<longrightarrow> \<Phi> s x evs))) s)"

lemma read_daemon_pid_query: "queried (read_daemon_pid w) (\<lambda>s x evs. \<forall>pid. x = Some pid \<longrightarrow> pid_in w (fs s) = Some pid)"
  unfolding queried_def read_daemon_pid_def path_exists_def read_text_def
  by (auto simp: wp_rules pid_in_def bytes_decode_def parse_pid_def
      split: option.splits sum.splits if_splits)

lemma process_exists_query:
  "queried (process_exists w pid) (\<lambda>s x evs. x = (H_Kill pid SIG0 (Inr ()) \<in> set evs))"
  unfolding queried_def process_exists_def os_kill_def
  by (auto simp: wp_rules split: option.splits sum.splits if_splits)

lemma wp_queried:
  assumes "queried m \<Phi>"
    and "\<And>r evs. r \<noteq> Hang \<Longrightarrow> list_all query_event evs \<Longrightarrow> (\<forall>x. r = Ret x \<longrightarrow> \<Phi> s x evs) \<Longrightarrow> Q r (emits evs s)"
  shows "wp m Q s"
  using assms unfolding queried_def by (blast intro: wp_mono)

lemma is_daemon_running_query:
  "queried (is_daemon_running w) (\<lambda>s x evs. if x then \<exists>q. pid_in w (fs s) = Some q \<and> H_Kill q SIG0 (Inr ()) \<in> set evs
     else \<forall>q. H_Kill q SIG0 (Inr ()) \<notin> set evs)"
  unfolding queried_def is_daemon_running_def read_daemon_pid_def path_exists_def read_text_def process_exists_def os_kill_def
  by (auto simp: wp_rules pid_in_def bytes_decode_def parse_pid_def
      split: option.splits sum.splits if_splits)


section \<open>Starting\<close>

lemma number_text:
  "\<forall>c \<in> set (show_int i @ newline). byte c < 128 \<and> byte c \<noteq> 13"
proof -
  have "byte c < 128 \<and> byte c \<noteq> 13" if "is_digit c" for c
    using that by (simp add: is_digit_def in_range_def)
  then have "\<forall>c \<in> set (show_nat n). byte c < 128 \<and> byte c \<noteq> 13" for n
    using show_nat_digits [of n] by (simp add: list_all_iff)
  moreover have "byte (CHR ''-'') = 45" "byte (char_of (10::nat)) = 10" by code_simp+
  ultimately show ?thesis by (auto simp: show_int_def newline_def)
qed

lemma parse_pid_shown: "parse_pid (show_int pid @ newline) = Inr pid"
proof -
  have "list_all (\<lambda>c. \<not> is_space c) (show_int pid)" by (rule show_int_no_space)
  moreover have "show_int pid \<noteq> []" by (simp add: show_int_def)
  ultimately have "strip (show_int pid @ newline) = show_int pid"
    by (intro strip_newline) (auto simp: list_all_iff)
  then show ?thesis by (simp add: parse_pid_def)
qed

lemma pid_written:
  "m (DAEMON_PID_PATH w) = Some f \<Longrightarrow> file_content f = text_newlines w (show_int pid @ newline) \<Longrightarrow> pid_in w m = Some pid"
proof -
  assume f: "m (DAEMON_PID_PATH w) = Some f" "file_content f = text_newlines w (show_int pid @ newline)"
  have "\<forall>c \<in> set (text_newlines w (show_int pid @ newline)). byte c < 128"
    using number_text [of pid] by (auto simp: text_newlines_def byte_def split: if_splits)
  then have "utf8_valid (text_newlines w (show_int pid @ newline))" by (rule ascii_utf8)
  moreover have "universal_newlines (text_newlines w (show_int pid @ newline)) = show_int pid @ newline"
    using number_text [of pid] by (intro read_written) blast
  ultimately show ?thesis using f by (simp add: pid_in_def parse_pid_shown)
qed

fun spawns :: "host_event \<Rightarrow> bool" where
  "spawns (H_Popen _ _ _) = True"
| "spawns _ = False"

definition pid_file_written :: "host \<Rightarrow> string \<Rightarrow> string \<Rightarrow> int \<Rightarrow> string option \<Rightarrow> environment
    \<Rightarrow> int outcome \<Rightarrow> files \<Rightarrow> host_event list \<Rightarrow> bool" where
  "pid_file_written w exe a p tok env r m evs =
     (r \<noteq> Hang \<and> (\<forall>q. H_Kill q SIG0 (Inr ()) \<notin> set evs) \<and>
      (\<forall>pid. r = Ret pid \<longrightarrow> (\<exists>f. m (DAEMON_PID_PATH w) = Some f
        \<and> file_content f = text_newlines w (show_int pid @ newline) \<and> (h_os_name w \<noteq> ''nt'' \<longrightarrow> file_mode f = 420)
        \<and> filter spawns evs = [H_Popen (daemon_command exe a p) (Some (daemon_env a p tok env)) (Inr pid)])))"

lemma spawn_daemon_run:
  "wp (spawn_daemon w exe a p tok) (\<lambda>r s'. \<exists>evs. trace s' = trace s @ evs
     \<and> pid_file_written w exe a p tok (environ s) r (fs s') evs) s"
  unfolding spawn_daemon_def open_append_def write_text_def chmod_def pid_file_written_def
  by (auto simp: wp_rules split: option.splits sum.splits prod.splits)

lemma query_no_spawn: "list_all query_event evs \<Longrightarrow> filter spawns evs = []"
  by (induction evs) (auto elim!: query_event.elims)

definition started :: "host \<Rightarrow> string \<Rightarrow> string \<Rightarrow> int \<Rightarrow> string option
    \<Rightarrow> 'a host_state_scheme \<Rightarrow> int outcome \<Rightarrow> 'a host_state_scheme \<Rightarrow> bool" where
  "started w exe a p tok s r s' =
     (\<exists>evs. trace s' = trace s @ evs \<and>
        (case r of
           Ret pid \<Rightarrow> pid_in w (fs s') = Some pid
             \<and> (h_os_name w \<noteq> ''nt'' \<longrightarrow> (\<exists>f. fs s' (DAEMON_PID_PATH w) = Some f \<and> file_mode f = 420))
             \<and> filter spawns evs = [H_Popen (daemon_command exe a p) (Some (daemon_env a p tok (environ s))) (Inr pid)]
             \<and> (\<forall>q. H_Kill q SIG0 (Inr ()) \<notin> set evs)
         | Raise e \<Rightarrow> (\<exists>q. H_Kill q SIG0 (Inr ()) \<in> set evs) \<longrightarrow> filter spawns evs = []
         | Hang \<Rightarrow> False))"

lemma start_fresh_run:
  "wp (bind_p (path_exists w (DAEMON_PID_PATH w)) (\<lambda>stale.
      then_p (if stale then unlink_existing w (DAEMON_PID_PATH w) else ret ()) (spawn_daemon w exe a p tok)))
    (\<lambda>r s'. \<exists>evs. trace s' = trace s @ evs \<and> pid_file_written w exe a p tok (environ s) r (fs s') evs) s"
  (is "wp _ ?Q s")
proof -
  have sp: "wp (spawn_daemon w exe a p tok) ?Q s1"
    if "trace s1 = trace s @ pre" "\<forall>q. H_Kill q SIG0 (Inr ()) \<notin> set pre" "filter spawns pre = []" "environ s1 = environ s"
    for s1 pre
    by (rule wp_mono [OF spawn_daemon_run [of w exe a p tok s1]]) (use that in \<open>force simp: pid_file_written_def\<close>)
  show ?thesis
    by (auto simp: path_exists_def unlink_existing_def wp_rules pid_file_written_def [of _ _ _ _ _ _ "Raise e" for e]
        intro!: sp split: option.splits)
qed

lemma start_daemon_run: "wp (start_daemon w exe a p tok) (started w exe a p tok s) s"
  unfolding start_daemon_def wp_bind
proof (rule wp_queried [OF is_daemon_running_query], goal_cases)
  case (1 r1 evs)
  note ns = query_no_spawn [OF 1(2)]
  show ?case
  proof (cases r1)
    case (Ret running)
    show ?thesis
    proof (cases running)
      case True
      have "wp (read_daemon_pid w) (\<lambda>r s'. r \<noteq> Hang \<and> (\<exists>evs'. trace s' = trace s @ evs @ evs' \<and> filter spawns evs' = [])) (emits evs s)"
        by (rule wp_queried [OF read_daemon_pid_query]) (simp add: query_no_spawn)
      then have "wp (bind_p (read_daemon_pid w) (\<lambda>pid. raise (already_running pid))) (started w exe a p tok s) (emits evs s)"
        unfolding wp_bind by (rule wp_mono) (auto simp: started_def wp_raise ns split: outcome.splits)
      then show ?thesis using Ret True by simp
    next
      case False
      have "if running then \<exists>q. pid_in w (fs s) = Some q \<and> H_Kill q SIG0 (Inr ()) \<in> set evs
        else \<forall>q. H_Kill q SIG0 (Inr ()) \<notin> set evs" using 1(3) Ret by blast
      with False have nk: "\<forall>q. H_Kill q SIG0 (Inr ()) \<notin> set evs" by simp
      have "wp (bind_p (path_exists w (DAEMON_PID_PATH w)) (\<lambda>stale.
          then_p (if stale then unlink_existing w (DAEMON_PID_PATH w) else ret ()) (spawn_daemon w exe a p tok)))
          (started w exe a p tok s) (emits evs s)"
      proof (rule wp_mono [OF start_fresh_run], goal_cases)
        case (1 r s')
        then show ?case using nk ns by (cases r) (auto simp: started_def pid_file_written_def pid_written)
      qed
      then show ?thesis using Ret False by simp
    qed
  qed (use 1 ns in \<open>auto simp: started_def\<close>)
qed

text \<open>
  When \<open>start_daemon\<close> returns a PID, exactly one process has been spawned, the uvicorn
  command under the environment that carries the address, the port and the token; no process
  had answered for the PID file that was there before; and the PID file now names the spawned
  process (readable by all on POSIX). While a process answers it raises, and nothing is spawned.
\<close>

theorem start_daemon_contract:
  assumes "start_daemon w exe a p tok s = (r, s')"
  shows "\<exists>evs. trace s' = trace s @ evs \<and>
    (case r of
       Ret pid \<Rightarrow> pid_in w (fs s') = Some pid
         \<and> (h_os_name w \<noteq> ''nt'' \<longrightarrow> (\<exists>f. fs s' (DAEMON_PID_PATH w) = Some f \<and> file_mode f = 420))
         \<and> filter spawns evs = [H_Popen (daemon_command exe a p) (Some (daemon_env a p tok (environ s))) (Inr pid)]
         \<and> (\<forall>q. H_Kill q SIG0 (Inr ()) \<notin> set evs)
     | Raise e \<Rightarrow> (\<exists>q. H_Kill q SIG0 (Inr ()) \<in> set evs) \<longrightarrow> filter spawns evs = []
     | Hang \<Rightarrow> False)"
  using wp_run [OF start_daemon_run assms] by (simp add: started_def)

definition lonely_host :: host where
  "lonely_host = quiet_host\<lparr>h_kill := (\<lambda>_ _ _. Inl (Exn ProcessLookupError ''No such process''))\<rparr>"

theorem start_daemon_contract_witness:
  "\<exists>s'. start_daemon lonely_host ''python3'' ''0.0.0.0'' 80 (Some ''tok'') empty_host_state = (Ret 42, s')
     \<and> pid_in lonely_host (fs s') = Some 42"
proof -
  have "fst (start_daemon lonely_host ''python3'' ''0.0.0.0'' 80 (Some ''tok'') empty_host_state) = Ret 42"
    by code_simp
  then obtain s' where r: "start_daemon lonely_host ''python3'' ''0.0.0.0'' 80 (Some ''tok'') empty_host_state = (Ret 42, s')"
    by (metis prod.collapse)
  from start_daemon_contract [OF this] r show ?thesis by auto
qed


section \<open>Stopping\<close>

lemma process_exists_returns [returns_intros]: "returns (\<lambda>_. True) (process_exists w pid)"
  unfolding process_exists_def os_kill_def by (intro returns_intros) (auto intro!: returns_intros split: if_splits)

lemma force_ends: "wp (then_p (os_kill w pid SIGKILL) (host_sleep w (1 / 2))) (\<lambda>r s'. r \<noteq> Hang) s"
  by (auto simp: os_kill_def host_sleep_def wp_rules split: sum.splits)

lemma exists_ends: "wp (process_exists w pid) (\<lambda>r s'. r \<noteq> Hang \<and> (\<exists>evs. trace s' = trace s @ evs)) s"
  by (rule wp_queried [OF process_exists_query]) auto

lemma exit_check:
  "(\<lambda>x. case if x then None else Some () of None \<Rightarrow> k | Some y \<Rightarrow> ret y) = (\<lambda>alive. if \<not> alive then ret () else k)"
  by auto

interpretation exit_poll: deadline_poll w "\<lambda>n. await_exit n w pid" "process_exists w pid"
    "\<lambda>alive. if alive then None else Some ()" "1 / 10" "then_p (os_kill w pid SIGKILL) (host_sleep w (1 / 2))"
  for w pid
  by unfold_locales (simp only: await_exit.simps exit_check, rule exists_ends, rule force_ends)

text \<open>
  \<open>grace w t pid d evs\<close>: in the events \<open>evs\<close> that follow the trace \<open>t\<close>, the only forced kill
  is of \<open>pid\<close> and comes when the clock has reached \<open>d\<close>.
\<close>

definition grace :: "host \<Rightarrow> host_history \<Rightarrow> int \<Rightarrow> rat \<Rightarrow> host_event list \<Rightarrow> bool" where
  "grace w t pid d evs =
     (\<forall>pre r post q. evs = pre @ H_Kill q SIGKILL r # post \<longrightarrow> q = pid \<and> d \<le> h_monotonic w (t @ pre))"

lemma grace_calm: "(\<And>q r. H_Kill q SIGKILL r \<notin> set evs) \<Longrightarrow> grace w t pid d evs"
  unfolding grace_def by (metis in_set_conv_decomp)

lemma grace_append:
  assumes "\<And>q r. H_Kill q SIGKILL r \<notin> set evs" and "grace w (t @ evs) pid d evs'"
  shows "grace w t pid d (evs @ evs')"
  unfolding grace_def
proof (intro allI impI)
  fix pre r post q
  assume e: "evs @ evs' = pre @ H_Kill q SIGKILL r # post"
  then consider us where "evs = pre @ us" "us @ evs' = H_Kill q SIGKILL r # post"
    | us where "pre = evs @ us" "evs' = us @ H_Kill q SIGKILL r # post"
    by (auto simp: append_eq_append_conv2)
  then show "q = pid \<and> d \<le> h_monotonic w (t @ pre)"
  proof cases
    case (1 us)
    have "H_Kill q SIGKILL r \<notin> set us" using 1(1) assms(1) by auto
    with 1 have "us = []" by (cases us) auto
    with 1 show ?thesis using assms(2) [unfolded grace_def, rule_format, of "[]"] by simp
  next
    case (2 us)
    then show ?thesis using assms(2) by (simp add: grace_def)
  qed
qed

lemma query_calm: "list_all query_event evs \<Longrightarrow> H_Kill q SIGKILL r \<notin> set evs"
  by (auto simp: list_all_iff)

lemma await_exit_grace:
  "wp (await_exit n w pid d) (\<lambda>r s'. \<exists>evs. s' = emits evs s \<and> grace w (trace s) pid d evs) s"
proof (induction n arbitrary: s)
  case 0
  then show ?case by (auto simp: wp_hang grace_def intro: exI [of _ "[]"])
next
  case (Suc n)
  let ?Q = "\<lambda>r s'. \<exists>evs. s' = emits evs s \<and> grace w (trace s) pid d evs"
  have force: "wp (then_p (os_kill w pid SIGKILL) (host_sleep w (1 / 2))) ?Q s" if "\<not> h_monotonic w (trace s) < d"
  proof -
    have g: "grace w (trace s) pid d (H_Kill pid SIGKILL r # evs)" if "set evs \<subseteq> range (H_Sleep (1 / 2))" for r evs
      using that \<open>\<not> h_monotonic w (trace s) < d\<close> by (auto simp: grace_def Cons_eq_append_conv)
    show ?thesis by (auto simp: os_kill_def host_sleep_def wp_rules g split: sum.splits)
  qed
  have poll: "wp (bind_p (process_exists w pid) (\<lambda>alive. if \<not> alive then ret ()
      else then_p (host_sleep w (1 / 10)) (await_exit n w pid d))) ?Q s"
    unfolding wp_bind
  proof (rule wp_queried [OF process_exists_query], goal_cases)
    case (1 r evs)
    have calm: "\<And>q x. H_Kill q SIGKILL x \<notin> set evs" using query_calm [OF 1(2)] by blast
    have again: "wp (await_exit n w pid d) ?Q (emits (evs @ [H_Sleep (1 / 10) a]) s)" for a
    proof (rule wp_mono [OF Suc.IH], goal_cases)
      case (1 r s')
      then obtain evs' where e: "s' = emits evs' (emits (evs @ [H_Sleep (1 / 10) a]) s)"
        "grace w (trace s @ evs @ [H_Sleep (1 / 10) a]) pid d evs'" by auto
      have "grace w (trace s) pid d ((evs @ [H_Sleep (1 / 10) a]) @ evs')"
        using calm e(2) by (intro grace_append) auto
      with e(1) show ?case by auto
    qed
    have sl: "grace w (trace s) pid d (evs @ [H_Sleep (1 / 10) a])" for a using calm by (intro grace_calm) auto
    show ?case using 1(1) calm again sl
      by (cases r) (auto simp: wp_rules host_sleep_def intro: grace_calm split: sum.splits)
  qed
  show ?case using force poll by (simp add: wp_bind [of "monotonic w"] wp_monotonic)
qed

lemma terminate_ends:
  assumes "clock_advances w" and "10 * t \<le> of_nat n"
  shows "wp (terminate (Suc n) w pid t) (\<lambda>r s'. r \<noteq> Hang) s"
proof -
  have "wp (await_exit (Suc n) w pid (h_monotonic w (trace s1) + t)) (\<lambda>r s'. r \<noteq> Hang) s1" for s1
    by (rule exit_poll.loop_ends [OF assms(1)]) (use assms(2) in simp)
  from this [of "emits [H_Kill pid SIGTERM (Inr ())] s"] show ?thesis
    by (auto simp: terminate_def os_kill_def wp_rules simp del: await_exit.simps split: sum.splits prod.splits)
qed

lemma unlink_ends: "wp (then_p (unlink w p) (ret b)) (\<lambda>r s'. r \<noteq> Hang) s"
  by (auto simp: unlink_def wp_rules split: option.splits)

text \<open>
  C39: \<open>stop_daemon\<close> ends: with a clock that advances by the delay of every completed sleep, ten
  rounds per second of the timeout and one more are enough (101 for the default of ten seconds).
\<close>

theorem stop_daemon_ends:
  assumes "clock_advances w" and "10 * timeout \<le> of_nat n"
  shows "fst (stop_daemon (Suc n) w timeout s) \<noteq> Hang"
proof -
  have body: "wp (try_except (then_p (terminate (Suc n) w pid timeout) (then_p (unlink w (DAEMON_PID_PATH w)) (ret True)))
      (\<lambda>e. if catches [PermissionError, ProcessLookupError, TimeoutExpired] e
            then Some (then_p (unlink w (DAEMON_PID_PATH w)) (ret False)) else None)) (\<lambda>r s'. r \<noteq> Hang) s1" for pid s1
    unfolding wp_try_except wp_then [of "terminate (Suc n) w pid timeout"]
    by (rule wp_mono [OF terminate_ends [OF assms]])
       (auto simp: unlink_def wp_rules split: option.splits outcome.splits)
  have alive: "wp (bind_p (process_exists w pid) (\<lambda>alive.
      if \<not> alive then then_p (unlink w (DAEMON_PID_PATH w)) (ret False)
      else try_except (then_p (terminate (Suc n) w pid timeout) (then_p (unlink w (DAEMON_PID_PATH w)) (ret True)))
      (\<lambda>e. if catches [PermissionError, ProcessLookupError, TimeoutExpired] e
            then Some (then_p (unlink w (DAEMON_PID_PATH w)) (ret False)) else None))) (\<lambda>r s'. r \<noteq> Hang) s1" for pid s1
    unfolding wp_bind
  proof (rule wp_queried [OF process_exists_query], goal_cases)
    case (1 r evs)
    then show ?case using body [of pid "emits evs s1"] unlink_ends [of w _ False "emits evs s1"] by (cases r) simp_all
  qed
  have "wp (stop_daemon (Suc n) w timeout) (\<lambda>r s'. r \<noteq> Hang) s"
    unfolding stop_daemon_def wp_bind [of "read_daemon_pid w"]
  proof (rule wp_queried [OF read_daemon_pid_query], goal_cases)
    case (1 r evs)
    then show ?case
    proof (cases r)
      case (Ret found)
      then show ?thesis using alive [of _ "emits evs s"] by (cases found) (simp_all add: wp_ret)
    qed auto
  qed
  then show ?thesis by (simp add: wp_iff)
qed

theorem stop_daemon_ends_witness:
  "fst (stop_daemon 101 ticking_host 10 (empty_host_state\<lparr>fs := [DAEMON_PID_PATH ticking_host \<mapsto> \<lparr>file_content = ''7'', file_mode = 420\<rparr>]\<rparr>)) \<noteq> Hang"
proof -
  have "0 \<le> slept ev" for ev by (cases ev rule: slept.cases) auto
  then have "clock_advances ticking_host" by (simp add: clock_advances_def ticking_host_def)
  from stop_daemon_ends [OF this, of 10 100] show ?thesis by simp
qed

definition attempted :: "host \<Rightarrow> rat \<Rightarrow> host_history \<Rightarrow> int \<Rightarrow> bool \<Rightarrow> host_event list \<Rightarrow> bool" where
  "attempted w t h pid b evs =
     (if h_os_name w = ''nt'' then \<forall>q x sig. H_Kill q sig x \<notin> set evs
      else (\<exists>x post. evs = H_Kill pid SIGTERM x # post \<and> (b \<longrightarrow> x = Inr ())
        \<and> grace w (h @ [H_Kill pid SIGTERM x]) pid (h_monotonic w (h @ [H_Kill pid SIGTERM x]) + t) post))"

lemma terminate_grace:
  "wp (terminate n w pid t) (\<lambda>r s'. \<exists>evs. trace s' = trace s @ evs \<and> attempted w t (trace s) pid (r = Ret ()) evs) s"
proof (cases "h_os_name w = ''nt''")
  case True
  then show ?thesis by (auto simp: terminate_def attempted_def wp_rules split: sum.splits prod.splits)
next
  case False
  let ?s1 = "emits [H_Kill pid SIGTERM (Inr ())] s"
  have "wp (await_exit n w pid (h_monotonic w (trace ?s1) + t)) (\<lambda>r s'. \<exists>evs. s' = emits evs ?s1
      \<and> grace w (trace ?s1) pid (h_monotonic w (trace ?s1) + t) evs) ?s1" by (rule await_exit_grace)
  then have a: "wp (await_exit n w pid (h_monotonic w (trace ?s1) + t))
      (\<lambda>r s'. \<exists>evs. trace s' = trace s @ evs \<and> attempted w t (trace s) pid (r = Ret ()) evs) ?s1"
    by (rule wp_mono) (use False in \<open>auto simp: attempted_def\<close>)
  have f: "grace w x pid d []" for x d by (rule grace_calm) simp
  show ?thesis using False a f
    by (auto simp: terminate_def os_kill_def attempted_def wp_rules split: sum.splits)
qed

lemma grace_suffix:
  assumes "grace w t pid d evs" and "\<And>q r. H_Kill q SIGKILL r \<notin> set evs'"
  shows "grace w t pid d (evs @ evs')"
  unfolding grace_def
proof (intro allI impI)
  fix pre r post q
  assume "evs @ evs' = pre @ H_Kill q SIGKILL r # post"
  then consider us where "evs = pre @ us" "us @ evs' = H_Kill q SIGKILL r # post"
    | us where "evs' = us @ H_Kill q SIGKILL r # post"
    by (auto simp: append_eq_append_conv2)
  then show "q = pid \<and> d \<le> h_monotonic w (t @ pre)"
  proof cases
    case (1 us)
    have "H_Kill q SIGKILL r \<notin> set evs'" by (rule assms(2))
    with 1 obtain us' where "us = H_Kill q SIGKILL r # us'" by (cases us) auto
    with 1 assms(1) show ?thesis by (simp add: grace_def)
  next
    case (2 us)
    then show ?thesis using assms(2) [of q r] by simp
  qed
qed

lemma attempted_suffix:
  "attempted w t h pid b evs \<Longrightarrow> (\<And>q sig r. H_Kill q sig r \<notin> set evs') \<Longrightarrow> attempted w t h pid b (evs @ evs')"
  by (fastforce simp: attempted_def intro: grace_suffix split: if_splits)

lemma stop_attempt_run:
  "wp (try_except (then_p (terminate n w pid t) (then_p (unlink w p) (ret True)))
      (\<lambda>e. if catches [PermissionError, ProcessLookupError, TimeoutExpired] e
            then Some (then_p (unlink w p) (ret False)) else None))
    (\<lambda>r s'. \<exists>evs. trace s' = trace s @ evs \<and> (\<forall>b. r = Ret b \<longrightarrow> fs s' p = None \<and> attempted w t (trace s) pid b evs)) s"
  unfolding wp_try_except wp_then [of "terminate n w pid t"]
proof (rule wp_mono [OF terminate_grace], goal_cases)
  case (1 r s1)
  then obtain evs where t1: "trace s1 = trace s @ evs" and e: "attempted w t (trace s) pid (r = Ret ()) evs"
    by blast
  have f: "attempted w t (trace s) pid False evs" using e by (auto simp: attempted_def split: if_splits)
  have x: "attempted w t (trace s) pid b (evs @ [H_File Fs_Unlink p x])" "attempted w t (trace s) pid b (evs @ [H_File Fs_Unlink p x, H_File Fs_Unlink p y])"
    if "b \<longrightarrow> r = Ret ()" for x y b using e f that by (cases b; auto intro!: attempted_suffix)+
  show ?case using t1 x
    by (cases r) (auto simp: unlink_def wp_rules split: option.splits outcome.splits)
qed

text \<open>What a call of \<open>stop_daemon\<close> that returned \<open>b\<close> has done after the calls \<open>pre\<close>.\<close>

definition orderly :: "host \<Rightarrow> rat \<Rightarrow> 'a host_state_scheme \<Rightarrow> bool \<Rightarrow> 'a host_state_scheme \<Rightarrow> bool" where
  "orderly w timeout s b s' = (\<exists>pre evs. trace s' = trace s @ pre @ evs \<and> list_all query_event pre \<and>
    (if b then \<exists>pid. pid_in w (fs s) = Some pid \<and> fs s' (DAEMON_PID_PATH w) = None \<and> attempted w timeout (trace s @ pre) pid True evs
     else (\<forall>q sig x. H_Kill q sig x \<notin> set evs)
       \<or> (\<exists>pid. pid_in w (fs s) = Some pid \<and> fs s' (DAEMON_PID_PATH w) = None \<and> attempted w timeout (trace s @ pre) pid False evs)))"

lemma stop_attempt_orderly:
  assumes "list_all query_event pre" and "pid_in w (fs s) = Some pid"
  shows "wp (try_except (then_p (terminate n w pid timeout) (then_p (unlink w (DAEMON_PID_PATH w)) (ret True)))
      (\<lambda>e. if catches [PermissionError, ProcessLookupError, TimeoutExpired] e
            then Some (then_p (unlink w (DAEMON_PID_PATH w)) (ret False)) else None))
    (on_return (orderly w timeout s)) (emits pre s)"
proof (rule wp_mono [OF stop_attempt_run], goal_cases)
  case (1 r s')
  then obtain evs where e: "trace s' = trace s @ pre @ evs"
    "\<forall>b. r = Ret b \<longrightarrow> fs s' (DAEMON_PID_PATH w) = None \<and> attempted w timeout (trace s @ pre) pid b evs" by auto
  have "orderly w timeout s b s'" if "r = Ret b" for b
    unfolding orderly_def by (rule exI [of _ pre], rule exI [of _ evs]) (use e assms that in \<open>cases b; auto\<close>)
  then show ?case by (cases r) simp_all
qed

lemma stale_orderly:
  assumes "list_all query_event pre"
  shows "wp (then_p (unlink w (DAEMON_PID_PATH w)) (ret False)) (on_return (orderly w timeout s)) (emits pre s)"
proof -
  let ?ev = "H_File Fs_Unlink (DAEMON_PID_PATH w) (Inr ())"
  have "orderly w timeout s False s'" if "trace s' = trace s @ pre @ [?ev]" for s'
    unfolding orderly_def by (rule exI [of _ pre], rule exI [of _ "[?ev]"]) (use assms that in simp)
  then show ?thesis by (auto simp: unlink_def wp_rules split: option.split)
qed

lemma stop_found_orderly:
  assumes pre: "list_all query_event pre" and pid: "pid_in w (fs s) = Some pid"
  shows "wp (bind_p (process_exists w pid) (\<lambda>alive.
      if \<not> alive then then_p (unlink w (DAEMON_PID_PATH w)) (ret False)
      else try_except (then_p (terminate n w pid timeout) (then_p (unlink w (DAEMON_PID_PATH w)) (ret True)))
        (\<lambda>e. if catches [PermissionError, ProcessLookupError, TimeoutExpired] e
              then Some (then_p (unlink w (DAEMON_PID_PATH w)) (ret False)) else None)))
    (on_return (orderly w timeout s)) (emits pre s)"
  unfolding wp_bind
proof (rule wp_queried [OF process_exists_query], goal_cases)
  case (1 r evs)
  then show ?case using stop_attempt_orderly [of "pre @ evs", OF _ pid] stale_orderly [of "pre @ evs"] pre
    by (cases r) auto
qed

lemma stop_daemon_run: "wp (stop_daemon n w timeout) (on_return (orderly w timeout s)) s"
  unfolding stop_daemon_def wp_bind [of "read_daemon_pid w"]
proof (rule wp_queried [OF read_daemon_pid_query], goal_cases)
  case (1 r evs)
  show ?case
  proof (cases r)
    case (Ret found)
    show ?thesis
    proof (cases found)
      case None
      have "orderly w timeout s False (emits evs s)"
        unfolding orderly_def by (rule exI [of _ evs], rule exI [of _ "[]"]) (use 1(2) in simp)
      then show ?thesis using Ret None by (simp add: wp_ret)
    next
      case (Some pid)
      with 1 Ret have "pid_in w (fs s) = Some pid" by blast
      from stop_found_orderly [OF 1(2) this] show ?thesis using Ret Some by simp
    qed
  qed simp_all
qed



end
