(* ===== verification/Cli_Props.thy ===== *)
theory Cli_Props
  imports Cli Daemon_Props Bundle_Props Service_Props
begin

text \<open>
  The commands end to end: after a reset the machine keeps nothing of the node, exactly the named
  files are gone, and the next start finds no persisted configuration; a second daemon is not
  started while the first one runs.
\<close>

section \<open>Reset\<close>

text \<open>Which files a program may touch: everything outside \<open>A\<close> stays as it is.\<close>

definition outside :: "string set \<Rightarrow> 'a host_state_scheme \<Rightarrow> files" where
  "outside A s = fs s |` (- A)"

lemma outside_emits [simp]: "outside A (emits evs s) = outside A s"
  by (simp add: outside_def)

lemma outside_update [simp]: "p \<in> A \<Longrightarrow> outside A (s\<lparr>fs := (fs s)(p := x)\<rparr>) = outside A s"
  by (auto simp: outside_def restrict_map_def fun_eq_iff)

lemma keeps_outside [keeps_intros]:
  "keeps (outside A) (call reply ev)" "keeps (outside A) (fs_check w op p)" "keeps (outside A) (monotonic w)"
  "keeps (outside A) (read_text w p)" "keeps (outside A) (path_exists w p)" "keeps (outside A) (say t)"
  unfolding read_text_def path_exists_def
  by (auto simp: keeps_def wp_rules split: sum.splits prod.splits option.splits)

lemma keeps_outside_unlink [keeps_intros]:
  "p \<in> A \<Longrightarrow> keeps (outside A) (unlink w p)" "p \<in> A \<Longrightarrow> keeps (outside A) (unlink_existing w p)"
  unfolding unlink_def unlink_existing_def by (auto intro!: keeps_intros)

lemma read_daemon_pid_keeps [keeps_intros]: "keeps (outside A) (read_daemon_pid w)"
  unfolding read_daemon_pid_def by (intro keeps_intros) (auto intro: keeps_intros split: if_splits)

lemma process_exists_keeps [keeps_intros]: "keeps (outside A) (process_exists w pid)"
  unfolding process_exists_def os_kill_def by (intro keeps_intros) (auto intro: keeps_intros split: if_splits)

lemma await_exit_keeps [keeps_intros]: "keeps (outside A) (await_exit n w pid d)"
  by (induction n) (auto intro!: keeps_intros simp: os_kill_def host_sleep_def)

lemma stop_daemon_keeps:
  assumes "h_os_name w \<noteq> ''nt''" "DAEMON_PID_PATH w \<in> A"
  shows "keeps (outside A) (stop_daemon n w t)"
proof -
  have "keeps (outside A) (terminate n w pid t)" for pid
    using assms(1) unfolding terminate_def os_kill_def by (auto intro!: keeps_intros)
  then show ?thesis unfolding stop_daemon_def
    using assms(2) by (auto intro!: keeps_intros split: option.split if_splits)
qed

lemma kill_openvpn_keeps:
  assumes "h_os_name w \<noteq> ''nt''" "OPENVPN_PID_PATH w \<in> A"
  shows "keeps (outside A) (kill_openvpn_daemon w)"
  using assms unfolding kill_openvpn_daemon_def signal_daemon_def
  by (auto intro!: keeps_intros split: if_splits)

text \<open>The loop removes every path it is given.\<close>

lemma reset_path_run: "wp (reset_path w p) (on_return (\<lambda>_ s'. fs s' = (fs s)(p := None))) s"
  by (auto simp: reset_path_def path_exists_def unlink_existing_def on_return_def wp_rules fun_eq_iff split: option.splits)

lemma reset_files_run: "wp (reset_files w b ps) (on_return (\<lambda>_ s'. fs s' = fs s |` (- set ps))) s"
proof (induction ps arbitrary: b s)
  case (Cons p ps)
  show ?case unfolding reset_files.simps wp_bind
  proof (rule wp_mono [OF reset_path_run], goal_cases)
    case (1 r s1)
    show ?case
    proof (cases r)
      case (Ret b1)
      have "fs s1 |` (- set ps) = fs s |` (- set (p # ps))"
        using 1 Ret by (auto simp: restrict_map_def fun_eq_iff)
      with Cons.IH [of "b \<or> b1" s1] Ret show ?thesis by simp
    qed simp_all
  qed
qed (simp add: wp_rules restrict_map_def)

text \<open>The paths that the persisted configuration names, as \<open>read_reset_paths\<close> finds them.\<close>

definition config_names :: "host \<Rightarrow> files \<Rightarrow> string list" where
  "config_names w m =
     (case m (PERSISTED_CONFIG_PATH w) of
        None \<Rightarrow> []
      | Some f \<Rightarrow> (case json_loads (universal_newlines (file_content f)) of
            Inr data \<Rightarrow> configured_paths data | Inl _ \<Rightarrow> []))"

definition reset_set :: "host \<Rightarrow> files \<Rightarrow> string set" where
  "reset_set w m = set (fixed_paths w) \<union> set (config_names w m)"

lemma unicode_not_caught: "\<not> catches [OSError, JSONDecodeError] (Exn UnicodeDecodeError m)"
  by (simp add: catches_def mro.simps)

lemma configured_paths_empty: "configured_paths (JObj []) = []"
  by (simp add: configured_paths_def List.map_filter_def)

lemma read_reset_paths_run:
  "wp (read_reset_paths w) (on_return (\<lambda>ps s'. fs s' = fs s \<and> set (fixed_paths w) \<subseteq> set ps
     \<and> (readable w \<longrightarrow> set ps = reset_set w (fs s)))) s"
  unfolding read_reset_paths_def path_exists_def read_text_def
  by (auto simp: wp_rules on_return_def reset_set_def config_names_def readable_def bytes_decode_def
      configured_paths_empty unicode_not_caught split: option.splits sum.splits if_splits)

abbreviation pid_files :: "host \<Rightarrow> string set" where
  "pid_files w \<equiv> {DAEMON_PID_PATH w, OPENVPN_PID_PATH w}"

lemma pid_files_fixed: "pid_files w \<subseteq> set (fixed_paths w)" "PERSISTED_CONFIG_PATH w \<notin> pid_files w"
  by (auto simp: fixed_paths_def PERSISTED_CONFIG_PATH_def DAEMON_PID_PATH_def OPENVPN_PID_PATH_def)

lemma outside_pid_files:
  assumes "outside (pid_files w) s' = outside (pid_files w) s"
  shows "reset_set w (fs s') = reset_set w (fs s)"
    and "fs s' |` (- reset_set w (fs s)) = fs s |` (- reset_set w (fs s))"
proof -
  have eq: "fs s' p = fs s p" if "p \<notin> pid_files w" for p
    using that fun_cong [OF assms, of p] by (simp add: outside_def restrict_map_def)
  show "reset_set w (fs s') = reset_set w (fs s)"
    by (simp add: reset_set_def config_names_def eq [OF pid_files_fixed(2)])
  show "fs s' |` (- reset_set w (fs s)) = fs s |` (- reset_set w (fs s))"
  proof
    fix p
    have "p \<in> reset_set w (fs s)" if "p \<in> pid_files w" using that pid_files_fixed(1) by (auto simp: reset_set_def)
    with eq [of p] show "(fs s' |` (- reset_set w (fs s))) p = (fs s |` (- reset_set w (fs s))) p"
      by (cases "p \<in> reset_set w (fs s)") (simp_all add: restrict_map_def, blast)
  qed
qed

definition stopping :: "nat \<Rightarrow> host \<Rightarrow> ('a, unit) hprog" where
  "stopping n w =
     bind_p (stop_daemon n w 10) (\<lambda>daemon_stopped.
      then_p (say (if daemon_stopped then ''  Stopped Coda daemon'' else ''  No Coda daemon running''))
     (bind_p (kill_openvpn_daemon w) (\<lambda>vpn_killed.
      say (if vpn_killed then ''  Stopped managed OpenVPN daemon'' else ''  No managed VPN process found''))))"

lemma stopping_keeps: "h_os_name w \<noteq> ''nt'' \<Longrightarrow> keeps (outside (pid_files w)) (stopping n w)"
  unfolding stopping_def by (intro keeps_intros stop_daemon_keeps kill_openvpn_keeps) auto

definition wiping :: "host \<Rightarrow> ('a, int) hprog" where
  "wiping w =
     bind_p (read_reset_paths w) (\<lambda>ps.
     bind_p (reset_files w False ps) (\<lambda>removed_any.
     then_p (if removed_any then ret () else say ''  No persisted runtime files found'') (ret 0)))"

lemma reset_stages:
  "reset n w = then_p (say ''Resetting persisted Coda runtime state...'') (then_p (stopping n w) (wiping w))"
  by (simp add: reset_def stopping_def wiping_def then_p_def bind_p_assoc)

definition wiped :: "host \<Rightarrow> 'a host_state_scheme \<Rightarrow> int \<Rightarrow> 'a host_state_scheme \<Rightarrow> bool" where
  "wiped w s code s' =
     (code = 0 \<and> (\<forall>p \<in> set (fixed_paths w). fs s' p = None)
      \<and> (readable w \<longrightarrow> fs s' = fs s |` (- reset_set w (fs s))))"

lemma wiping_run: "wp (wiping w) (on_return (wiped w s)) s"
  unfolding wiping_def wp_bind [of "read_reset_paths w"]
proof (rule wp_mono [OF read_reset_paths_run], goal_cases)
  case (1 r s1)
  show ?case
  proof (cases r)
    case (Ret ps)
    have "wp (bind_p (reset_files w False ps) (\<lambda>removed_any.
        then_p (if removed_any then ret () else say ''  No persisted runtime files found'') (ret 0)))
        (on_return (wiped w s)) s1"
      unfolding wp_bind
      by (rule wp_mono [OF reset_files_run])
         (use 1 Ret in \<open>auto simp: on_return_def wp_rules wiped_def split: outcome.splits\<close>)
    then show ?thesis using Ret by simp
  qed simp_all
qed

lemma reset_wipes:
  assumes "reset n w s = (Ret code, s')"
  shows "code = 0 \<and> (\<forall>p \<in> set (fixed_paths w). fs s' p = None)
    \<and> (readable w \<longrightarrow> fst (load_persisted_runtime_config w str s') = Ret [])
    \<and> (readable w \<and> h_os_name w \<noteq> ''nt'' \<longrightarrow> fs s' = fs s |` (- reset_set w (fs s)))"
proof -
  obtain s1 s2 where s1: "stopping n w s1 = (Ret (), s2)" "fs s1 = fs s" and w: "wiping w s2 = (Ret code, s')"
    using assms by (auto simp: reset_stages then_p_def bind_p_def say_def note_event_def modify_p_def
        split: prod.splits outcome.splits)
  have wd: "wiped w s2 code s'" using wp_run [OF wiping_run w] by simp
  have "fs s2 |` (- reset_set w (fs s2)) = fs s |` (- reset_set w (fs s))" if "h_os_name w \<noteq> ''nt''"
    using keepsD [OF stopping_keeps [OF that] s1(1)] outside_pid_files [of w s2 s1] s1(2) by simp
  moreover have "fst (load_persisted_runtime_config w str s') = Ret []"
    if "readable w" "fs s' (PERSISTED_CONFIG_PATH w) = None"
    using that by (simp add: load_persisted_runtime_config_def path_exists_def readable_fs_check then_p_def bind_p_def
        get_p_def ret_def)
  moreover have "PERSISTED_CONFIG_PATH w \<in> set (fixed_paths w)" by (simp add: fixed_paths_def)
  ultimately show ?thesis using wd by (auto simp: wiped_def)
qed

text \<open>
  C8: a reset forgets the node. When \<^verbatim>\<open>coda reset\<close> (or \<^verbatim>\<open>coda --reset\<close> before any command) ends with
  an exit code, it is 0 and none of the seven well-known files exists (configuration, key, VPN
  profile, PID and log files); the next start then finds no persisted configuration. On POSIX with
  readable files it removes exactly these and the files that the persisted configuration named, and
  leaves every other file as it was.
\<close>

theorem reset_forgets:
  assumes "cli_main n env_data w lib exe args s = (Ret c, s')"
    and "arg_reset args \<or> arg_command args = Some Reset"
  shows "c = Some 0 \<and> (\<forall>p \<in> set (fixed_paths w). fs s' p = None)
    \<and> (readable w \<longrightarrow> fst (load_persisted_runtime_config w str s') = Ret [])
    \<and> (readable w \<and> h_os_name w \<noteq> ''nt'' \<longrightarrow> fs s' = fs s |` (- reset_set w (fs s)))"
proof -
  obtain code where "reset n w s = (Ret code, s')" "c = Some code"
    using assms by (auto simp: cli_main_def bind_p_def ret_def split: prod.splits outcome.splits)
  with reset_wipes [of n w s code s' str] show ?thesis by simp
qed

definition configured_machine :: node_state where
  "configured_machine = \<lparr>trace = [], fs =
     [PERSISTED_CONFIG_PATH quiet_host \<mapsto> \<lparr>file_content = ''{'' @ [CHR 0x22] @ ''node_vpn_profile_path'' @ [CHR 0x22]
        @ '':'' @ [CHR 0x22] @ ''/x'' @ [CHR 0x22] @ ''}'', file_mode = 384\<rparr>,
      ''/x'' \<mapsto> \<lparr>file_content = ''client'', file_mode = 384\<rparr>,
      ''/keep'' \<mapsto> \<lparr>file_content = ''mine'', file_mode = 420\<rparr>],
     environ = [], node_settings = default_settings quiet_host\<rparr>"

lemma quiet_readable: "readable quiet_host"
  by (simp add: readable_def quiet_host_def)

lemma reset_returns: "\<exists>s'. reset 0 quiet_host configured_machine = (Ret 0, s')"
proof -
  have "fst (reset 0 quiet_host configured_machine) = Ret 0" by code_simp
  then show ?thesis by (metis prod.collapse)
qed

theorem reset_forgets_witness:
  "\<exists>s'. cli_main 0 (\<lambda>_. []) quiet_host demo_library [] \<lparr>arg_reset = False, arg_command = Some Reset\<rparr> configured_machine
       = (Ret (Some 0), s') \<and> fs s' ''/x'' = None
     \<and> fs s' (PERSISTED_CONFIG_PATH quiet_host) = None \<and> fs s' ''/keep'' = fs configured_machine ''/keep''
     \<and> fst (load_persisted_runtime_config quiet_host (\<lambda>_. []) s') = Ret []"
proof -
  let ?args = "\<lparr>arg_reset = False, arg_command = Some Reset\<rparr>"
  obtain s' where s': "cli_main 0 (\<lambda>_. []) quiet_host demo_library [] ?args configured_machine = (Ret (Some 0), s')"
    using reset_returns by (auto simp: cli_main_def bind_p_def ret_def)
  have "''/x'' \<in> reset_set quiet_host (fs configured_machine)"
    "''/keep'' \<notin> reset_set quiet_host (fs configured_machine)"
    "PERSISTED_CONFIG_PATH quiet_host \<in> reset_set quiet_host (fs configured_machine)"
    by code_simp+
  moreover have "h_os_name quiet_host \<noteq> ''nt''" "arg_reset ?args \<or> arg_command ?args = Some Reset"
    by (simp_all add: quiet_host_def)
  ultimately show ?thesis using reset_forgets [OF s'] s' quiet_readable by (auto simp: restrict_map_def)
qed

text \<open>
  A configuration that is not valid UTF-8 stops a reset. \<^verbatim>\<open>read_text\<close> raises
  \<^verbatim>\<open>UnicodeDecodeError\<close>, which the \<^verbatim>\<open>except\<close> clause for \<^verbatim>\<open>OSError\<close> and \<^verbatim>\<open>JSONDecodeError\<close> does not
  match, so the command ends with it and not one file is removed (but the PID files of what it
  stopped).
\<close>

theorem reset_stuck_on_binary_config:
  assumes "readable w" "h_os_name w \<noteq> ''nt''"
    and "fs s (PERSISTED_CONFIG_PATH w) = Some f" "\<not> utf8_valid (file_content f)"
    and "reset n w s = (r, s')" "r \<noteq> Hang"
  shows "(\<exists>e. r = Raise e) \<and> outside (pid_files w) s' = outside (pid_files w) s"
proof -
  have wiping: "\<exists>e s3. wiping w s2 = (Raise e, s3) \<and> fs s3 = fs s2" if "fs s2 (PERSISTED_CONFIG_PATH w) = Some f" for s2
    using that assms(1,4)
    by (simp add: wiping_def read_reset_paths_def path_exists_def read_text_def readable_fs_check bind_p_def then_p_def
        get_p_def ret_def raise_def from_sum_def bytes_decode_def try_except_def unicode_not_caught)
  obtain r2 s1 s2 where s1: "stopping n w s1 = (r2, s2)" "fs s1 = fs s"
    and w: "case r2 of Ret _ \<Rightarrow> wiping w s2 = (r, s') | Raise e \<Rightarrow> r = Raise e \<and> s' = s2 | Hang \<Rightarrow> r = Hang \<and> s' = s2"
    using assms(5) by (auto simp: reset_stages then_p_def bind_p_def say_def note_event_def modify_p_def
        split: prod.splits outcome.splits)
  have o: "outside (pid_files w) s2 = outside (pid_files w) s"
    using keepsD [OF stopping_keeps [OF assms(2)] s1(1)] s1(2) by (simp add: outside_def)
  moreover have "fs s2 (PERSISTED_CONFIG_PATH w) = Some f"
    using fun_cong [OF o, of "PERSISTED_CONFIG_PATH w"] pid_files_fixed(2) assms(3)
    by (simp add: outside_def restrict_map_def)
  ultimately show ?thesis using w wiping [of s2] assms(6) by (auto simp: outside_def split: outcome.splits)
qed

theorem reset_stuck_on_binary_config_witness:
  "\<exists>e s'. reset 0 quiet_host (empty_host_state\<lparr>fs := [PERSISTED_CONFIG_PATH quiet_host \<mapsto> \<lparr>file_content = [CHR 0xFF], file_mode = 384\<rparr>]\<rparr>)
     = (Raise e, s') \<and> fs s' (PERSISTED_CONFIG_PATH quiet_host) \<noteq> None"
proof -
  let ?f = "\<lparr>file_content = [CHR 0xFF], file_mode = 384\<rparr>"
  let ?s = "empty_host_state\<lparr>fs := [PERSISTED_CONFIG_PATH quiet_host \<mapsto> ?f]\<rparr>"
  have p: "h_os_name quiet_host \<noteq> ''nt''" "fs ?s (PERSISTED_CONFIG_PATH quiet_host) = Some ?f" "\<not> utf8_valid (file_content ?f)"
    by (simp add: quiet_host_def, simp, code_simp)
  obtain r s' where run: "reset 0 quiet_host ?s = (r, s')" by force
  have "fst (reset 0 quiet_host ?s) \<noteq> Hang" by code_simp
  then have "r \<noteq> Hang" using run by simp
  from reset_stuck_on_binary_config [OF quiet_readable p run this]
  have "\<exists>e. r = Raise e" "outside (pid_files quiet_host) s' (PERSISTED_CONFIG_PATH quiet_host) = Some ?f"
    using pid_files_fixed(2) [of quiet_host] by (simp_all add: outside_def restrict_map_def)
  then show ?thesis using run by (auto simp: outside_def restrict_map_def split: if_splits)
qed


section \<open>One daemon at a time\<close>

lemma report_started_run:
  "wp (report_started w pid) (on_return (\<lambda>c s'. c = None \<and> fs s' = fs s
     \<and> (\<exists>evs. trace s' = trace s @ evs \<and> filter spawns evs = []))) s"
  by (simp add: report_started_def wp_rules)

lemma say_lines_run:
  "wp (for_p ls say) (\<lambda>r s'. r = Ret () \<and> (\<exists>evs. s' = emits evs s \<and> filter spawns evs = [])) s"
proof (induction ls arbitrary: s)
  case (Cons l ls)
  show ?case using Cons [of "emits [H_Print l] s"] by (auto simp: wp_rules elim!: wp_mono)
qed (auto simp: wp_rules intro: exI [of _ "[]"])

lemma banner_run:
  "wp (start_banner title st) (\<lambda>r s'. r = Ret () \<and> (\<exists>evs. s' = emits evs s \<and> filter spawns evs = [])) s"
  unfolding start_banner_def print_banner_def by (rule say_lines_run)

text \<open>The daemon of the settings \<open>st\<close> was started, or the command ended with another code.\<close>

definition daemon_of :: "host \<Rightarrow> string \<Rightarrow> settings \<Rightarrow> 'a host_state_scheme \<Rightarrow> int option \<Rightarrow> 'a host_state_scheme \<Rightarrow> bool" where
  "daemon_of w exe st s c s' =
     (c \<in> {None, Some 1} \<and> (c = None \<longrightarrow> (\<exists>pid evs. pid_in w (fs s') = Some pid \<and> trace s' = trace s @ evs
        \<and> filter spawns evs = [H_Popen (daemon_command exe (host_address st) (port st))
             (Some (daemon_env (host_address st) (port st)
               (if node_token st = [] then None else Some (node_token st)) (environ s))) (Inr pid)])))"

lemma run_daemon_run: "wp (run_daemon w exe st) (on_return (daemon_of w exe st s)) s"
proof -
  let ?tok = "if node_token st = [] then None else Some (node_token st)"
  let ?start = "try_except (bind_p (start_daemon w exe (host_address st) (port st) ?tok) (report_started w))
     (\<lambda>exc. if catches [RuntimeError] exc
        then Some (then_p (say (''  Failed to start daemon: '' @ exn_text exc)) (ret (Some 1))) else None)"
  have one: "wp (then_p (say t) (ret (Some 1))) (on_return (daemon_of w exe st s)) s'" for t s'
    by (simp add: wp_rules daemon_of_def)
  have start: "wp ?start (on_return (daemon_of w exe st s)) s1"
    if s1: "s1 = emits evs s" "filter spawns evs = []" for evs s1
    unfolding wp_try_except wp_bind
  proof (rule wp_mono [OF start_daemon_run], goal_cases)
    case (1 r s2)
    show ?case
    proof (cases r)
      case (Ret pid)
      then obtain evs2 where e2: "trace s2 = trace s @ evs @ evs2" "pid_in w (fs s2) = Some pid"
        "filter spawns evs2 = [H_Popen (daemon_command exe (host_address st) (port st))
           (Some (daemon_env (host_address st) (port st) ?tok (environ s))) (Inr pid)]"
        using 1 s1 by (auto simp: started_def)
      have "wp (report_started w pid) (on_return (daemon_of w exe st s)) s2"
        by (rule wp_mono [OF report_started_run])
           (use e2 s1 in \<open>auto simp: on_return_def daemon_of_def split: outcome.splits\<close>)
      then show ?thesis using Ret by (auto intro: one elim!: wp_mono split: outcome.splits)
    qed (auto intro: one)
  qed
  have fresh: "wp (then_p (start_banner ''D A E M O N'' st) ?start) (on_return (daemon_of w exe st s)) s1"
    if s1: "s1 = emits evs s" "filter spawns evs = []" for evs s1
    unfolding wp_then
  proof (rule wp_mono [OF banner_run], goal_cases)
    case (1 r s2)
    then obtain evs2 where "s2 = emits (evs @ evs2) s" "filter spawns evs2 = []" using s1 by auto
    with s1 1 show ?case using start [of s2 "evs @ evs2"] by auto
  qed
  show ?thesis unfolding run_daemon_def wp_bind [of "is_daemon_running w"]
  proof (rule wp_queried [OF is_daemon_running_query], goal_cases)
    case (1 r evs)
    have "wp (bind_p (daemon_status w) (\<lambda>status.
        then_p (say (''Daemon already running (PID '' @ show_pid (d_pid status) @ '')'')) (ret (Some 1))))
        (on_return (daemon_of w exe st s)) (emits evs s)"
      by (rule wp_last) (rule one)
    then show ?case using fresh [of "emits evs s" evs] query_no_spawn [OF 1(2)] by (cases r) auto
  qed
qed

lemma assign_keeps [keeps_intros]: "keeps (outside A) (assign lib upd)"
  by (auto simp: keeps_def assign_def wp_def bind_p_def from_sum_def modify_p_def ret_def raise_def outside_def
      split: sum.split)

lemma keeps_json [keeps_intros]:
  assumes "keeps g n" "\<And>x. keeps g (b x)" "\<And>x. keeps g (i x)" "\<And>x. keeps g (f x)"
    "\<And>x. keeps g (q x)" "\<And>x. keeps g (t x)" "\<And>x. keeps g (a x)" "\<And>x. keeps g (d x)"
  shows "keeps g (case v of JNull \<Rightarrow> n | JBool x \<Rightarrow> b x | JInt x \<Rightarrow> i x | JFloat x \<Rightarrow> f x
    | JSpecial x \<Rightarrow> q x | JStr x \<Rightarrow> t x | JArr x \<Rightarrow> a x | JObj x \<Rightarrow> d x)"
  using assms by (cases v) auto

lemma load_settings_keeps: "keeps (outside A) (load_settings env_data w lib)"
proof -
  have "keeps (outside A) (read_secure_text w p)" for p
    unfolding read_secure_text_def stat_mode_def by (intro keeps_intros)
  then show ?thesis
    unfolding load_settings_def make_settings_def merge_persisted_runtime_config_def
      load_persisted_runtime_config_def read_persisted_def
      apply_default_device_config_def apply_device_config_executor_factory_def
      load_executor_factory_from_device_config_def
    by (intro keeps_intros) (auto intro!: keeps_intros simp: outside_def split: if_splits)
qed

lemma overrides_run:
  "wp (apply_overrides args) (\<lambda>r s'. r = Ret () \<and> fs s' = fs s \<and> trace s' = trace s) s"
  by (auto simp: apply_overrides_def set_nonempty_def set_variable_def wp_rules split: option.split)

text \<open>What precedes the start of a daemon: no file is changed and no process started.\<close>

lemma start_prelude_run:
  "wp (then_p (apply_overrides args) (load_settings env_data w lib))
     (\<lambda>r s'. fs s' = fs s \<and> (\<exists>evs. trace s' = trace s @ evs \<and> filter spawns evs = [])) s"
  unfolding wp_then
proof (rule wp_mono [OF overrides_run], goal_cases)
  case (1 r s1)
  have "emits_all (\<lambda>e. \<not> spawns e) (load_settings env_data w lib)" by (rule load_settings_emits) simp
  then have "wp (load_settings env_data w lib) (\<lambda>r s'. outside {} s' = outside {} s1
      \<and> (\<exists>evs. trace s' = trace s1 @ evs \<and> list_all (\<lambda>e. \<not> spawns e) evs)) s1"
    using load_settings_keeps by (intro wp_conj) (simp_all add: emits_all_def keeps_def)
  then show ?case using 1
    by (auto simp: outside_def restrict_map_def fun_eq_iff list_all_iff filter_empty_conv elim!: wp_mono)
qed

lemma run_start_daemon:
  "arg_daemon a \<Longrightarrow> run_start env_data w lib exe a =
     bind_p (then_p (then_p (apply_overrides a) (load_settings env_data w lib)) (get_p node_settings)) (run_daemon w exe)"
  by (simp add: run_start_def then_p_def bind_p_assoc)

lemma running_when_answering:
  assumes "readable w" "pid_in w (fs s) = Some pid" "\<And>h. h_kill w h pid SIG0 = Inr ()"
  shows "wp (is_daemon_running w) (\<lambda>r s'. r = Ret True \<and> (\<exists>evs. s' = emits evs s \<and> filter spawns evs = [])) s"
  using assms
  by (auto simp: is_daemon_running_def read_daemon_pid_def path_exists_def read_text_def process_exists_def os_kill_def
      pid_in_def bytes_decode_def readable_def wp_rules split: option.splits if_splits sum.splits)

lemma daemon_status_run:
  "wp (daemon_status w) (\<lambda>r s'. r \<noteq> Hang \<and> (\<exists>evs. trace s' = trace s @ evs \<and> filter spawns evs = [])) s"
  unfolding daemon_status_def wp_bind [of "read_daemon_pid w"]
proof (rule wp_queried [OF read_daemon_pid_query], goal_cases)
  case (1 r evs)
  note ns = query_no_spawn [OF 1(2)]
  have rest: "wp (bind_p (case pid of None \<Rightarrow> ret False | Some p \<Rightarrow> process_exists w p) (\<lambda>running.
      bind_p (path_exists w (DAEMON_LOG_PATH w)) (\<lambda>log_exists. ret (f running log_exists))))
      (\<lambda>r s'. r \<noteq> Hang \<and> (\<exists>evs. trace s' = trace s @ evs \<and> filter spawns evs = [])) (emits evs s)" for pid f
    using ns by (auto simp: process_exists_def os_kill_def path_exists_def wp_rules split: option.splits sum.splits)
  show ?case using 1(1) rest ns by (cases r) auto
qed

lemma run_daemon_refused:
  assumes "readable w" "pid_in w (fs s) = Some pid" "\<And>h. h_kill w h pid SIG0 = Inr ()"
  shows "wp (run_daemon w exe st) (\<lambda>r s'. r \<noteq> Hang \<and> (\<forall>c. r = Ret c \<longrightarrow> c = Some 1)
     \<and> (\<exists>evs. trace s' = trace s @ evs \<and> filter spawns evs = [])) s"
  unfolding run_daemon_def wp_bind [of "is_daemon_running w"]
proof (rule wp_mono [OF running_when_answering [OF assms]], goal_cases)
  case (1 r s1)
  then obtain evs where s1: "s1 = emits evs s" "filter spawns evs = []" "r = Ret True" by blast
  have "wp (bind_p (daemon_status w) (\<lambda>status.
      then_p (say (''Daemon already running (PID '' @ show_pid (d_pid status) @ '')'')) (ret (Some 1))))
      (\<lambda>r s'. r \<noteq> Hang \<and> (\<forall>c. r = Ret c \<longrightarrow> c = Some 1) \<and> (\<exists>evs. trace s' = trace s @ evs \<and> filter spawns evs = [])) s1"
    unfolding wp_bind
    by (rule wp_mono [OF daemon_status_run]) (use s1 in \<open>auto simp: wp_rules split: outcome.splits\<close>)
  then show ?case using s1(3) by simp
qed

lemma daemon_env_lookup:
  "map_of (daemon_env address p tok env) ''CODA_HOST'' = Some address"
  "map_of (daemon_env address p tok env) ''CODA_PORT'' = Some (show_int p)"
  by (simp_all add: daemon_env_def Let_def split: option.split)

lemma second_start:
  assumes "readable w" "\<And>h. h_kill w h pid SIG0 = Inr ()" "pid_in w (fs s) = Some pid" "arg_daemon b"
  shows "wp (run_start env_data w lib exe b) (\<lambda>r s'. (\<forall>c. r = Ret c \<longrightarrow> c = Some 1)
     \<and> (\<exists>evs. trace s' = trace s @ evs \<and> filter spawns evs = [])) s"
  unfolding run_start_daemon [OF assms(4)] wp_bind wp_then [of "then_p _ _"]
proof (rule wp_mono [OF start_prelude_run], goal_cases)
  case (1 r s1)
  then obtain evs where s1: "fs s1 = fs s" "trace s1 = trace s @ evs" "filter spawns evs = []" by blast
  show ?case
  proof (cases r)
    case (Ret u)
    have "wp (run_daemon w exe (node_settings s1)) (\<lambda>r s'. (\<forall>c. r = Ret c \<longrightarrow> c = Some 1)
       \<and> (\<exists>evs. trace s' = trace s @ evs \<and> filter spawns evs = [])) s1"
      by (rule wp_mono [OF run_daemon_refused [where pid = pid]]) (use assms s1 in auto)
    then show ?thesis using Ret by (simp add: wp_get_p)
  qed (use s1 in auto)
qed

text \<open>
  C21: one daemon at a time. When \<^verbatim>\<open>coda start --daemon\<close> returns, it has started exactly one process, the
  uvicorn command with the address and port of the settings in its arguments and its environment,
  and the PID file names it. As long as that process answers, another
  \<^verbatim>\<open>coda start --daemon\<close> starts nothing: it ends, with code 1 or with an exception.
\<close>

theorem one_daemon_at_a_time:
  assumes "run_start env_data w lib exe a s = (Ret None, s1)" "arg_daemon a"
  shows "\<exists>pid evs address bind_port env. trace s1 = trace s @ evs
    \<and> filter spawns evs = [H_Popen (daemon_command exe address bind_port) (Some env) (Inr pid)]
    \<and> map_of env ''CODA_HOST'' = Some address \<and> map_of env ''CODA_PORT'' = Some (show_int bind_port)
    \<and> pid_in w (fs s1) = Some pid
    \<and> (readable w \<and> (\<forall>h. h_kill w h pid SIG0 = Inr ()) \<longrightarrow>
       (\<forall>b r s2. arg_daemon b \<and> run_start env_data w lib exe b s1 = (r, s2) \<longrightarrow>
          (\<forall>c. r = Ret c \<longrightarrow> c = Some 1)
          \<and> (\<exists>evs2. trace s2 = trace s1 @ evs2 \<and> filter spawns evs2 = [])))"
proof -
  obtain u s0 where pre: "then_p (apply_overrides a) (load_settings env_data w lib) s = (Ret u, s0)"
    and d: "run_daemon w exe (node_settings s0) s0 = (Ret None, s1)"
    using assms(1) unfolding run_start_daemon [OF assms(2)]
    by (auto simp: bind_p_def then_p_def [of "then_p _ _"] get_p_def split: prod.splits outcome.splits)
  obtain evs0 where s0: "trace s0 = trace s @ evs0" "filter spawns evs0 = []" using wp_run [OF start_prelude_run pre] by blast
  obtain pid evs where p: "pid_in w (fs s1) = Some pid" and e: "trace s1 = trace s0 @ evs"
    "filter spawns evs = [H_Popen (daemon_command exe (host_address (node_settings s0)) (port (node_settings s0)))
       (Some (daemon_env (host_address (node_settings s0)) (port (node_settings s0))
         (if node_token (node_settings s0) = [] then None else Some (node_token (node_settings s0))) (environ s0))) (Inr pid)]"
    using wp_run [OF run_daemon_run d] by (auto simp: daemon_of_def)
  have second: "(\<forall>c. r = Ret c \<longrightarrow> c = Some 1) \<and> (\<exists>evs2. trace s2 = trace s1 @ evs2 \<and> filter spawns evs2 = [])"
    if "readable w" "\<forall>h. h_kill w h pid SIG0 = Inr ()" "arg_daemon b" "run_start env_data w lib exe b s1 = (r, s2)" for b r s2
    using wp_run [OF second_start [where pid = pid] that(4)] that(1-3) p by blast
  show ?thesis
    by (rule exI [of _ pid], rule exI [of _ "evs0 @ evs"], intro exI conjI)
       (use s0 e p second in \<open>auto simp: daemon_env_lookup\<close>)
qed

definition background_start :: start_args where
  "background_start = \<lparr>arg_host = None, arg_port = None, arg_node_token = None, arg_daemon = True\<rparr>"

lemma cloud_answers: "readable cloud_host" "h_kill cloud_host h pid SIG0 = Inr ()"
  by (simp_all add: readable_def cloud_host_def quiet_host_def)

lemma demo_not_running:
  "fs s (DAEMON_PID_PATH cloud_host) = None \<Longrightarrow>
   wp (is_daemon_running cloud_host) (\<lambda>r s'. r = Ret False \<and> fs s' = fs s) s"
  by (simp add: is_daemon_running_def read_daemon_pid_def path_exists_def cloud_host_def quiet_host_def wp_rules)

lemma demo_start_daemon:
  assumes "fs s (DAEMON_PID_PATH cloud_host) = None"
  shows "wp (start_daemon cloud_host exe a p tok) (\<lambda>r _. r = Ret 42) s"
proof -
  have h: "h_fs_error cloud_host h op p = None" "h_os_name cloud_host \<noteq> ''nt''" "h_popen cloud_host h m c env = (Inr 42, m)"
    for h op p m c env by (simp_all add: cloud_host_def quiet_host_def)
  have "DAEMON_LOG_PATH cloud_host \<noteq> DAEMON_PID_PATH cloud_host"
    by (simp add: DAEMON_LOG_PATH_def DAEMON_PID_PATH_def)
  then show ?thesis unfolding start_daemon_def wp_bind [of "is_daemon_running _"]
    by (intro wp_mono [OF demo_not_running [OF assms]])
       (auto simp: assms h wp_rules path_exists_def spawn_daemon_def open_append_def write_text_def chmod_def)
qed

lemma demo_daemon:
  assumes "fs s (DAEMON_PID_PATH cloud_host) = None"
  shows "wp (run_daemon cloud_host exe st) (\<lambda>r _. r = Ret None) s"
  unfolding run_daemon_def wp_bind [of "is_daemon_running _"]
proof (rule wp_mono [OF demo_not_running [OF assms]], goal_cases)
  case (1 r s1)
  have told: "wp (report_started cloud_host 42) (\<lambda>r _. r = Ret None) s'" for s' :: "'a host_state_scheme"
    by (simp add: report_started_def wp_rules)
  have start: "wp (try_except (bind_p (start_daemon cloud_host exe a p tok) (report_started cloud_host)) h)
      (\<lambda>r _. r = Ret None) s2" if "fs s2 = fs s1" for s2 :: "'a host_state_scheme" and a p tok h
  proof -
    have "wp (bind_p (start_daemon cloud_host exe a p tok) (report_started cloud_host)) (\<lambda>r _. r = Ret None) s2"
      unfolding wp_bind by (rule wp_mono [OF demo_start_daemon]) (use 1 that assms told in auto)
    then show ?thesis unfolding wp_try_except by (rule wp_mono) auto
  qed
  have "wp (then_p (start_banner ''D A E M O N'' st)
      (try_except (bind_p (start_daemon cloud_host exe a p tok) (report_started cloud_host)) h)) (\<lambda>r _. r = Ret None) s1" for a p tok h
    unfolding wp_then by (rule wp_mono [OF banner_run]) (use start in auto)
  then show ?case using 1 by simp
qed

theorem one_daemon_at_a_time_witness:
  "\<exists>s1 evs. run_start (\<lambda>_. []) cloud_host demo_library ''python3'' background_start empty_node = (Ret None, s1)
     \<and> pid_in cloud_host (fs s1) \<noteq> None
     \<and> (\<forall>c s2. run_start (\<lambda>_. []) cloud_host demo_library ''python3'' background_start s1 = (Ret c, s2) \<longrightarrow> c = Some 1)"
proof -
  have "apply_overrides background_start empty_node = (Ret (), empty_node)"
    by (simp add: apply_overrides_def background_start_def set_nonempty_def then_p_def bind_p_def ret_def)
  moreover obtain s0 where s0: "load_settings (\<lambda>_. []) cloud_host demo_library empty_node = (Ret (), s0)"
    using demo_load by (auto simp: wp_def split: prod.splits)
  moreover have "fs s0 = fs empty_node"
    using keepsD [OF load_settings_keeps [of "{}"] s0] by (simp add: outside_def restrict_map_def fun_eq_iff)
  then obtain s1 where "run_daemon cloud_host ''python3'' (node_settings s0) s0 = (Ret None, s1)"
    using demo_daemon [of s0 "''python3''" "node_settings s0"]
    by (auto simp: wp_def empty_node_def fresh_node_def split: prod.splits)
  moreover have d: "arg_daemon background_start" by (simp add: background_start_def)
  ultimately have run: "run_start (\<lambda>_. []) cloud_host demo_library ''python3'' background_start empty_node = (Ret None, s1)"
    by (simp add: run_start_daemon then_p_def bind_p_def get_p_def)
  from one_daemon_at_a_time [OF this d] run cloud_answers d show ?thesis by blast
qed

end
