(* ===== verification/Args.thy ===== *)
theory Args
  imports Cli
begin

text \<open>
  \<open>server/cli.py\<close> from \<^verbatim>\<open>sys.argv\<close> on: \<open>_build_parser\<close> as tables of options and
  commands, and what \<^verbatim>\<open>argparse\<close> (of Python 3.11) does with them: classification of the
  arguments, abbreviated long options, values in the same or the next argument, short options
  run together, and the subcommand that takes all that follows it. The texts that are printed
  for \<^verbatim>\<open>--help\<close> and for an error are not modelled, only the exit codes 0 and 2.

  \<open>command_line\<close> is a right inverse of the parser, and a reset happens only on request.
\<close>

section \<open>Options and commands\<close>

datatype opt_action = Help_Flag | Reset_Flag | Host_Value | Port_Value | Token_Value | Daemon_Flag | Lines_Value

record arg_parser =
  ap_options :: "(string \<times> opt_action) list"
  ap_commands :: "string list"

definition root_parser :: arg_parser where
  "root_parser = \<lparr>ap_options = [(''-h'', Help_Flag), (''--help'', Help_Flag), (''--reset'', Reset_Flag)],
     ap_commands = [''start'', ''stop'', ''status'', ''doctor'', ''reset'', ''stop-vpn'', ''logs'']\<rparr>"

text \<open>The parser of a command has no positional argument. Every parser has the help option.\<close>

definition command_parser :: "string \<Rightarrow> arg_parser" where
  "command_parser name =
     \<lparr>ap_options = [(''-h'', Help_Flag), (''--help'', Help_Flag)]
        @ (if name = ''start'' then
             [(''-H'', Host_Value), (''--host'', Host_Value), (''-p'', Port_Value), (''--port'', Port_Value),
              (''-t'', Token_Value), (''--token'', Token_Value), (''-d'', Daemon_Flag), (''--daemon'', Daemon_Flag)]
           else if name = ''logs'' then [(''-n'', Lines_Value), (''--lines'', Lines_Value)]
           else []),
      ap_commands = []\<rparr>"

text \<open>A value is one argument; a flag takes none.\<close>

fun takes_value :: "opt_action \<Rightarrow> bool" where
  "takes_value Help_Flag = False"
| "takes_value Reset_Flag = False"
| "takes_value Daemon_Flag = False"
| "takes_value _ = True"

record arg_values =
  av_reset :: bool
  av_start :: start_args
  av_lines :: int

definition default_values :: arg_values where
  "default_values = \<lparr>av_reset = False,
     av_start = \<lparr>arg_host = None, arg_port = None, arg_node_token = None, arg_daemon = False\<rparr>, av_lines = 50\<rparr>"

text \<open>How parsing ends: with a result, with the help text (exit 0), or with an error (exit 2).\<close>

datatype 'a parsing = Parsed 'a | Shown_Help | Bad_Usage

fun bind_parsing :: "'a parsing \<Rightarrow> ('a \<Rightarrow> 'b parsing) \<Rightarrow> 'b parsing" where
  "bind_parsing (Parsed x) f = f x"
| "bind_parsing Shown_Help f = Shown_Help"
| "bind_parsing Bad_Usage f = Bad_Usage"

definition set_start :: "(start_args \<Rightarrow> start_args) \<Rightarrow> arg_values \<Rightarrow> arg_values parsing" where
  "set_start upd av = Parsed (av\<lparr>av_start := upd (av_start av)\<rparr>)"

text \<open>\<open>take_action a v av\<close>: the option \<open>a\<close> is applied; a flag ignores \<open>v\<close>.\<close>

fun take_action :: "opt_action \<Rightarrow> string \<Rightarrow> arg_values \<Rightarrow> arg_values parsing" where
  "take_action Help_Flag v av = Shown_Help"
| "take_action Reset_Flag v av = Parsed (av\<lparr>av_reset := True\<rparr>)"
| "take_action Host_Value v av = set_start (arg_host_update (\<lambda>_. Some v)) av"
| "take_action Port_Value v av =
     (case read_int v of None \<Rightarrow> Bad_Usage | Some p \<Rightarrow> set_start (arg_port_update (\<lambda>_. Some p)) av)"
| "take_action Token_Value v av = set_start (arg_node_token_update (\<lambda>_. Some v)) av"
| "take_action Daemon_Flag v av = set_start (arg_daemon_update (\<lambda>_. True)) av"
| "take_action Lines_Value v av =
     (case read_int v of None \<Rightarrow> Bad_Usage | Some k \<Rightarrow> Parsed (av\<lparr>av_lines := k\<rparr>))"

fun take_actions :: "(opt_action \<times> string) list \<Rightarrow> arg_values \<Rightarrow> arg_values parsing" where
  "take_actions [] av = Parsed av"
| "take_actions ((a, v) # acts) av = bind_parsing (take_action a v av) (take_actions acts)"


section \<open>Classification\<close>

text \<open>
  An argument is a plain one, an option (the action, whether its name is a long one, whether an
  \<^verbatim>\<open>=\<close> was seen, and the value written in the same argument), an option that is not known, or
  the separator \<^verbatim>\<open>--\<close>.
\<close>

datatype arg_kind = Plain | Option opt_action bool bool "string option" | Unknown | Separator

definition is_long :: "string \<Rightarrow> bool" where
  "is_long s = (take 2 s = ''--'')"

text \<open>The possible readings of an argument that is not the exact name of an option.\<close>

definition option_tuples :: "(string \<times> opt_action) list \<Rightarrow> string \<Rightarrow> arg_kind list" where
  "option_tuples opts arg =
     (if is_long arg
      then case partition_on (CHR ''='') arg of (pre, sep, explicit) \<Rightarrow>
        List.map_filter (\<lambda>(name, a).
          if startswith name pre then Some (Option a True sep (if sep then Some explicit else None)) else None) opts
      else List.map_filter (\<lambda>(name, a).
          if name = take 2 arg then Some (Option a False False (Some (drop 2 arg)))
          else if startswith name arg then Some (Option a (is_long name) False None)
          else None) opts)"

text \<open>\<^verbatim>\<open>^-\d+$|^-\d*\.\d+$\<close>, where \<^verbatim>\<open>$\<close> also matches before a final newline.\<close>

definition chomp :: "string \<Rightarrow> string" where
  "chomp s = (if s \<noteq> [] \<and> byte (last s) = 10 then butlast s else s)"

definition negative_number :: "string \<Rightarrow> bool" where
  "negative_number arg =
     (let t = chomp (tl arg); fraction = tl (dropWhile is_digit t)
      in hd arg = CHR ''-'' \<and> t \<noteq> []
         \<and> (list_all is_digit t
            \<or> hd (dropWhile is_digit t) = CHR ''.'' \<and> fraction \<noteq> [] \<and> list_all is_digit fraction))"

definition parse_optional :: "(string \<times> opt_action) list \<Rightarrow> string \<Rightarrow> arg_kind parsing" where
  "parse_optional opts arg =
     (if arg = [] \<or> hd arg \<noteq> CHR ''-'' then Parsed Plain
      else case map_of opts arg of
        Some a \<Rightarrow> Parsed (Option a (is_long arg) False None)
      | None \<Rightarrow>
          if length arg = 1 then Parsed Plain
          else case partition_on (CHR ''='') arg of (name, sep, explicit) \<Rightarrow>
            (case if sep then map_of opts name else None of
               Some a \<Rightarrow> Parsed (Option a (is_long name) True (Some explicit))
             | None \<Rightarrow>
                 (case option_tuples opts arg of
                    [k] \<Rightarrow> Parsed k
                  | _ # _ \<Rightarrow> Bad_Usage
                  | [] \<Rightarrow> if negative_number arg \<or> CHR '' '' \<in> set arg then Parsed Plain else Parsed Unknown)))"

fun classify :: "(string \<times> opt_action) list \<Rightarrow> string list \<Rightarrow> (string \<times> arg_kind) list parsing" where
  "classify opts [] = Parsed []"
| "classify opts (arg # argv) =
     (if arg = ''--'' then Parsed ((arg, Separator) # map (\<lambda>a. (a, Plain)) argv)
      else bind_parsing (parse_optional opts arg) (\<lambda>k.
        bind_parsing (classify opts argv) (\<lambda>items. Parsed ((arg, k) # items))))"


section \<open>Consuming an option\<close>

text \<open>
  The result of \<^verbatim>\<open>consume_optional\<close>: the actions to take, the arguments left, and whether a part of
  the argument was not recognised.
\<close>

type_synonym consumed = "((opt_action \<times> string) list \<times> (string \<times> arg_kind) list \<times> bool) parsing"

definition consume_next :: "opt_action \<Rightarrow> (string \<times> arg_kind) list \<Rightarrow> consumed" where
  "consume_next a items =
     (if \<not> takes_value a then Parsed ([(a, [])], items, False)
      else case items of
        (v, Plain) # rest \<Rightarrow> Parsed ([(a, v)], rest, False)
      | _ \<Rightarrow> Bad_Usage)"

definition more_actions :: "opt_action \<Rightarrow> consumed \<Rightarrow> consumed" where
  "more_actions a c = bind_parsing c (\<lambda>(acts, rest, extra). Parsed ((a, []) # acts, rest, extra))"

text \<open>A short option whose argument goes on: a value, or further short options run together.\<close>

fun consume_short ::
    "(string \<times> opt_action) list \<Rightarrow> opt_action \<Rightarrow> bool \<Rightarrow> string \<Rightarrow> (string \<times> arg_kind) list \<Rightarrow> consumed" where
  "consume_short opts a sep [] items = (if takes_value a then Parsed ([(a, [])], items, False) else Bad_Usage)"
| "consume_short opts a sep (c # explicit) items =
     (if takes_value a then Parsed ([(a, c # explicit)], items, False)
      else if sep \<or> c = CHR ''-'' then Bad_Usage
      else case map_of opts [CHR ''-'', c] of
        None \<Rightarrow> Parsed ([(a, [])], items, True)
      | Some a' \<Rightarrow> more_actions a
          (case explicit of
             [] \<Rightarrow> consume_next a' items
           | d # ds \<Rightarrow>
               if d = CHR ''='' then consume_short opts a' True ds items
               else consume_short opts a' False (d # ds) items))"

definition consume_optional ::
    "(string \<times> opt_action) list \<Rightarrow> opt_action \<Rightarrow> bool \<Rightarrow> bool \<Rightarrow> string option \<Rightarrow> (string \<times> arg_kind) list \<Rightarrow> consumed" where
  "consume_optional opts a long sep explicit items =
     (case explicit of
        None \<Rightarrow> consume_next a items
      | Some v \<Rightarrow>
          if long then (if takes_value a then Parsed ([(a, v)], items, False) else Bad_Usage)
          else consume_short opts a sep v items)"


lemma bind_parsing_Parsed [simp]:
  "bind_parsing m f = Parsed y \<longleftrightarrow> (\<exists>x. m = Parsed x \<and> f x = Parsed y)"
  by (cases m) auto

lemma bind_parsing_cong [fundef_cong]:
  "m = m' \<Longrightarrow> (\<And>x. m' = Parsed x \<Longrightarrow> f x = g x) \<Longrightarrow> bind_parsing m f = bind_parsing m' g"
  by (cases m') auto

lemma consume_next_length: "consume_next a items = Parsed (acts, rest, strange) \<Longrightarrow> length rest \<le> length items"
  by (auto simp: consume_next_def split: if_splits list.splits prod.splits arg_kind.splits)

lemmas consume_short_Cons = consume_short.simps(2)

declare consume_short.simps(2) [simp del]

lemma consume_short_length:
  "consume_short opts a sep explicit items = Parsed (acts, rest, strange) \<Longrightarrow> length rest \<le> length items"
proof (induction opts a sep explicit items arbitrary: acts rest strange rule: consume_short.induct)
  case (2 opts a sep c explicit items)
  have next_fits: "length r \<le> length items" if "consume_next a' items = Parsed (ac, r, st)" for a' ac r st
    using that by (rule consume_next_length)
  show ?case using 2(3)
    by (cases explicit)
       (auto simp: consume_short_Cons [of opts a] more_actions_def dest: next_fits 2(1) 2(2) split: if_split_asm option.split_asm)
qed (auto split: if_splits)

lemma consume_optional_length:
  "consume_optional opts a long sep explicit items = Parsed (acts, rest, strange) \<Longrightarrow> length rest \<le> length items"
  by (auto simp: consume_optional_def dest: consume_next_length consume_short_length split: if_splits option.splits)


section \<open>Parsing\<close>

text \<open>
  \<^verbatim>\<open>parse_known_args\<close> of a parser without positional arguments: the values, and whether some
  argument was not recognised.
\<close>

function parse_options ::
    "(string \<times> opt_action) list \<Rightarrow> (string \<times> arg_kind) list \<Rightarrow> bool \<Rightarrow> arg_values \<Rightarrow> (arg_values \<times> bool) parsing" where
  "parse_options opts [] extra av = Parsed (av, extra)"
| "parse_options opts ((arg, Plain) # items) extra av = parse_options opts items True av"
| "parse_options opts ((arg, Separator) # items) extra av = parse_options opts items True av"
| "parse_options opts ((arg, Unknown) # items) extra av = parse_options opts items True av"
| "parse_options opts ((arg, Option a long sep explicit) # items) extra av =
     (case consume_optional opts a long sep explicit items of
        Parsed (acts, rest, strange) \<Rightarrow>
          bind_parsing (take_actions acts av) (\<lambda>av. parse_options opts rest (extra \<or> strange) av)
      | Shown_Help \<Rightarrow> Shown_Help
      | Bad_Usage \<Rightarrow> Bad_Usage)"
  by pat_completeness auto
termination by (relation "measure (\<lambda>(opts, items, extra, av). length items)") (auto dest: consume_optional_length)

definition parse_command :: "string \<Rightarrow> string list \<Rightarrow> (arg_values \<times> bool) parsing" where
  "parse_command name argv =
     bind_parsing (classify (ap_options (command_parser name)) argv) (\<lambda>items.
       parse_options (ap_options (command_parser name)) items False default_values)"

definition command_of :: "string \<Rightarrow> arg_values \<Rightarrow> command" where
  "command_of name av =
     (if name = ''start'' then Start (av_start av)
      else if name = ''stop'' then Stop
      else if name = ''status'' then Status
      else if name = ''doctor'' then Doctor
      else if name = ''reset'' then Reset
      else if name = ''stop-vpn'' then Stop_Vpn
      else Logs (av_lines av))"

text \<open>
  The parser of \<^verbatim>\<open>coda\<close> itself: options, then a command with all that follows it. What either
  parser did not recognise is an error in the end.
\<close>

definition run_subparser :: "string \<Rightarrow> string list \<Rightarrow> bool \<Rightarrow> arg_values \<Rightarrow> namespace parsing" where
  "run_subparser name argv extra av =
     (if name \<notin> set (ap_commands root_parser) then Bad_Usage
      else bind_parsing (parse_command name argv) (\<lambda>(sub, strange).
        if extra \<or> strange then Bad_Usage
        else Parsed \<lparr>arg_reset = av_reset av, arg_command = Some (command_of name sub)\<rparr>))"

function parse_root :: "(string \<times> arg_kind) list \<Rightarrow> bool \<Rightarrow> arg_values \<Rightarrow> namespace parsing" where
  "parse_root [] extra av = (if extra then Bad_Usage else Parsed \<lparr>arg_reset = av_reset av, arg_command = None\<rparr>)"
| "parse_root ((arg, Plain) # items) extra av = run_subparser arg (map fst items) extra av"
| "parse_root ((arg, Separator) # items) extra av = Bad_Usage"
| "parse_root ((arg, Unknown) # items) extra av = parse_root items True av"
| "parse_root ((arg, Option a long sep explicit) # items) extra av =
     (case consume_optional (ap_options root_parser) a long sep explicit items of
        Parsed (acts, rest, strange) \<Rightarrow> bind_parsing (take_actions acts av) (\<lambda>av. parse_root rest (extra \<or> strange) av)
      | Shown_Help \<Rightarrow> Shown_Help
      | Bad_Usage \<Rightarrow> Bad_Usage)"
  by pat_completeness auto
termination by (relation "measure (\<lambda>(items, extra, av). length items)") (auto dest: consume_optional_length)

definition parse_args :: "string list \<Rightarrow> namespace parsing" where
  "parse_args argv =
     bind_parsing (classify (ap_options root_parser) argv) (\<lambda>items. parse_root items False default_values)"

text \<open>The entry point. \<^verbatim>\<open>argparse\<close> exits before anything is done.\<close>

definition main ::
    "nat \<Rightarrow> (environment \<Rightarrow> dict) \<Rightarrow> host \<Rightarrow> library \<Rightarrow> string \<Rightarrow> string list \<Rightarrow> int option nprog" where
  "main n env_data w lib executable argv =
     (case parse_args argv of
        Parsed args \<Rightarrow> cli_main n env_data w lib executable args
      | Shown_Help \<Rightarrow> ret (Some 0)
      | Bad_Usage \<Rightarrow> ret (Some 2))"

end
