(* ===== verification/Machine.thy ===== *)
theory Machine
  imports App_Props Args
begin

text \<open>
  The life of a machine: any sequence of commands, startups, watch loops and shutdowns of the node,
  as a transition relation on the files. The invariant is that the two files that hold secrets, the
  persisted configuration and the private key, are private whenever they exist.
\<close>

section \<open>What programs do to the files\<close>

text \<open>\<open>guards I m\<close>: whatever happens, \<open>m\<close> keeps the property \<open>I\<close> of the files.\<close>

definition guards :: "(files \<Rightarrow> bool) \<Rightarrow> ('a, 'r) hprog \<Rightarrow> bool" where
  "guards I m = (\<forall>s. I (fs s) \<longrightarrow> wp m (\<lambda>r s'. I (fs s')) s)"

named_theorems guards_intros "programs that keep a property of the files"

lemma guardsI: "(\<And>s r s'. m s = (r, s') \<Longrightarrow> I (fs s) \<Longrightarrow> I (fs s')) \<Longrightarrow> guards I m"
  by (auto simp: guards_def intro: wpI)

lemma guardsD: "guards I m \<Longrightarrow> m s = (r, s') \<Longrightarrow> I (fs s) \<Longrightarrow> I (fs s')"
  unfolding guards_def using wp_run by fastforce

lemma guards_simple [guards_intros]:
  "guards I (ret x)" "guards I (raise e)" "guards I hang" "guards I (from_sum r)" "guards I (get_p f)"
  "guards I (call reply ev)" "guards I (note_event v)" "guards I (say t)" "guards I (monotonic w)"
  "guards I (host_sleep w d)" "guards I (host_close w c)" "guards I (fs_check w op p)"
  by (auto simp: guards_def wp_rules host_sleep_def host_close_def split: sum.split option.split)

lemma guards_modify [guards_intros]: "(\<And>s. I (fs s) \<Longrightarrow> I (fs (f s))) \<Longrightarrow> guards I (modify_p f)"
  by (simp add: guards_def wp_modify_p)

lemma guards_bind [guards_intros]:
  assumes "guards I m" "\<And>x. guards I (f x)"
  shows "guards I (bind_p m f)"
proof (rule guardsI)
  fix s r s'
  assume run: "bind_p m f s = (r, s')" and I: "I (fs s)"
  obtain r1 s1 where m: "m s = (r1, s1)" by force
  show "I (fs s')"
    using run m guardsD [OF assms(1) m I] guardsD [OF assms(2)] by (cases r1) (auto simp: bind_p_def)
qed

lemma guards_then [guards_intros]: "guards I m \<Longrightarrow> guards I k \<Longrightarrow> guards I (then_p m k)"
  unfolding then_p_def by (rule guards_bind)

lemma guards_try_except [guards_intros]:
  assumes "guards I m" "\<And>e k. h e = Some k \<Longrightarrow> guards I k"
  shows "guards I (try_except m h)"
proof (rule guardsI)
  fix s r s'
  assume run: "try_except m h s = (r, s')" and I: "I (fs s)"
  obtain r1 s1 where m: "m s = (r1, s1)" by force
  show "I (fs s')"
    using run m guardsD [OF assms(1) m I] guardsD [OF assms(2)]
    by (cases r1) (auto simp: try_except_def split: option.splits)
qed

lemma guards_cases [guards_intros]:
  "(b \<Longrightarrow> guards I m) \<Longrightarrow> (\<not> b \<Longrightarrow> guards I k) \<Longrightarrow> guards I (if b then m else k)"
  "(y = None \<Longrightarrow> guards I m) \<Longrightarrow> (\<And>x. y = Some x \<Longrightarrow> guards I (f x)) \<Longrightarrow> guards I (case y of None \<Rightarrow> m | Some x \<Rightarrow> f x)"
  "(\<And>a b. p = (a, b) \<Longrightarrow> guards I (g a b)) \<Longrightarrow> guards I (case p of (a, b) \<Rightarrow> g a b)"
  "(\<And>e. v = Inl e \<Longrightarrow> guards I (h e)) \<Longrightarrow> (\<And>x. v = Inr x \<Longrightarrow> guards I (l x))
   \<Longrightarrow> guards I (case v of Inl e \<Rightarrow> h e | Inr x \<Rightarrow> l x)"
  by (auto split: option.split prod.split sum.split)

lemma guards_json [guards_intros]:
  assumes "guards I n" "\<And>x. guards I (b x)" "\<And>x. guards I (i x)" "\<And>x. guards I (f x)"
    "\<And>x. guards I (q x)" "\<And>x. guards I (t x)" "\<And>x. guards I (a x)" "\<And>x. guards I (d x)"
  shows "guards I (case v of JNull \<Rightarrow> n | JBool x \<Rightarrow> b x | JInt x \<Rightarrow> i x | JFloat x \<Rightarrow> f x
    | JSpecial x \<Rightarrow> q x | JStr x \<Rightarrow> t x | JArr x \<Rightarrow> a x | JObj x \<Rightarrow> d x)"
  using assms by (cases v) auto

lemma guards_for [guards_intros]: "(\<And>x. guards I (f x)) \<Longrightarrow> guards I (for_p xs f)"
  by (induction xs) (auto intro: guards_intros)

lemma guards_queries [guards_intros]:
  "guards I (path_exists w p)" "guards I (stat_mode w p)" "guards I (read_text w p)" "guards I (make_parent w p)"
  unfolding path_exists_def stat_mode_def read_text_def make_parent_def by (intro guards_intros)+

lemma guards_assign [guards_intros]: "guards I (assign lib upd)"
  by (auto simp: guards_def assign_def wp_def bind_p_def from_sum_def modify_p_def ret_def raise_def split: sum.split)


section \<open>Private files\<close>

definition secrets :: "host \<Rightarrow> string set" where
  "secrets w = {PERSISTED_CONFIG_PATH w, PERSISTED_PRIVATE_KEY_PATH w}"

definition sealed :: "host \<Rightarrow> files \<Rightarrow> bool" where
  "sealed w m = (\<forall>p \<in> secrets w. \<forall>f. m p = Some f \<longrightarrow> file_mode f mod 4096 = 384)"

text \<open>
  A POSIX machine on which the node may change the permissions of its secrets (it owns them) and
  no subprocess touches them. Every other file operation may be refused at any time.
\<close>

definition tidy :: "host \<Rightarrow> bool" where
  "tidy w = (h_os_name w \<noteq> ''nt'' \<and> (\<forall>h. \<forall>p \<in> secrets w. h_fs_error w h Fs_Chmod p = None)
     \<and> (\<forall>h m args. \<forall>p \<in> secrets w. snd (h_run w h m args) p = m p)
     \<and> (\<forall>h m args env. \<forall>p \<in> secrets w. snd (h_popen w h m args env) p = m p))"

text \<open>Properties of the secrets alone; other files, and programs that leave the secrets alone, keep them.\<close>

definition about_secrets :: "host \<Rightarrow> (files \<Rightarrow> bool) \<Rightarrow> bool" where
  "about_secrets w I = (\<forall>m m'. (\<forall>p \<in> secrets w. m' p = m p) \<longrightarrow> I m \<longrightarrow> I m')"

lemma about_secretsD: "about_secrets w I \<Longrightarrow> I m \<Longrightarrow> (\<And>p. p \<in> secrets w \<Longrightarrow> m' p = m p) \<Longrightarrow> I m'"
  by (auto simp: about_secrets_def)

lemma sealed_about [guards_intros]: "about_secrets w (sealed w)"
  by (simp add: about_secrets_def sealed_def)

lemma same_about [guards_intros]: "about_secrets w (\<lambda>m. \<forall>p \<in> secrets w. m p = m0 p)"
  by (simp add: about_secrets_def)

lemma private_remove: "sealed w m \<Longrightarrow> sealed w (m(p := None))"
  by (auto simp: sealed_def)

lemma private_store: "sealed w m \<Longrightarrow> p \<notin> secrets w \<or> file_mode f mod 4096 = 384 \<Longrightarrow> sealed w (m(p \<mapsto> f))"
  by (auto simp: sealed_def)

lemma about_update: "about_secrets w I \<Longrightarrow> I m \<Longrightarrow> p \<notin> secrets w \<Longrightarrow> I (m(p := v))"
  by (erule about_secretsD [where m = m]) auto

lemma run_private [guards_intros]: "tidy w \<Longrightarrow> about_secrets w I \<Longrightarrow> guards I (run_process w args)"
  by (auto simp: guards_def wp_run_process tidy_def split: prod.split elim!: about_secretsD) (metis snd_conv)

lemma popen_private [guards_intros]: "tidy w \<Longrightarrow> about_secrets w I \<Longrightarrow> guards I (popen w args env)"
  by (auto simp: guards_def wp_popen tidy_def split: prod.split elim!: about_secretsD) (metis snd_conv)

lemma unlink_private:
  "guards (sealed w) (unlink w p)" "guards (sealed w) (unlink_existing w p)"
  unfolding unlink_def unlink_existing_def by (auto intro!: guards_intros intro: private_remove)

lemma unlink_other [guards_intros]:
  "about_secrets w I \<Longrightarrow> p \<notin> secrets w \<Longrightarrow> guards I (unlink w p)"
  "about_secrets w I \<Longrightarrow> p \<notin> secrets w \<Longrightarrow> guards I (unlink_existing w p)"
  unfolding unlink_def unlink_existing_def by (auto intro!: guards_intros intro: about_update)

text \<open>Writing a secret is one unit: on a tidy machine its permissions are restricted at once.\<close>

lemma write_secure_private [guards_intros]: "tidy w \<Longrightarrow> guards (sealed w) (write_secure_text w p t)"
  by (cases "p \<in> secrets w")
     (auto simp: guards_def write_secure_text_def make_parent_def write_text_def chmod_def wp_rules tidy_def
       private_store split: option.split)

text \<open>The other files are none of the secrets.\<close>

lemma other_paths [simp]:
  "DAEMON_PID_PATH w \<notin> secrets w" "DAEMON_LOG_PATH w \<notin> secrets w" "OPENVPN_PID_PATH w \<notin> secrets w"
  "OPENVPN_LOG_PATH w \<notin> secrets w"
  by (simp_all add: secrets_def DAEMON_PID_PATH_def DAEMON_LOG_PATH_def OPENVPN_PID_PATH_def OPENVPN_LOG_PATH_def
      PERSISTED_CONFIG_PATH_def PERSISTED_PRIVATE_KEY_PATH_def)

lemma write_other_private [guards_intros]:
  "about_secrets w I \<Longrightarrow> p \<notin> secrets w \<Longrightarrow> guards I (write_text w p t)"
  "about_secrets w I \<Longrightarrow> p \<notin> secrets w \<Longrightarrow> guards I (chmod w p m)"
  "about_secrets w I \<Longrightarrow> p \<notin> secrets w \<Longrightarrow> guards I (open_append w p)"
  unfolding write_text_def chmod_def open_append_def
  by (auto intro!: guards_intros intro: about_update)


section \<open>Every program of the node\<close>

lemma settings_private [guards_intros]: "guards I (load_settings env_data w lib)"
proof -
  have secure: "guards I (read_secure_text w p)" for p
    unfolding read_secure_text_def by (intro guards_intros)
  have "guards I (load_persisted_runtime_config w (l_str lib))"
    unfolding load_persisted_runtime_config_def read_persisted_def by (intro guards_intros secure)
  then show ?thesis
    unfolding load_settings_def make_settings_def merge_persisted_runtime_config_def
      apply_default_device_config_def apply_device_config_executor_factory_def
      load_executor_factory_from_device_config_def
    by (auto intro!: guards_intros split: if_splits)
qed

lemma detect_private [guards_intros]: "tidy w \<Longrightarrow> about_secrets w I \<Longrightarrow> guards I (detect_tun_interface w hint)"
  unfolding detect_tun_interface_def detect_any_def detect_hinted_def no_tool_def
  by (auto intro!: guards_intros split: if_splits option.split)

lemma kill_openvpn_private [guards_intros]: "tidy w \<Longrightarrow> about_secrets w I \<Longrightarrow> guards I (kill_openvpn_daemon w)"
  unfolding kill_openvpn_daemon_def signal_daemon_def
  by (auto intro!: guards_intros split: if_splits)

lemma poll_tunnel_private [guards_intros]: "tidy w \<Longrightarrow> about_secrets w I \<Longrightarrow> guards I (poll_tunnel n w hint deadline)"
  by (induction n) (auto intro!: guards_intros simp: read_openvpn_log_tail_def Let_def split: if_splits)

lemma start_tunnel_private [guards_intros]: "tidy w \<Longrightarrow> about_secrets w I \<Longrightarrow> guards I (start_tunnel n w st)"
  unfolding start_tunnel_def start_openvpn_def wait_for_tunnel_def
  by (auto intro!: guards_intros other_paths split: option.split)

lemma install_bundle_private [guards_intros]: "tidy w \<Longrightarrow> guards (sealed w) (install_bundle n w lib b)"
  unfolding install_bundle_def apply_node_bundle_def apply_credential_def persist_runtime_config_def apply_identity_def
    apply_endpoints_def apply_path_def apply_vpn_def apply_vpn_settings_def write_vpn_profile_def
  by (intro guards_intros; simp)

lemma connect_loop_private [guards_intros]: "guards I (connect_loop w lib auth payload k attempt n le)"
proof (induction n arbitrary: attempt le)
  case (Suc n)
  have "guards I (connect_attempt w auth payload attempt n)"
    unfolding connect_attempt_def connect_once_def connect_handler_def Let_def
    by (auto intro!: guards_intros split: exn.splits if_splits sum.split)
  with Suc show ?case by (auto intro!: guards_intros)
qed (simp add: connect_give_up_def guards_intros)

lemma fetch_bundle_private [guards_intros]: "tidy w \<Longrightarrow> guards (sealed w) (fetch_bundle n w lib connectivity)"
  unfolding fetch_bundle_def fetch_node_bundle_def fetch_reconnect_bundle_def ensure_persisted_vpn_def
    resolve_machine_fingerprint_def post_connect_def sign_connect_def Let_def
  by (auto intro!: guards_intros)

lemma connect_settings_private [guards_intros]: "tidy w \<Longrightarrow> guards (sealed w) (connect_settings n w lib)"
  unfolding connect_settings_def connectivity_payload_for_connect_def resolve_machine_fingerprint_def
    install_failed_def Let_def
  by (auto intro!: guards_intros split: if_splits)

lemma dns_failures_private [guards_intros]: "guards I (dns_failures w ts)"
  by (induction ts) (auto intro!: guards_intros simp: resolve_host_def split: option.split if_splits)

lemma probe_all_private [guards_intros]: "guards I (probe_all w hs ts)"
  by (induction ts) (auto intro!: guards_intros simp: probe_target_def latency_since_def split: if_splits)

lemma preflight_private [guards_intros]: "tidy w \<Longrightarrow> guards (sealed w) (preflight w)"
  unfolding preflight_def preflight_dns_def preflight_probes_def unavailable_def set_state_def Let_def
  by (auto intro!: guards_intros)

lemma with_guard_private [guards_intros]:
  assumes "guards I m"
  shows "guards I (with_guard g m)"
  by (rule guardsI) (auto simp: with_guard_def split: prod.splits dest: guardsD [OF assms])

lemma start_private: "tidy w \<Longrightarrow> guards (sealed w) (lifespan_start n w lib py from_url device batches view executor env_data)"
  unfolding lifespan_start_def lifespan_prepare_def start_tasks_def by (intro guards_intros)

lemma watch_private: "tidy w \<Longrightarrow> guards (sealed w) (watch n w on_change)"
proof -
  assume tidy: "tidy w"
  have "guards (sealed w) (watch_while n w on_change)" for n
    by (induction n)
       (auto intro!: guards_intros tidy simp: stop_noticed_def stop_watch_def watch_tick_def watch_react_def notify_def set_state_def)
  then show ?thesis unfolding watch_def by (intro guards_intros) simp_all
qed

lemma stop_private: "tidy w \<Longrightarrow> guards (sealed w) (lifespan_stop w st)"
  unfolding lifespan_stop_def app_guard_stop_def app_heartbeat_close_def app_drain_def end_task_def await_cancelled_def
    cancel_task_def
  by (auto intro!: guards_intros split: if_splits)


section \<open>The commands\<close>

lemma daemon_pid_private [guards_intros]: "guards I (read_daemon_pid w)" "guards I (process_exists w pid)"
  unfolding read_daemon_pid_def process_exists_def os_kill_def
  by (auto intro!: guards_intros split: if_splits)

lemma running_private [guards_intros]: "guards I (is_daemon_running w)" "guards I (daemon_status w)"
  unfolding is_daemon_running_def daemon_status_def by (intro guards_intros)+

lemma start_daemon_private [guards_intros]: "tidy w \<Longrightarrow> about_secrets w I \<Longrightarrow> guards I (start_daemon w exe a b token)"
  unfolding start_daemon_def spawn_daemon_def by (intro guards_intros other_paths; simp)

lemma stop_daemon_private [guards_intros]:
  assumes "tidy w" "about_secrets w I"
  shows "guards I (stop_daemon n w timeout)"
proof -
  have "guards I (await_exit n w pid deadline)" for pid deadline
    by (induction n) (auto intro!: guards_intros simp: os_kill_def)
  then show ?thesis
    unfolding stop_daemon_def terminate_def os_kill_def
    by (auto intro!: guards_intros assms split: if_splits)
qed

lemma banner_private [guards_intros]: "guards I (print_banner title rows)" "guards I (print_status label v)"
  unfolding print_banner_def print_status_def by (intro guards_intros)+

lemma reset_private [guards_intros]: "tidy w \<Longrightarrow> guards (sealed w) (reset n w)"
proof -
  have files: "guards (sealed w) (reset_files w b ps)" for b ps
    by (induction ps arbitrary: b) (auto intro!: guards_intros unlink_private simp: reset_path_def)
  have "guards (sealed w) (read_reset_paths w)"
    unfolding read_reset_paths_def by (auto intro!: guards_intros split: if_splits)
  then show "tidy w \<Longrightarrow> ?thesis"
    unfolding reset_def by (intro guards_intros files; simp)
qed

lemma overrides_private [guards_intros]: "guards I (apply_overrides args)"
  unfolding apply_overrides_def set_nonempty_def set_variable_def by (intro guards_intros; simp)

lemma run_start_private [guards_intros]: "tidy w \<Longrightarrow> about_secrets w I \<Longrightarrow> guards I (run_start env_data w lib exe args)"
  unfolding run_start_def run_daemon_def start_banner_def report_started_def uvicorn_run_def
  by (auto intro!: guards_intros split: if_splits)

lemma run_status_private [guards_intros]: "tidy w \<Longrightarrow> about_secrets w I \<Longrightarrow> guards I (run_status env_data w lib)"
  unfolding run_status_def status_interface_def by (auto intro!: guards_intros split: if_splits)

lemma run_logs_private [guards_intros]: "guards I (run_logs w lines)"
  unfolding run_logs_def tail_daemon_log_def by (auto intro!: guards_intros split: if_splits)

lemma doctor_private [guards_intros]: "tidy w \<Longrightarrow> about_secrets w I \<Longrightarrow> guards I (doctor env_data w lib)"
  unfolding doctor_def by (intro guards_intros; simp)

lemma stop_commands_private [guards_intros]:
  "tidy w \<Longrightarrow> about_secrets w I \<Longrightarrow> guards I (run_stop n w)" "tidy w \<Longrightarrow> about_secrets w I \<Longrightarrow> guards I (run_stop_vpn w)"
  unfolding run_stop_def run_stop_vpn_def by (intro guards_intros; simp)+

lemma command_private: "tidy w \<Longrightarrow> guards (sealed w) (main n env_data w lib exe argv)"
  unfolding main_def cli_main_def
  by (cases "parse_args argv") (auto intro!: guards_intros split: option.split command.split)

lemma command_keeps:
  "tidy w \<Longrightarrow> about_secrets w I \<Longrightarrow> \<not> arg_reset args \<Longrightarrow> arg_command args \<noteq> Some Reset
   \<Longrightarrow> guards I (cli_main n env_data w lib exe args)"
  unfolding cli_main_def by (auto intro!: guards_intros split: option.split command.split)


section \<open>The life of a machine\<close>

text \<open>
  One run of a program of the node, of any kind, from any state with the files \<open>m\<close>: a command of
  the shell, the startup of the server, its watch loop and its shutdown. The other loops of the
  server do not touch the files.
\<close>

inductive disk_step :: "host \<Rightarrow> ('m, 'o) python \<Rightarrow> files \<Rightarrow> files \<Rightarrow> bool" for w py where
  command: "main n env_data w lib exe argv s = (r, s') \<Longrightarrow> disk_step w py (fs s) (fs s')"
| startup: "lifespan_start n w lib py from_url device batches view executor env_data s = (r, s')
    \<Longrightarrow> disk_step w py (fs s) (fs s')"
| watching: "watch n w on_change s = (r, s') \<Longrightarrow> disk_step w py (fs s) (fs s')"
| shutdown: "(lifespan_stop w st :: ('o, unit) aprog) s = (r, s') \<Longrightarrow> disk_step w py (fs s) (fs s')"

lemma disk_step_sealed: "disk_step w py m m' \<Longrightarrow> tidy w \<Longrightarrow> sealed w m \<Longrightarrow> sealed w m'"
  by (induction rule: disk_step.induct)
     (blast dest: guardsD [OF command_private] guardsD [OF start_private] guardsD [OF watch_private]
       guardsD [OF stop_private])+

lemma life_sealed: "(disk_step w py)\<^sup>*\<^sup>* m m' \<Longrightarrow> tidy w \<Longrightarrow> sealed w m \<Longrightarrow> sealed w m'"
  by (induction rule: rtranclp_induct) (auto dest: disk_step_sealed)

lemma sealed_accepted:
  assumes "readable w" "sealed w (fs s)" "p \<in> secrets w"
  shows "fst (read_secure_text w p s) \<noteq> Raise (bad_permissions p)"
proof -
  have "wp (read_secure_text w p) (\<lambda>r s'. r \<noteq> Raise (bad_permissions p)) s"
    using assms
    by (auto simp: read_secure_text_def path_exists_def stat_mode_def read_text_def readable_def sealed_def wp_rules
        bytes_decode_def bad_permissions_def missing_file_def split: option.split sum.split)
  then show ?thesis by (simp add: wp_def split: prod.splits)
qed

text \<open>
  C14: the secrets stay private for the whole life of a machine. Whatever commands, startups, watch
  loops and shutdowns are run, in any order and with any outcome, the persisted configuration and
  the private key are never left with other permissions than 0600, and so the node never refuses
  its own files for their permissions. The machine lets the node change the permissions of its
  files, and the programs it runs leave them alone.
\<close>

theorem secrets_stay_private:
  assumes "tidy w" "sealed w m" "(disk_step w py)\<^sup>*\<^sup>* m m'"
  shows "sealed w m'
    \<and> (readable w \<longrightarrow> (\<forall>p \<in> secrets w. \<forall>s. fs s = m' \<longrightarrow> fst (read_secure_text w p s) \<noteq> Raise (bad_permissions p)))"
  using life_sealed [OF assms(3,1,2)] sealed_accepted by metis

text \<open>A machine on which nothing was configured, after a first start with a token and a reset.\<close>

theorem secrets_stay_private_witness:
  "\<exists>m f m'. disk_step cloud_host demo_python (\<lambda>_. None) m \<and> m (PERSISTED_PRIVATE_KEY_PATH cloud_host) = Some f
     \<and> file_mode f mod 4096 = 384 \<and> disk_step cloud_host demo_python m m' \<and> sealed cloud_host m'"
proof -
  have tidy: "tidy cloud_host" by (simp add: tidy_def cloud_host_def quiet_host_def)
  have start: "sealed cloud_host (\<lambda>_. None)" by (simp add: sealed_def)
  obtain ps s' where s': "demo_start empty_node = (Ret ps, s')" "on_disk cloud_host s'"
    using demo_started by blast
  have "disk_step cloud_host demo_python (fs empty_node) (fs s')"
    using s'(1) unfolding demo_start_def by (rule disk_step.startup)
  then have up: "disk_step cloud_host demo_python (\<lambda>_. None) (fs s')" by (simp add: empty_node_def fresh_node_def)
  obtain r s'' where "main 0 (\<lambda>_. []) cloud_host demo_library [] [''reset''] s' = (r, s'')" by force
  then have reset: "disk_step cloud_host demo_python (fs s') (fs s'')" by (rule disk_step.command)
  have "sealed cloud_host (fs s')" "sealed cloud_host (fs s'')"
    using secrets_stay_private [OF tidy start, of demo_python] up reset by (blast intro: rtranclp_trans r_into_rtranclp)+
  moreover obtain f where f: "fs s' (PERSISTED_PRIVATE_KEY_PATH cloud_host) = Some f"
    using s'(2) by (auto simp: on_disk_def stored_def)
  moreover have "file_mode f mod 4096 = 384"
    using calculation f by (auto simp: sealed_def secrets_def)
  ultimately show ?thesis using up reset by blast
qed

end
