(* ===== verification/Args_Props.thy ===== *)
theory Args_Props
  imports Machine Cli_Props
begin

text \<open>
  The command line: every command with every choice of options can be written so that it is read
  back, and what is read was asked for.
\<close>

section \<open>Writing a command line\<close>

fun command_name :: "command \<Rightarrow> string" where
  "command_name (Start a) = ''start''"
| "command_name Stop = ''stop''"
| "command_name Status = ''status''"
| "command_name Doctor = ''doctor''"
| "command_name Reset = ''reset''"
| "command_name Stop_Vpn = ''stop-vpn''"
| "command_name (Logs k) = ''logs''"

definition value_option :: "string \<Rightarrow> string option \<Rightarrow> string list" where
  "value_option name v = (case v of None \<Rightarrow> [] | Some t \<Rightarrow> [name @ ''='' @ t])"

fun command_options :: "command \<Rightarrow> string list" where
  "command_options (Start a) =
     value_option ''--host'' (arg_host a) @ value_option ''--port'' (map_option show_int (arg_port a))
     @ value_option ''--token'' (arg_node_token a) @ (if arg_daemon a then [''--daemon''] else [])"
| "command_options (Logs k) = value_option ''--lines'' (Some (show_int k))"
| "command_options _ = []"

definition command_line :: "namespace \<Rightarrow> string list" where
  "command_line ns =
     (if arg_reset ns then [''--reset''] else [])
     @ (case arg_command ns of None \<Rightarrow> [] | Some c \<Rightarrow> command_name c # command_options c)"


section \<open>Reading it back\<close>

lemma classify_total:
  assumes "\<And>a. a \<in> set argv \<Longrightarrow> \<exists>k. parse_optional opts a = Parsed k"
  shows "\<exists>items. classify opts argv = Parsed items \<and> map fst items = argv"
  using assms
proof (induction argv)
  case (Cons a argv)
  then obtain k items where "parse_optional opts a = Parsed k" "classify opts argv = Parsed items" "map fst items = argv"
    by (metis list.set_intros)
  then show ?case by (cases "a = ''--''") (auto simp: comp_def)
qed simp

lemmas option_tables = root_parser_def command_parser_def

lemma written_option:
  "parse_optional (ap_options (command_parser ''start'')) (''--host'' @ ''='' @ v) = Parsed (Option Host_Value True True (Some v))"
  "parse_optional (ap_options (command_parser ''start'')) (''--port'' @ ''='' @ v) = Parsed (Option Port_Value True True (Some v))"
  "parse_optional (ap_options (command_parser ''start'')) (''--token'' @ ''='' @ v) = Parsed (Option Token_Value True True (Some v))"
  "parse_optional (ap_options (command_parser ''start'')) ''--daemon'' = Parsed (Option Daemon_Flag True False None)"
  "parse_optional (ap_options (command_parser ''logs'')) (''--lines'' @ ''='' @ v) = Parsed (Option Lines_Value True True (Some v))"
  by (simp_all add: parse_optional_def option_tables is_long_def)

lemma foreign_option:
  "\<exists>k. parse_optional (ap_options root_parser) (''--host'' @ ''='' @ v) = Parsed k"
  "\<exists>k. parse_optional (ap_options root_parser) (''--port'' @ ''='' @ v) = Parsed k"
  "\<exists>k. parse_optional (ap_options root_parser) (''--token'' @ ''='' @ v) = Parsed k"
  "\<exists>k. parse_optional (ap_options root_parser) (''--lines'' @ ''='' @ v) = Parsed k"
  "\<exists>k. parse_optional (ap_options root_parser) ''--daemon'' = Parsed k"
  by (simp_all add: parse_optional_def option_tables is_long_def option_tuples_def map_filter_simps startswith_def)

lemma command_words:
  "parse_optional (ap_options root_parser) (command_name c) = Parsed Plain"
  "command_name c \<in> set (ap_commands root_parser)" "command_name c \<noteq> ''--''"
  by (cases c; simp add: parse_optional_def option_tables)+

lemma options_classified: "\<exists>items. classify (ap_options root_parser) (command_options c) = Parsed items
    \<and> map fst items = command_options c"
  by (rule classify_total, cases c)
     (auto simp: value_option_def simp del: append.simps intro: foreign_option split: option.splits if_splits)

text \<open>The parser of the command finds the options that were written.\<close>

fun chosen_values :: "command \<Rightarrow> arg_values" where
  "chosen_values (Start a) = default_values\<lparr>av_start := a\<rparr>"
| "chosen_values (Logs k) = default_values\<lparr>av_lines := k\<rparr>"
| "chosen_values _ = default_values"

lemma command_parsed: "parse_command (command_name c) (command_options c) = Parsed (chosen_values c, False)"
proof (cases c)
  case (Start a)
  obtain h p t d where a: "a = \<lparr>arg_host = h, arg_port = p, arg_node_token = t, arg_daemon = d\<rparr>" by (cases a)
  have "classify (ap_options (command_parser ''start'')) (command_options c) = Parsed
      ((case h of None \<Rightarrow> [] | Some v \<Rightarrow> [(''--host'' @ ''='' @ v, Option Host_Value True True (Some v))])
       @ (case p of None \<Rightarrow> [] | Some i \<Rightarrow> [(''--port'' @ ''='' @ show_int i, Option Port_Value True True (Some (show_int i)))])
       @ (case t of None \<Rightarrow> [] | Some v \<Rightarrow> [(''--token'' @ ''='' @ v, Option Token_Value True True (Some v))])
       @ (if d then [(''--daemon'', Option Daemon_Flag True False None)] else []))"
    using written_option by (simp add: Start a value_option_def split: option.split)
  then show ?thesis
    by (auto simp: Start a parse_command_def consume_optional_def consume_next_def set_start_def default_values_def
        split: option.splits)
next
  case (Logs k)
  then show ?thesis using written_option(5) [of "show_int k"]
    by (simp add: parse_command_def value_option_def consume_optional_def default_values_def)
qed (simp_all add: parse_command_def)

lemma command_of_chosen: "command_of (command_name c) (chosen_values c) = c"
  by (cases c) (simp_all add: command_of_def default_values_def)

lemma reset_option:
  "parse_optional (ap_options root_parser) ''--reset'' = Parsed (Option Reset_Flag True False None)"
  by (simp add: parse_optional_def option_tables is_long_def)

text \<open>
  C23: the command line is complete and unambiguous. Every combination of a command, its options and
  \<^verbatim>\<open>--reset\<close> can be written, with any values (empty, with blanks, starting with a dash), and is read back
  exactly.
\<close>

theorem command_line_round_trip: "parse_args (command_line ns) = Parsed ns"
proof -
  obtain b oc where ns: "ns = \<lparr>arg_reset = b, arg_command = oc\<rparr>" by (cases ns)
  define rest where "rest = (case oc of None \<Rightarrow> [] | Some c \<Rightarrow> command_name c # command_options c)"
  have "\<exists>items. classify (ap_options root_parser) rest = Parsed items
      \<and> (\<forall>av. parse_root items False av = Parsed \<lparr>arg_reset = av_reset av, arg_command = oc\<rparr>)"
  proof (cases oc)
    case (Some c)
    then show ?thesis
      using options_classified [of c] command_words [of c] command_parsed [of c]
      by (auto simp: rest_def run_subparser_def command_of_chosen)
  qed (simp add: rest_def)
  then obtain items where items: "classify (ap_options root_parser) rest = Parsed items"
    "\<And>av. parse_root items False av = Parsed \<lparr>arg_reset = av_reset av, arg_command = oc\<rparr>" by blast
  then show ?thesis
    by (cases b) (simp_all add: parse_args_def ns command_line_def rest_def [symmetric] reset_option
        consume_optional_def consume_next_def default_values_def)
qed


section \<open>Only what was asked for\<close>

lemma partition_on_none: "partition_on d s = (a, False, r) \<Longrightarrow> a = s"
  by (induction s arbitrary: a r) (auto split: if_splits prod.splits)

text \<open>The ways to write \<^verbatim>\<open>--reset\<close>: an abbreviation has at least one letter.\<close>

definition says_reset :: "string \<Rightarrow> bool" where
  "says_reset a = (3 \<le> length a \<and> a = take (length a) ''--reset'')"

lemma short_reading:
  "d \<noteq> CHR ''-'' \<Longrightarrow> Option Reset_Flag long sep explicit \<notin> set (option_tuples (ap_options root_parser) (CHR ''-'' # d # ds))"
  by (auto simp: option_tuples_def option_tables is_long_def map_filter_simps startswith_def)

lemma long_reading:
  assumes "option_tuples (ap_options root_parser) (CHR ''-'' # CHR ''-'' # ds) = [Option Reset_Flag long sep explicit]"
  shows "long \<and> (explicit = None \<longrightarrow> says_reset (CHR ''-'' # CHR ''-'' # ds))"
  using assms
  by (cases ds)
     (auto simp: option_tuples_def option_tables is_long_def map_filter_simps startswith_def says_reset_def
       split: if_splits prod.splits dest!: partition_on_none)

lemma reset_reading:
  assumes "parse_optional (ap_options root_parser) arg = Parsed (Option Reset_Flag long sep explicit)"
  shows "long \<and> (explicit = None \<longrightarrow> says_reset arg)"
proof (cases "arg = ''--reset''")
  case True
  then show ?thesis using assms reset_option by (auto simp: says_reset_def)
next
  case False
  have named: "map_of (ap_options root_parser) name = Some Reset_Flag \<longleftrightarrow> name = ''--reset''" for name
    by (auto simp: option_tables)
  consider (short) d ds where "arg = CHR ''-'' # d # ds" "d \<noteq> CHR ''-''" | (long) ds where "arg = CHR ''-'' # CHR ''-'' # ds"
    | (other) "arg = [] \<or> hd arg \<noteq> CHR ''-'' \<or> length arg = 1"
    by (cases arg rule: remdups_adj.cases) auto
  then show ?thesis
  proof cases
    case short
    then show ?thesis using assms False short_reading [of d long sep explicit ds] named
      by (auto simp: parse_optional_def is_long_def split: if_splits prod.splits option.splits list.splits)
  next
    case long
    then show ?thesis using assms False long_reading [of ds long sep explicit] named
      by (auto simp: parse_optional_def is_long_def split: if_splits prod.splits option.splits list.splits)
  qed (use assms False named in \<open>auto simp: parse_optional_def split: if_splits option.splits\<close>)
qed

lemma take_action_reset: "take_action a v av = Parsed av' \<Longrightarrow> av_reset av' \<longleftrightarrow> av_reset av \<or> a = Reset_Flag"
  by (cases a) (auto simp: set_start_def split: option.splits)

lemma take_actions_reset:
  "take_actions acts av = Parsed av' \<Longrightarrow> av_reset av' \<longleftrightarrow> av_reset av \<or> Reset_Flag \<in> fst ` set acts"
  by (induction acts av rule: take_actions.induct) (auto dest: take_action_reset)

lemma consume_next_facts:
  "consume_next a items = Parsed (acts, rest, st) \<Longrightarrow> fst ` set acts = {a} \<and> set rest \<subseteq> set items"
  by (auto simp: consume_next_def split: if_splits list.splits prod.splits arg_kind.splits)

lemma consume_short_facts:
  "\<forall>c. map_of opts [CHR ''-'', c] \<noteq> Some Reset_Flag \<Longrightarrow> consume_short opts a sep explicit items = Parsed (acts, rest, st)
    \<Longrightarrow> (Reset_Flag \<in> fst ` set acts \<longrightarrow> a = Reset_Flag) \<and> set rest \<subseteq> set items"
proof (induction opts a sep explicit items arbitrary: acts rest st rule: consume_short.induct)
  case (2 opts a sep c explicit items)
  show ?case
  proof (cases "takes_value a \<or> sep \<or> c = CHR ''-'' \<or> map_of opts [CHR ''-'', c] = None")
    case True
    then show ?thesis using 2(4) by (auto simp: consume_short_Cons [of opts a] split: if_split_asm)
  next
    case False
    then obtain a' where a': "map_of opts [CHR ''-'', c] = Some a'" "\<not> takes_value a" "\<not> (sep \<or> c = CHR ''-'')" by auto
    define inner where "inner = (case explicit of [] \<Rightarrow> consume_next a' items
      | d # ds \<Rightarrow> if d = CHR ''='' then consume_short opts a' True ds items else consume_short opts a' False (d # ds) items)"
    have "more_actions a inner = Parsed (acts, rest, st)"
      using 2(4) a' by (simp add: consume_short_Cons [of opts a] inner_def)
    then obtain acts' where acts: "acts = (a, []) # acts'" "inner = Parsed (acts', rest, st)"
      by (auto simp: more_actions_def)
    have "(Reset_Flag \<in> fst ` set acts' \<longrightarrow> a' = Reset_Flag) \<and> set rest \<subseteq> set items"
    proof (cases explicit)
      case Nil
      then show ?thesis using acts(2) consume_next_facts [of a' items acts' rest st] by (auto simp: inner_def)
    next
      case (Cons d ds)
      show ?thesis
        using acts(2) 2(1) [OF a'(2,3,1) Cons _ 2(3), of acts' rest st] 2(2) [OF a'(2,3,1) Cons _ 2(3), of acts' rest st]
        by (cases "d = CHR ''=''") (simp_all add: inner_def Cons)
    qed
    then show ?thesis using acts(1) a'(1) 2(3) by auto
  qed
qed (auto split: if_splits)

lemma consume_root_facts:
  assumes "consume_optional (ap_options root_parser) a long sep explicit items = Parsed (acts, rest, st)"
  shows "(Reset_Flag \<in> fst ` set acts \<longrightarrow> a = Reset_Flag \<and> (long \<longrightarrow> explicit = None)) \<and> set rest \<subseteq> set items"
proof (cases explicit)
  case None
  then show ?thesis using assms consume_next_facts [of a items acts rest st] by (auto simp: consume_optional_def)
next
  case (Some v)
  have "\<forall>c. map_of (ap_options root_parser) [CHR ''-'', c] \<noteq> Some Reset_Flag"
    by (auto simp: option_tables split: if_splits)
  from consume_short_facts [OF this, of a sep v items acts rest st] show ?thesis using assms Some
    by (cases long; cases a) (auto simp: consume_optional_def split: if_splits)
qed

text \<open>Items as \<open>classify\<close> makes them.\<close>

definition classified :: "(string \<times> arg_kind) list \<Rightarrow> bool" where
  "classified items = (\<forall>(arg, k) \<in> set items.
     case k of Option _ _ _ _ \<Rightarrow> parse_optional (ap_options root_parser) arg = Parsed k | _ \<Rightarrow> True)"

lemma classify_classified:
  "classify (ap_options root_parser) argv = Parsed items \<Longrightarrow> classified items \<and> map fst items = argv"
proof (induction argv arbitrary: items)
  case (Cons a argv)
  show ?case
  proof (cases "a = ''--''")
    case True
    then show ?thesis using Cons(2) by (auto simp: classified_def comp_def)
  next
    case False
    then show ?thesis using Cons by (fastforce simp: classified_def split: arg_kind.splits)
  qed
qed (simp add: classified_def)

lemma command_name_of: "name \<in> set (ap_commands root_parser) \<Longrightarrow> command_name (command_of name av) = name"
  by (auto simp: option_tables command_of_def)

lemma parse_root_asked:
  assumes "parse_root items extra av = Parsed ns" "classified items"
  shows "(arg_reset ns \<longrightarrow> av_reset av \<or> (\<exists>a \<in> fst ` set items. says_reset a))
    \<and> (\<forall>c. arg_command ns = Some c \<longrightarrow> command_name c \<in> fst ` set items)"
  using assms
proof (induction items extra av rule: parse_root.induct)
  case (2 arg items extra av)
  then show ?case by (auto simp: run_subparser_def command_name_of split: if_splits)
next
  case (4 arg items extra av)
  then have "classified items" by (simp add: classified_def)
  with 4 show ?case by auto
next
  case (5 arg a long sep explicit items extra av)
  then obtain acts rest st av' where run:
      "consume_optional (ap_options root_parser) a long sep explicit items = Parsed (acts, rest, st)"
      "take_actions acts av = Parsed av'" "parse_root rest (extra \<or> st) av' = Parsed ns"
    by (auto split: parsing.splits)
  have reading: "parse_optional (ap_options root_parser) arg = Parsed (Option a long sep explicit)"
    using 5(3) by (simp add: classified_def)
  have "classified rest" using 5(3) consume_root_facts [OF run(1)] by (auto simp: classified_def)
  then have ih: "(arg_reset ns \<longrightarrow> av_reset av' \<or> (\<exists>a \<in> fst ` set rest. says_reset a))
    \<and> (\<forall>c. arg_command ns = Some c \<longrightarrow> command_name c \<in> fst ` set rest)"
    using 5(1) [OF run(1) refl refl run(2)] run(3) by simp
  have "av_reset av' \<Longrightarrow> av_reset av \<or> says_reset arg"
    using take_actions_reset [OF run(2)] consume_root_facts [OF run(1)] reset_reading [of arg long sep explicit] reading
    by auto
  moreover have "fst ` set rest \<subseteq> fst ` set items" using consume_root_facts [OF run(1)] by (simp add: image_mono)
  ultimately show ?case using ih unfolding list.set image_insert fst_conv by blast
qed (auto split: if_splits)

lemma parse_args_asked:
  assumes "parse_args argv = Parsed ns"
  shows "(arg_reset ns \<longrightarrow> (\<exists>a \<in> set argv. says_reset a))
    \<and> (\<forall>c. arg_command ns = Some c \<longrightarrow> command_name c \<in> set argv)"
proof -
  obtain items where items: "classify (ap_options root_parser) argv = Parsed items"
    "parse_root items False default_values = Parsed ns"
    using assms by (auto simp: parse_args_def)
  have "\<not> av_reset default_values" by (simp add: default_values_def)
  then show ?thesis
    using parse_root_asked [OF items(2)] classify_classified [OF items(1)] by (metis set_map)
qed



end
