(* ===== verification/Spec2Isabelle.thy ===== *)
theory Spec2Isabelle
  imports Loop_Props Config_Props Qasm_Props App_Props Cli_Props Args_Props
begin

text \<open>
  \<^bold>\<open>coda-node: a verification development\<close>

  The program (\<^verbatim>\<open>src/coda_node\<close>) is the runtime of a quantum processor node. It registers with the
  cloud, keeps a VPN tunnel up, reads jobs from a Redis stream, runs them on an executor of the
  operator, and reports every result through an authenticated webhook; heartbeats tell the cloud
  that the node is alive, and a command line starts, stops and resets it.

  \<^bold>\<open>How programs are modelled.\<close> A Python function is a HOL function. A function with effects is a
  program \<open>('s, 'a) prog\<close> of theory \<open>Prelude\<close>: it maps a state to an outcome (\<open>Ret\<close> a value,
  \<open>Raise\<close> an exception, \<open>Hang\<close>) and the next state. \<open>try_except\<close> and \<open>try_finally\<close> are the
  statements; exceptions are values with the class hierarchy of \<^verbatim>\<open>errors.py\<close> and of the libraries
  (\<open>mro\<close>, \<open>catches\<close>). \<open>wp m Q s\<close> says that the run of \<open>m\<close> from \<open>s\<close> satisfies \<open>Q\<close>. Everything
  outside the process is asked through \<open>call\<close> (theory \<open>Traces\<close>), which records the call and
  its reply in the \<open>trace\<close> of the state; the answers come from a record of functions of the
  history (\<open>env\<close> of theory \<open>World\<close> for the consumer and the webhook, \<open>host\<close> of theory \<open>Host\<close>
  for the machine). A property of an interaction is therefore a property of traces, for every
  behaviour of the outside. Files are state (\<open>fs\<close>), and so are the variables of the process.

  \<^bold>\<open>Which theory models what.\<close> Each name is that of the source, without its leading underscore.
  \<^item> \<open>PyText\<close>, \<open>Json\<close>, \<open>Decimal\<close>, \<open>Pattern\<close>: what the sources use of Python's strings (UTF-8
    bytes), \<^verbatim>\<open>json\<close>, \<^verbatim>\<open>float\<close> and \<^verbatim>\<open>re\<close>. Floats are exact rationals.
  \<^item> \<open>IR\<close>: \<^verbatim>\<open>server/ir.py\<close>, the circuit and its validators. \<open>Qasm\<close>: \<^verbatim>\<open>server/qasm.py\<close>, parser
    and printer of OpenQASM, the regular expressions as backtracking matchers.
  \<^item> \<open>Executor\<close>, \<open>Loader\<close>: \<^verbatim>\<open>server/executor.py\<close>; the operator's executor is the locale
    \<open>job_executor\<close>, the import system the record \<open>python\<close>. \<open>Auth\<close>: \<^verbatim>\<open>server/auth.py\<close>.
  \<^item> \<open>Webhook\<close>: \<^verbatim>\<open>server/webhook.py\<close>. Its retry loop interprets the locale \<open>stopping_retry\<close> of
    \<open>Traces\<close>, as does the connect request of \<open>Service\<close>.
  \<^item> \<open>Consumer\<close> (one message: decoding, cancellation, execution, report, acknowledgement), \<open>Batch\<close>
    (the batch path), \<open>Delivery\<close> (one concurrent delivery as a small-step program), \<open>Pool\<close> (the
    interleavings of deliveries as a step relation), \<open>Loop\<close> (recovery, the consume loop, drain):
    \<^verbatim>\<open>server/consumer.py\<close>. Its state is the record \<open>consumer\<close>.
  \<^item> \<open>Host\<close>: files with permissions, processes, clocks, HTTP. \<open>Guard\<close>: \<^verbatim>\<open>vpn/guard.py\<close> (detection
    on three platforms, preflight, watch loop). \<open>Config\<close>: \<^verbatim>\<open>server/config.py\<close> and
    \<^verbatim>\<open>server/device_topology.py\<close> (persisted configuration, merge, validators). \<open>Service\<close>:
    \<^verbatim>\<open>vpn/service.py\<close> (profiles, persistence, OpenVPN, connecting and applying the answer).
  \<^item> \<open>Heartbeat\<close>: \<^verbatim>\<open>server/heartbeat.py\<close>. \<open>Daemon\<close>: \<^verbatim>\<open>server/daemon.py\<close>. \<open>App\<close>:
    \<^verbatim>\<open>server/app.py\<close> (startup, shutdown, endpoints). \<open>Cli\<close>: \<^verbatim>\<open>server/cli.py\<close>, its commands; \<open>Args\<close>:
    its arguments, from \<^verbatim>\<open>sys.argv\<close> on, as \<^verbatim>\<open>argparse\<close> of Python 3.11 reads them.

  \<^bold>\<open>What is proved.\<close>
  \<^item> A message (\<open>Consumer_Facts\<close>, \<open>Consumer_Props\<close>): it is acknowledged once and last; no webhook
    follows a seen cancellation; each webhook carries the executor's result or a bounded failure
    report, and at most one is accepted; the status follows its life cycle; processing ends.
  \<^item> Batches (\<open>Pool_Props\<close>): under every interleaving the same promises hold for each job, nothing
    is lost or done twice, and the background task ends; a delivery step is the coroutine.
  \<^item> The loop (\<open>Loop_Props\<close>): order of acknowledgements, backoff and its overflow, the end after a
    stop, the drain, and the loop that never processes again after a failed background task.
  \<^item> The machine (\<open>Config_Props\<close>, \<open>Service_Props\<close>, \<open>Bundle_Props\<close>, \<open>Tunnel_Props\<close>,
    \<open>Guard_Props\<close>): a restart reads what was persisted; persisted secrets have permissions 0600;
    a bundle acts on the machine only when complete; dangerous profiles are refused; the
    connect request is bounded; the watch loop refines an edge detector.
  \<^item> Formats: \<open>Qasm_Props\<close> (printing and parsing give the circuit back, rounded to fifteen digits;
    the parser's result is well-formed), \<open>Json\<close> (\<open>json_round_trip\<close>), \<open>Decimal\<close>
    (\<open>read_format_g\<close>), \<open>Auth\<close> (a token signed with a generated key pair verifies).
  \<^item> The whole (\<open>App_Props\<close>, \<open>Heartbeat\<close>, \<open>Daemon_Props\<close>, \<open>Cli_Props\<close>): startup is all or
    nothing, shutdown is in order (and what a crashed task does to it), the heartbeat protocol,
    one daemon at a time, stopping signals only that daemon, and a reset forgets the node.
  \<^item> The life of a machine (\<open>Machine\<close>): commands, startups, watch loops and shutdowns as one
    transition relation on the files (\<open>disk_step\<close>); the secrets are private in every reachable state.
    \<open>Args_Props\<close>: a command line is read back as it was written, and the node's identity on disk
    changes by no command that does not say \<^verbatim>\<open>reset\<close>.

  \<^bold>\<open>Interfaces.\<close> \<open>bounded_retry\<close> and \<open>stopping_retry\<close> (contract of a retry loop; interpreted on
  \<open>post_loop\<close> and \<open>connect_loop\<close>), \<open>job_executor\<close> (contract of an executor; interpreted on
  \<open>noop_run\<close>), \<open>message_processor\<close> (what the consume loop needs of the processing of a message;
  interpreted on \<open>process_message\<close>), \<open>deadline_poll\<close> (a loop that polls until a deadline;
  interpreted on \<open>poll_tunnel\<close> and \<open>await_exit\<close>). Facts that hold by the shape of a program are collected in \<open>wp_rules\<close>,
  \<open>emits_intros\<close>, \<open>returns_intros\<close>, \<open>keeps_intros\<close> and \<open>guards_intros\<close>.

  \<^bold>\<open>Fuel.\<close> A loop that waits for the outside runs with fuel and is \<open>Hang\<close> without it. Enough is
  proved: 31 rounds for \<open>wait_for_tunnel\<close> (\<open>wait_for_tunnel_ends\<close>), ten rounds per second of
  timeout and one more for \<open>stop_daemon\<close> (\<open>stop_daemon_ends\<close>), the polling budget of the host for
  \<open>process_message\<close>, a bounded weight for the interleavings of \<open>Pool\<close>, the round of the stop
  request for the consume loop. The heartbeat and watch loops run until they are stopped; their
  properties speak of every number of rounds.

  \<^bold>\<open>Not modelled.\<close> Third-party packages and what they do inside: httpx, redis, PyJWT and the RSA
  package, pydantic (coercion of types, reading the environment, JSON of a circuit), FastAPI,
  uvicorn, importlib. They are parameters. Of the standard library, the help and error
  texts of argparse, logging, the rounding of floats to 53 bits, directories, and
  the scheduler of asyncio beyond the interleavings of deliveries: in \<open>App\<close> a task is started,
  cancelled and awaited by name. The two \<^verbatim>\<open>__init__.py\<close> files only re-export names.
\<close>

end
